(* ===== verification/Vox_Json.thy ===== *)
theory Vox_Json
  imports Vox_Prelude
begin

text \<open>
  JSON values as the crate sees them. The crate's payloads are \<open>serde_json\<close> values: this
  theory gives the data type, the accessors the source calls on it (\<open>as_str\<close>, \<open>as_u64\<close>,
  \<open>as_object\<close>, \ldots) and the object operations (\<open>get\<close>, \<open>insert\<close>, the \<open>json!\<close> macro on a
  literal object). Objects are finite maps: \<open>serde_json::Map\<close> is built here without
  insertion order, so two objects with the same entries are equal. Text parsing and printing
  (\<open>from_str\<close>, \<open>to_string\<close>) are not defined here: the definitions that use them take them
  as arguments.
\<close>

section \<open>Numbers\<close>

text \<open>
  A double is a finite value, an infinity or not a number; the two zeros are one value, as
  they are for the comparisons the source makes. An unsigned integer becomes a double by
  rounding to 53 significant bits, ties to even.
\<close>

datatype f64 = F64 rat | F64_infinity bool | F64_nan

fun mantissa_shift :: "nat \<Rightarrow> nat" where
  "mantissa_shift n = (if n < 2 ^ 53 then 0 else Suc (mantissa_shift (n div 2)))"

declare mantissa_shift.simps [simp del]

definition round_to_f64 :: "nat \<Rightarrow> nat" where
  "round_to_f64 n =
     (let k = mantissa_shift n; q = n div 2 ^ k; r = n mod 2 ^ k
      in (if 2 * r > 2 ^ k \<or> 2 * r = 2 ^ k \<and> odd q then q + 1 else q) * 2 ^ k)"

definition f64_of_u64 :: "u64 \<Rightarrow> f64" where
  "f64_of_u64 w = F64 (of_nat (round_to_f64 (unat w)))"

definition f64_of_i64 :: "i64 \<Rightarrow> f64" where
  "f64_of_i64 w =
     (if sint w < 0 then F64 (- of_nat (round_to_f64 (nat (- sint w)))) else f64_of_u64 w)"

fun is_finite :: "f64 \<Rightarrow> bool" where
  "is_finite (F64 _) = True"
| "is_finite _ = False"

text \<open>\<open>(0.0..=1.0).contains(&x)\<close>\<close>

fun in_unit_interval :: "f64 \<Rightarrow> bool" where
  "in_unit_interval (F64 r) = (0 \<le> r \<and> r \<le> 1)"
| "in_unit_interval _ = False"

datatype number = PosInt u64 | NegInt i64 | Float f64

fun number_as_u64 :: "number \<Rightarrow> u64 option" where
  "number_as_u64 (PosInt n) = Some n"
| "number_as_u64 _ = None"

fun number_as_i64 :: "number \<Rightarrow> i64 option" where
  "number_as_i64 (PosInt n) = (if unat n < 2 ^ 63 then Some n else None)"
| "number_as_i64 (NegInt n) = Some n"
| "number_as_i64 (Float _) = None"

fun number_as_f64 :: "number \<Rightarrow> f64" where
  "number_as_f64 (PosInt n) = f64_of_u64 n"
| "number_as_f64 (NegInt n) = f64_of_i64 n"
| "number_as_f64 (Float x) = x"

text \<open>\<open>Number::from_f64\<close>: no JSON number for an infinity or a NaN.\<close>

definition number_from_f64 :: "f64 \<Rightarrow> number option" where
  "number_from_f64 x = (if is_finite x then Some (Float x) else None)"

section \<open>Values and objects\<close>

datatype Value =
    Null
  | Bool bool
  | Number number
  | String string
  | Array "Value list"
  | Object "(string, Value) fmap"

type_synonym EventData = "(string, Value) fmap"

abbreviation get :: "EventData \<Rightarrow> string \<Rightarrow> Value option" where
  "get m k \<equiv> fmlookup m k"

abbreviation put :: "string \<Rightarrow> Value \<Rightarrow> EventData \<Rightarrow> EventData" where
  "put k v m \<equiv> fmupd k v m"

definition object_of :: "(string \<times> Value) list \<Rightarrow> EventData" where
  "object_of kvs = foldl (\<lambda>m (k, v). put k v m) fmempty kvs"

definition json :: "(string \<times> Value) list \<Rightarrow> Value" where
  "json kvs = Object (object_of kvs)"

fun as_str :: "Value \<Rightarrow> string option" where
  "as_str (String s) = Some s"
| "as_str _ = None"

fun as_bool :: "Value \<Rightarrow> bool option" where
  "as_bool (Bool b) = Some b"
| "as_bool _ = None"

fun as_array :: "Value \<Rightarrow> Value list option" where
  "as_array (Array xs) = Some xs"
| "as_array _ = None"

fun as_object :: "Value \<Rightarrow> EventData option" where
  "as_object (Object m) = Some m"
| "as_object _ = None"

fun as_u64 :: "Value \<Rightarrow> u64 option" where
  "as_u64 (Number n) = number_as_u64 n"
| "as_u64 _ = None"

fun as_i64 :: "Value \<Rightarrow> i64 option" where
  "as_i64 (Number n) = number_as_i64 n"
| "as_i64 _ = None"

fun as_f64 :: "Value \<Rightarrow> f64 option" where
  "as_f64 (Number n) = Some (number_as_f64 n)"
| "as_f64 _ = None"

fun is_null :: "Value \<Rightarrow> bool" where
  "is_null Null = True"
| "is_null _ = False"

section \<open>The object interface\<close>

text \<open>What the payload builders rely on: reading after writing.\<close>

locale keyed_store =
  fixes nil :: "'m"
    and lookup :: "'m \<Rightarrow> 'k \<Rightarrow> 'v option"
    and update :: "'k \<Rightarrow> 'v \<Rightarrow> 'm \<Rightarrow> 'm"
  assumes lookup_nil: "lookup nil k = None"
    and lookup_update: "lookup (update k v m) k' = (if k = k' then Some v else lookup m k')"
begin

lemma lookup_updates:
  "lookup (foldl (\<lambda>m (k, v). update k v m) m kvs) k =
     (case map_of (rev kvs) k of Some v \<Rightarrow> Some v | None \<Rightarrow> lookup m k)"
  by (induction kvs arbitrary: m) (auto simp: lookup_update map_add_def split: option.splits)

lemma lookup_updates_nil:
  "lookup (foldl (\<lambda>m (k, v). update k v m) nil kvs) k = map_of (rev kvs) k"
  by (simp add: lookup_updates lookup_nil split: option.splits)

end

interpretation event_map: keyed_store fmempty fmlookup "fmupd :: string \<Rightarrow> Value \<Rightarrow> _"
  by unfold_locales auto

section \<open>Lemmas\<close>

lemma get_object_of: "get (object_of kvs) k = map_of (rev kvs) k"
  unfolding object_of_def by (rule event_map.lookup_updates_nil)

lemma as_object_json [simp]: "as_object (json kvs) = Some (object_of kvs)"
  by (simp add: json_def)

lemma as_str_eq_Some [simp]: "as_str v = Some s \<longleftrightarrow> v = String s"
  by (cases v) auto

lemma as_bool_eq_Some [simp]: "as_bool v = Some b \<longleftrightarrow> v = Bool b"
  by (cases v) auto

lemma as_array_eq_Some [simp]: "as_array v = Some xs \<longleftrightarrow> v = Array xs"
  by (cases v) auto

lemma as_object_eq_Some [simp]: "as_object v = Some m \<longleftrightarrow> v = Object m"
  by (cases v) auto

lemma as_u64_eq_Some [simp]: "as_u64 v = Some n \<longleftrightarrow> v = Number (PosInt n)"
proof (cases v)
  case (Number x)
  then show ?thesis by (cases x) auto
qed auto

lemma is_null_iff [simp]: "is_null v \<longleftrightarrow> v = Null"
  by (cases v) auto

text \<open>Integers below \<open>2 ^ 53\<close> become doubles exactly; the next odd one does not.\<close>

lemma round_to_f64_exact: "n < 2 ^ 53 \<Longrightarrow> round_to_f64 n = n"
  by (simp add: round_to_f64_def mantissa_shift.simps [of n])

lemma round_to_f64_inexact: "round_to_f64 (2 ^ 53 + 1) = 2 ^ 53"
proof -
  have "mantissa_shift 9007199254740993 = 1"
    by (simp add: mantissa_shift.simps [of 9007199254740993] mantissa_shift.simps [of 4503599627370496])
  then show ?thesis by (simp add: round_to_f64_def)
qed

lemma f64_of_u64_exact: "unat w < 2 ^ 53 \<Longrightarrow> f64_of_u64 w = F64 (of_nat (unat w))"
  by (simp add: f64_of_u64_def round_to_f64_exact)

end
