(* ===== verification/Vox_Error.thy ===== *)
theory Vox_Error
  imports Vox_Json
begin

text \<open>
  The crate's error type, \<open>src/rust/rtcserver/src/error.rs\<close>, and the conversion of the
  PondSocket client's errors into it (\<open>socket.rs\<close>). An error value of another crate
  (a URL, HTTP, WebSocket or JSON error) is represented by its displayed text, which is all
  the crate does with it; the text of an HTTP status is an argument of \<open>error_to_string\<close>.
\<close>

datatype VoxRtcError =
    InvalidUrl string
  | Http string
  | WebSocketError string
  | Json string
  | Timeout string
  | JoinTimeout string
  | JoinFailed string string "string option"
  | DisconnectedError
  | NotConnected
  | ChannelClosed
  | PondSocketClient string
  | CreateSessionFailed nat string

type_synonym 'a Result = "('a, VoxRtcError) result"

text \<open>The \<open>Display\<close> implementation that the \<open>#[error(...)]\<close> attributes describe.\<close>

definition reason_suffix :: "string option \<Rightarrow> string" where
  "reason_suffix reason = unwrap_or '''' (map_option (\<lambda>value. '': '' @ value) reason)"

fun error_to_string :: "(nat \<Rightarrow> string) \<Rightarrow> VoxRtcError \<Rightarrow> string" where
  "error_to_string show_status (InvalidUrl e) = ''invalid URL: '' @ e"
| "error_to_string show_status (Http e) = ''HTTP request failed: '' @ e"
| "error_to_string show_status (WebSocketError e) = ''websocket failed: '' @ e"
| "error_to_string show_status (Json e) = ''JSON failed: '' @ e"
| "error_to_string show_status (Timeout what) = ''timed out waiting for '' @ what"
| "error_to_string show_status (JoinTimeout channel) =
     ''timed out waiting for RTC channel join on '' @ channel"
| "error_to_string show_status (JoinFailed channel state reason) =
     ''RTC channel join failed for '' @ channel @ '': '' @ state @ reason_suffix reason"
| "error_to_string show_status DisconnectedError = ''socket is disconnected''"
| "error_to_string show_status NotConnected = ''socket is not connected''"
| "error_to_string show_status ChannelClosed = ''RTC control channel is closed''"
| "error_to_string show_status (PondSocketClient e) = ''PondSocket client failed: '' @ e"
| "error_to_string show_status (CreateSessionFailed status body) =
     ''failed to create Vox RTC session: '' @ show_status status @ '' '' @ body"

text \<open>\<open>impl From<tungstenite::Error>\<close> (\<open>error.rs\<close>).\<close>

definition from_tungstenite :: "string \<Rightarrow> VoxRtcError" where
  "from_tungstenite value = WebSocketError value"

text \<open>
  \<open>ClientError\<close> of the PondSocket client, with the variants the source names; every other
  variant is \<open>ClientOther\<close>. \<open>impl From<ClientError>\<close> (\<open>socket.rs\<close>).
\<close>

datatype ClientError =
    ClientUrl string
  | ClientSerialization string
  | ClientWebSocket string
  | ClientNotConnected
  | ClientChannelClosed
  | ClientOther string

fun from_client_error :: "ClientError \<Rightarrow> VoxRtcError" where
  "from_client_error (ClientUrl err) = InvalidUrl err"
| "from_client_error (ClientSerialization err) = Json err"
| "from_client_error (ClientWebSocket err) = PondSocketClient err"
| "from_client_error ClientNotConnected = NotConnected"
| "from_client_error ClientChannelClosed = ChannelClosed"
| "from_client_error (ClientOther err) = PondSocketClient err"

text \<open>
  The conversion keeps the two conditions a caller must tell apart: it yields
  \<open>NotConnected\<close> exactly for the client's not-connected error and \<open>ChannelClosed\<close> exactly
  for its channel-closed error, never for anything else; the text of every error that
  carries one is kept.
\<close>

theorem from_client_error_distinguishes:
  "(from_client_error e = NotConnected \<longleftrightarrow> e = ClientNotConnected) \<and>
   (from_client_error e = ChannelClosed \<longleftrightarrow> e = ClientChannelClosed) \<and>
   (from_client_error e = InvalidUrl t \<longleftrightarrow> e = ClientUrl t) \<and>
   (from_client_error e = Json t \<longleftrightarrow> e = ClientSerialization t) \<and>
   (from_client_error e = PondSocketClient t \<longleftrightarrow> e = ClientWebSocket t \<or> e = ClientOther t)"
  by (cases e) auto

end
