(* ===== verification/Vox_Types.thy ===== *)
theory Vox_Types
  imports Vox_Error
begin

text \<open>
  The data model of the crate, \<open>src/rust/rtcserver/src/types.rs\<close>: the wire names of the
  events, the connection and channel states, the records that the session hands to its
  callers, the field readers (\<open>optional_string\<close>, \<open>optional_number\<close>, \ldots) and the
  validity check of the speech context.

  Every event struct starts with the three fields \<open>session_id\<close>, \<open>channel_name\<close> and
  \<open>data\<close>: they are the record \<open>EventBase\<close>, which the event records extend. Field names that
  several structs share carry a short prefix.
\<close>

named_theorems event_names \<open>the wire names of the events\<close>

section \<open>Wire names\<close>

definition EVENT_CLIENT_EVENT :: string where [event_names]: "EVENT_CLIENT_EVENT = ''client.event''"
definition EVENT_BROWSER_EVENT :: string where [event_names]: "EVENT_BROWSER_EVENT = ''browser.event''"
definition EVENT_RTC_CLIENT_DISCONNECTED :: string where
  [event_names]: "EVENT_RTC_CLIENT_DISCONNECTED = ''rtc.client.disconnected''"
definition EVENT_ERROR :: string where [event_names]: "EVENT_ERROR = ''error''"
definition EVENT_INTERRUPTION_DETECTED :: string where
  [event_names]: "EVENT_INTERRUPTION_DETECTED = ''interruption.detected''"
definition EVENT_INTERRUPTION_FALSE_POSITIVE :: string where
  [event_names]: "EVENT_INTERRUPTION_FALSE_POSITIVE = ''interruption.false_positive''"
definition EVENT_RESPONSE_AUDIO_CLEAR :: string where
  [event_names]: "EVENT_RESPONSE_AUDIO_CLEAR = ''response.audio.clear''"
definition EVENT_RESPONSE_CANCELLED :: string where
  [event_names]: "EVENT_RESPONSE_CANCELLED = ''response.cancelled''"
definition EVENT_RESPONSE_COMMITTED :: string where
  [event_names]: "EVENT_RESPONSE_COMMITTED = ''response.committed''"
definition EVENT_RESPONSE_CREATED :: string where
  [event_names]: "EVENT_RESPONSE_CREATED = ''response.created''"
definition EVENT_RESPONSE_DONE :: string where [event_names]: "EVENT_RESPONSE_DONE = ''response.done''"
definition EVENT_RESPONSE_SPOKEN_TEXT :: string where
  [event_names]: "EVENT_RESPONSE_SPOKEN_TEXT = ''response.spoken_text.resolved''"
definition EVENT_RTC_SESSION_ATTACHED :: string where
  [event_names]: "EVENT_RTC_SESSION_ATTACHED = ''rtc.session.attached''"
definition EVENT_RTC_SIGNALING_ERROR :: string where
  [event_names]: "EVENT_RTC_SIGNALING_ERROR = ''rtc.signaling_error''"
definition EVENT_SESSION_CREATED :: string where
  [event_names]: "EVENT_SESSION_CREATED = ''session.created''"
definition EVENT_TRANSCRIPT_COMPLETED :: string where
  [event_names]: "EVENT_TRANSCRIPT_COMPLETED = ''conversation.item.input_audio_transcription.completed''"
definition EVENT_TURN_STATE_CHANGED :: string where
  [event_names]: "EVENT_TURN_STATE_CHANGED = ''turn.state_changed''"
definition EVENT_SPEECH_STARTED :: string where
  [event_names]: "EVENT_SPEECH_STARTED = ''input_audio_buffer.speech_started''"
definition EVENT_SPEECH_STOPPED :: string where
  [event_names]: "EVENT_SPEECH_STOPPED = ''input_audio_buffer.speech_stopped''"
definition EVENT_TRANSCRIPT_DELTA :: string where
  [event_names]: "EVENT_TRANSCRIPT_DELTA = ''conversation.item.input_audio_transcription.delta''"
definition EVENT_TURN_EOU_PREDICTED :: string where
  [event_names]: "EVENT_TURN_EOU_PREDICTED = ''turn.eou.predicted''"

definition event_constants :: "string list" where
  "event_constants =
     [EVENT_CLIENT_EVENT, EVENT_BROWSER_EVENT, EVENT_RTC_CLIENT_DISCONNECTED, EVENT_ERROR,
      EVENT_INTERRUPTION_DETECTED, EVENT_INTERRUPTION_FALSE_POSITIVE, EVENT_RESPONSE_AUDIO_CLEAR,
      EVENT_RESPONSE_CANCELLED, EVENT_RESPONSE_COMMITTED, EVENT_RESPONSE_CREATED,
      EVENT_RESPONSE_DONE, EVENT_RESPONSE_SPOKEN_TEXT, EVENT_RTC_SESSION_ATTACHED,
      EVENT_RTC_SIGNALING_ERROR, EVENT_SESSION_CREATED, EVENT_TRANSCRIPT_COMPLETED,
      EVENT_TURN_STATE_CHANGED, EVENT_SPEECH_STARTED, EVENT_SPEECH_STOPPED,
      EVENT_TRANSCRIPT_DELTA, EVENT_TURN_EOU_PREDICTED]"

definition ERROR_CODE_RESPONSE_REJECTED_TURN_STATE :: string where
  [event_names]: "ERROR_CODE_RESPONSE_REJECTED_TURN_STATE = ''response_rejected_turn_state''"

definition ERROR_CODE_RESPONSE_REJECTED_USER_SPEECH :: string where
  [event_names]: "ERROR_CODE_RESPONSE_REJECTED_USER_SPEECH = ''response_rejected_user_speech''"

definition ERROR_CODE_RESPONSE_STALE_GENERATION :: string where
  [event_names]: "ERROR_CODE_RESPONSE_STALE_GENERATION = ''response_stale_generation''"

definition ERROR_CODE_RESPONSE_ALREADY_ACTIVE :: string where
  [event_names]: "ERROR_CODE_RESPONSE_ALREADY_ACTIVE = ''response_already_active''"

definition ERROR_CODE_RESPONSE_FAILED :: string where
  [event_names]: "ERROR_CODE_RESPONSE_FAILED = ''response_failed''"

definition ERROR_CODE_COMMAND_INVALID :: string where
  [event_names]: "ERROR_CODE_COMMAND_INVALID = ''command_invalid''"

definition ERROR_CODE_SESSION_FAILED :: string where
  [event_names]: "ERROR_CODE_SESSION_FAILED = ''session_failed''"

definition error_codes :: "string list" where
  "error_codes =
     [ERROR_CODE_RESPONSE_REJECTED_TURN_STATE,
      ERROR_CODE_RESPONSE_REJECTED_USER_SPEECH,
      ERROR_CODE_RESPONSE_STALE_GENERATION,
      ERROR_CODE_RESPONSE_ALREADY_ACTIVE,
      ERROR_CODE_RESPONSE_FAILED,
      ERROR_CODE_COMMAND_INVALID,
      ERROR_CODE_SESSION_FAILED]"

section \<open>States\<close>

datatype ConnectionState = Disconnected | Connecting | Connected

datatype ChannelState = Idle | Joining | Joined | Closed | Declined

section \<open>Session bootstrap and options\<close>

record RtcIceServer =
  urls :: Value
  username :: "string option"
  credential :: "string option"

record SessionBootstrap =
  boot_session_id :: string
  expires_at :: string
  attach_ttl_seconds :: u64
  ice_servers :: "RtcIceServer list"

record SessionConfig =
  stt_model :: "string option"
  tts_model :: "string option"
  cfg_voice :: "string option"
  turn_profile :: "string option"
  vad_backend :: "string option"
  cfg_turn_detector :: "string option"
  cfg_speech_context :: "bool option"
  extra :: EventData

record ResponseOutputOptions =
  opt_model :: "string option"
  opt_voice :: "string option"
  opt_language :: "string option"
  opt_speed :: "f64 option"
  opt_params :: "EventData option"

record ResponseOptions =
  allow_interruptions :: "bool option"
  opt_generation_id :: "string option"
  opt_supersedes_generation_id :: "string option"
  opt_output :: "ResponseOutputOptions option"

definition default_response_options :: ResponseOptions where
  "default_response_options =
     \<lparr>allow_interruptions = None, opt_generation_id = None,
      opt_supersedes_generation_id = None, opt_output = None\<rparr>"

record ResponseOutput =
  model :: string
  out_voice :: "string option"
  out_language :: string
  speed :: f64
  params :: EventData

record ClientEventEnvelope =
  env_event :: string
  env_payload :: Value

section \<open>Events\<close>

record EventBase =
  session_id :: string
  channel_name :: string
  data :: EventData

record WireEvent = EventBase +
  wire_type :: string

type_synonym SessionAttachedEvent = EventBase

record SessionCreatedEvent = EventBase +
  session :: "EventData option"

record TranscriptEntity =
  ent_type :: string
  ent_text :: string
  start_char :: u64
  end_char :: u64

record TranscriptWord =
  word_text :: string
  word_start_ms :: f64
  word_end_ms :: f64
  confidence :: "f64 option"

datatype SpeechContextStatus = Complete | Partial | Failed

datatype SpeechContextTrack = Speaker | Sounds

record SpeechContextSpan =
  label :: string
  span_start_ms :: u64
  span_end_ms :: u64

record SpeechContextSoundSpan =
  span :: SpeechContextSpan
  score :: f64

record SpeechContext =
  schema_version :: u8
  status :: SpeechContextStatus
  emotions :: "SpeechContextSpan list option"
  vocal :: "SpeechContextSpan list option"
  sounds :: "SpeechContextSoundSpan list option"
  unavailable :: "SpeechContextTrack list option"

record TranscriptEvent = EventBase +
  transcript :: string
  tr_language :: "string option"
  tr_start_ms :: "f64 option"
  tr_end_ms :: "f64 option"
  eou_probability :: "f64 option"
  topics :: "string list option"
  entities :: "TranscriptEntity list"
  words :: "TranscriptWord list"
  speech_context :: "SpeechContext option"

record TurnStateEvent = EventBase +
  turn_state :: string
  previous_state :: "string option"

record SpeechStartedEvent = EventBase +
  started_timestamp_ms :: "f64 option"

record SpeechStoppedEvent = EventBase +
  stopped_timestamp_ms :: "f64 option"

record TranscriptDeltaEvent = EventBase +
  delta :: string
  delta_start_ms :: "f64 option"
  delta_end_ms :: "f64 option"

record TurnEouPredictedEvent = EventBase +
  probability :: "f64 option"
  threshold :: "f64 option"
  delay_ms :: "f64 option"
  eou_start_ms :: "f64 option"
  eou_end_ms :: "f64 option"
  decision :: "string option"
  action :: "string option"
  turn_detector :: "string option"

record ResponseEvent = EventBase +
  response_id :: "string option"
  generation_id :: "string option"
  supersedes_generation_id :: "string option"
  superseded_by_generation_id :: "string option"
  resp_reason :: "string option"
  resp_output :: "ResponseOutput option"

record ResponseSpokenTextEvent =
  spoken_response :: ResponseEvent
  spoken_text :: string
  partial_status :: string
  played_audio_ms :: f64

record InterruptionEvent =
  int_response :: ResponseEvent
  vad_active_ms :: "f64 option"
  partial_transcript :: "string option"
  int_reason :: "string option"

record BrowserEvent = EventBase +
  br_event :: string
  br_payload :: Value

record CloseEvent = EventBase +
  close_reason :: string
  connection_state :: "string option"
  ice_connection_state :: "string option"
  data_channel_state :: "string option"

record ErrorEvent = EventBase +
  err_message :: "string option"
  err_code :: "string option"
  err_recoverable :: bool
  err_generation_id :: "string option"

record SignalingErrorEvent = EventBase +
  sig_message :: "string option"
  sig_generation :: "i64 option"

record StartAck =
  accepted :: bool
  ack_generation_id :: string
  ack_response_id :: "string option"
  ack_output :: "ResponseOutput option"
  error_code :: "string option"
  error_message :: "string option"
  recoverable :: bool

section \<open>Validity of a speech context\<close>

text \<open>\<open>opt.iter().flatten()\<close>: the elements of an optional vector.\<close>

definition flatten_opt :: "'a list option \<Rightarrow> 'a list" where
  "flatten_opt x = unwrap_or [] x"

definition span_ok :: "SpeechContextSpan \<Rightarrow> bool" where
  "span_ok s \<longleftrightarrow> label s \<noteq> '''' \<and> span_end_ms s > span_start_ms s"

definition sound_ok :: "SpeechContextSoundSpan \<Rightarrow> bool" where
  "sound_ok s \<longleftrightarrow>
     label (span s) \<noteq> '''' \<and> span_end_ms (span s) > span_start_ms (span s) \<and>
     is_finite (score s) \<and> in_unit_interval (score s)"

definition unique_tracks :: "SpeechContextTrack list \<Rightarrow> bool" where
  "unique_tracks us \<longleftrightarrow> list_all (\<lambda>(index, track). \<not> List.member (take index us) track) (enumerate 0 us)"

text \<open>The \<open>match self.status\<close> of \<open>is_valid\<close>.\<close>

definition status_ok :: "SpeechContext \<Rightarrow> SpeechContextTrack list \<Rightarrow> bool" where
  "status_ok c us =
     (let speaker_unavailable = List.member us Speaker;
          sounds_unavailable = List.member us Sounds
      in case status c of
           Complete \<Rightarrow>
             emotions c \<noteq> None \<and> vocal c \<noteq> None \<and> sounds c \<noteq> None \<and> unavailable c = None
         | Partial \<Rightarrow>
             length us = 1 \<and> speaker_unavailable = (emotions c = None)
             \<and> speaker_unavailable = (vocal c = None)
             \<and> sounds_unavailable = (sounds c = None)
         | Failed \<Rightarrow>
             length us = 2 \<and> speaker_unavailable \<and> sounds_unavailable
             \<and> emotions c = None \<and> vocal c = None \<and> sounds c = None)"

definition is_valid :: "SpeechContext \<Rightarrow> bool" where
  "is_valid c =
     (if schema_version c \<noteq> 2
         \<or> \<not> list_all span_ok (flatten_opt (emotions c))
         \<or> \<not> list_all span_ok (flatten_opt (vocal c))
         \<or> \<not> list_all sound_ok (flatten_opt (sounds c))
      then False
      else
        let us = unwrap_or [] (unavailable c) in
        if \<not> unique_tracks us then False else status_ok c us)"

section \<open>Field readers\<close>

definition optional_string :: "EventData \<Rightarrow> string \<Rightarrow> string option" where
  "optional_string m key = Option.bind (get m key) as_str"

definition required_string :: "EventData \<Rightarrow> string \<Rightarrow> string \<Rightarrow> string" where
  "required_string m key fallback =
     unwrap_or fallback (opt_filter (\<lambda>s. s \<noteq> []) (optional_string m key))"

definition optional_number :: "EventData \<Rightarrow> string \<Rightarrow> f64 option" where
  "optional_number m key = Option.bind (get m key) as_f64"

definition optional_i64 :: "EventData \<Rightarrow> string \<Rightarrow> i64 option" where
  "optional_i64 m key = Option.bind (get m key) as_i64"

definition optional_nonempty_string :: "EventData \<Rightarrow> string \<Rightarrow> string option" where
  "optional_nonempty_string m key = opt_filter (\<lambda>s. s \<noteq> []) (optional_string m key)"

definition recoverable_flag :: "EventData \<Rightarrow> bool" where
  "recoverable_flag m = unwrap_or True (Option.bind (get m ''recoverable'') as_bool)"

definition optional_string_vec :: "EventData \<Rightarrow> string \<Rightarrow> string list option" where
  "optional_string_vec m key =
     Option.bind (Option.bind (get m key) as_array) (\<lambda>items. collect_options (map as_str items))"

definition transcript_entity :: "Value \<Rightarrow> TranscriptEntity option" where
  "transcript_entity v =
     (case as_object v of
        None \<Rightarrow> None
      | Some obj \<Rightarrow> Some
          \<lparr>ent_type = unwrap_or '''' (optional_string obj ''type''),
           ent_text = unwrap_or '''' (optional_string obj ''text''),
           start_char = unwrap_or 0 (Option.bind (get obj ''start_char'') as_u64),
           end_char = unwrap_or 0 (Option.bind (get obj ''end_char'') as_u64)\<rparr>)"

definition transcript_entities :: "EventData \<Rightarrow> TranscriptEntity list" where
  "transcript_entities m =
     unwrap_or [] (map_option (List.map_filter transcript_entity)
       (Option.bind (get m ''entities'') as_array))"

definition transcript_word :: "Value \<Rightarrow> TranscriptWord option" where
  "transcript_word v =
     (case as_object v of
        None \<Rightarrow> None
      | Some obj \<Rightarrow> Some
          \<lparr>word_text = unwrap_or '''' (optional_string obj ''word''),
           word_start_ms = unwrap_or (F64 0) (optional_number obj ''start_ms''),
           word_end_ms = unwrap_or (F64 0) (optional_number obj ''end_ms''),
           confidence = optional_number obj ''confidence''\<rparr>)"

definition transcript_words :: "EventData \<Rightarrow> TranscriptWord list" where
  "transcript_words m =
     unwrap_or [] (map_option (List.map_filter transcript_word)
       (Option.bind (get m ''words'') as_array))"

section \<open>An independent statement of validity\<close>

text \<open>
  What schema version 2 asks of a context, without the order of the code's tests: every span
  is well formed, the unavailable tracks are listed once each, a track's data is absent
  exactly when the track is listed, and the status counts the listed tracks.
\<close>

definition unavailable_set :: "SpeechContext \<Rightarrow> SpeechContextTrack set" where
  "unavailable_set c = set (unwrap_or [] (unavailable c))"

definition speech_context_spec :: "SpeechContext \<Rightarrow> bool" where
  "speech_context_spec c \<longleftrightarrow>
     schema_version c = 2 \<and>
     (\<forall>s \<in> set (flatten_opt (emotions c)) \<union> set (flatten_opt (vocal c)) \<union>
           span ` set (flatten_opt (sounds c)). label s \<noteq> '''' \<and> span_start_ms s < span_end_ms s) \<and>
     (\<forall>s \<in> set (flatten_opt (sounds c)). \<exists>r. score s = F64 r \<and> 0 \<le> r \<and> r \<le> 1) \<and>
     distinct (unwrap_or [] (unavailable c)) \<and>
     (emotions c = None \<longleftrightarrow> Speaker \<in> unavailable_set c) \<and>
     (vocal c = None \<longleftrightarrow> Speaker \<in> unavailable_set c) \<and>
     (sounds c = None \<longleftrightarrow> Sounds \<in> unavailable_set c) \<and>
     (status c = Complete \<longleftrightarrow> unavailable_set c = {}) \<and>
     (status c = Failed \<longleftrightarrow> unavailable_set c = {Speaker, Sounds}) \<and>
     (status c = Complete \<longrightarrow> unavailable c = None)"

section \<open>Lemmas\<close>

lemma optional_string_simps [simp]:
  "optional_string (put k (String s) m) k = Some s"
  "k \<noteq> k' \<Longrightarrow> optional_string (put k v m) k' = optional_string m k'"
  "optional_string fmempty k = None"
  by (simp_all add: optional_string_def)

lemma optional_number_simps [simp]:
  "k \<noteq> k' \<Longrightarrow> optional_number (put k v m) k' = optional_number m k'"
  "optional_number (put k (Number n) m) k = Some (number_as_f64 n)"
  by (simp_all add: optional_number_def)

lemma optional_nonempty_string_Some:
  "optional_nonempty_string m k = Some s \<longleftrightarrow> get m k = Some (String s) \<and> s \<noteq> []"
  by (auto simp: optional_nonempty_string_def optional_string_def bind_eq_Some_conv)

lemma map_filter_filter: "List.map_filter f xs = map (the \<circ> f) (filter (\<lambda>x. f x \<noteq> None) xs)"
  by (simp add: List.map_filter_def)

lemma track_set_eq: "A = B \<longleftrightarrow> (Speaker \<in> A \<longleftrightarrow> Speaker \<in> B) \<and> (Sounds \<in> A \<longleftrightarrow> Sounds \<in> B)"
proof
  assume eq: "(Speaker \<in> A \<longleftrightarrow> Speaker \<in> B) \<and> (Sounds \<in> A \<longleftrightarrow> Sounds \<in> B)"
  show "A = B"
  proof (rule set_eqI)
    fix x show "x \<in> A \<longleftrightarrow> x \<in> B" using eq by (cases x) auto
  qed
qed simp

lemma track_list_length:
  assumes "distinct us"
  shows "length us = (if Speaker \<in> set us then 1 else 0) + (if Sounds \<in> set us then 1 else 0)"
proof -
  have "set us = (if Speaker \<in> set us then {Speaker} else {}) \<union> (if Sounds \<in> set us then {Sounds} else {})"
    by (subst track_set_eq) simp
  then have "card (set us) =
      card ((if Speaker \<in> set us then {Speaker} else {}) \<union> (if Sounds \<in> set us then {Sounds} else {}))"
    by (rule arg_cong)
  also have "\<dots> = (if Speaker \<in> set us then 1 else 0) + (if Sounds \<in> set us then 1 else 0)"
    by simp
  finally have "card (set us) = (if Speaker \<in> set us then 1 else 0) + (if Sounds \<in> set us then 1 else 0)" .
  with distinct_card [OF assms] show ?thesis by simp
qed

lemma unique_tracks_distinct: "unique_tracks us \<longleftrightarrow> distinct us"
proof -
  have "unique_tracks us \<longleftrightarrow> (\<forall>i < length us. us ! i \<notin> set (take i us))"
    by (auto simp: unique_tracks_def list_all_iff in_set_enumerate_eq)
  also have "\<dots> \<longleftrightarrow> distinct us"
  proof (induction us rule: rev_induct)
    case Nil
    show ?case by simp
  next
    case (snoc x xs)
    have "(\<forall>i < length (xs @ [x]). (xs @ [x]) ! i \<notin> set (take i (xs @ [x]))) \<longleftrightarrow>
        (\<forall>i < length xs. xs ! i \<notin> set (take i xs)) \<and> x \<notin> set xs"
      by (auto simp: less_Suc_eq nth_append)
    with snoc show ?case by simp
  qed
  finally show ?thesis .
qed

lemma sound_ok_iff:
  "sound_ok s \<longleftrightarrow> span_ok (span s) \<and> (\<exists>r. score s = F64 r \<and> 0 \<le> r \<and> r \<le> 1)"
  by (cases "score s") (auto simp: sound_ok_def span_ok_def)

text \<open>The three status branches, read as conditions on the set of listed tracks.\<close>

lemma status_ok_iff:
  assumes d: "distinct (unwrap_or [] (unavailable c))"
  shows "status_ok c (unwrap_or [] (unavailable c)) \<longleftrightarrow>
      (emotions c = None \<longleftrightarrow> Speaker \<in> unavailable_set c) \<and>
      (vocal c = None \<longleftrightarrow> Speaker \<in> unavailable_set c) \<and>
      (sounds c = None \<longleftrightarrow> Sounds \<in> unavailable_set c) \<and>
      (status c = Complete \<longleftrightarrow> unavailable_set c = {}) \<and>
      (status c = Failed \<longleftrightarrow> unavailable_set c = {Speaker, Sounds}) \<and>
      (status c = Complete \<longrightarrow> unavailable c = None)"
proof (cases "status c")
  case Complete
  then show ?thesis by (cases "unavailable c") (auto simp: unavailable_set_def status_ok_def)
next
  case Partial
  with track_list_length [OF d] show ?thesis
    by (auto simp: status_ok_def unavailable_set_def track_set_eq [of "set _"] simp del: set_empty
        split: if_splits)
next
  case Failed
  with track_list_length [OF d] show ?thesis
    by (auto simp: status_ok_def unavailable_set_def track_set_eq [of "set _"] simp del: set_empty
        split: if_splits)
qed

text \<open>Reading lists of values.\<close>

lemma map_as_str_Some: "map as_str xs = map Some ss \<longleftrightarrow> xs = map String ss"
  by (induction xs arbitrary: ss) (auto simp: Cons_eq_map_conv)

lemma map_Some_map_filter: "map Some (List.map_filter f xs) = filter (\<lambda>x. x \<noteq> None) (map f xs)"
  by (induction xs) (auto simp: map_filter_filter)

lemma length_map_filter: "length (List.map_filter f xs) = length (filter (\<lambda>x. f x \<noteq> None) xs)"
  by (simp add: map_filter_filter)

lemma transcript_entity_None: "transcript_entity v = None \<longleftrightarrow> as_object v = None"
  by (cases v) (auto simp: transcript_entity_def)

lemma transcript_word_None: "transcript_word v = None \<longleftrightarrow> as_object v = None"
  by (cases v) (auto simp: transcript_word_def)

section \<open>Properties\<close>

text \<open>
  C22. The validity check decides exactly the declarative reading of schema version 2: the
  code's early returns, its prefix-based duplicate test and its three status branches accept
  a context if and only if the independent statement holds of it.
\<close>

theorem is_valid_iff_spec: "is_valid c = speech_context_spec c"
proof -
  let ?us = "unwrap_or [] (unavailable c)"
  have spans: "list_all span_ok (flatten_opt (emotions c)) \<and> list_all span_ok (flatten_opt (vocal c)) \<and>
      list_all sound_ok (flatten_opt (sounds c)) \<longleftrightarrow>
      (\<forall>s \<in> set (flatten_opt (emotions c)) \<union> set (flatten_opt (vocal c)) \<union>
           span ` set (flatten_opt (sounds c)). label s \<noteq> '''' \<and> span_start_ms s < span_end_ms s) \<and>
      (\<forall>s \<in> set (flatten_opt (sounds c)). \<exists>r. score s = F64 r \<and> 0 \<le> r \<and> r \<le> 1)"
    by (auto simp: list_all_iff sound_ok_iff span_ok_def)
  have "is_valid c \<longleftrightarrow> schema_version c = 2 \<and>
      (list_all span_ok (flatten_opt (emotions c)) \<and> list_all span_ok (flatten_opt (vocal c)) \<and>
       list_all sound_ok (flatten_opt (sounds c))) \<and> distinct ?us \<and> status_ok c ?us"
    by (auto simp: is_valid_def Let_def unique_tracks_distinct)
  note eq = this [unfolded spans]
  show ?thesis
  proof (cases "distinct ?us")
    case True
    show ?thesis
      unfolding eq speech_context_spec_def by (simp only: status_ok_iff [OF True] conj_assoc)
  next
    case False
    then show ?thesis unfolding eq speech_context_spec_def by (simp only: simp_thms)
  qed
qed

text \<open>
  The wire names of the 21 events are pairwise different, so that a listener that
  compares the name of a message with its own constant sees the messages of one event only.
\<close>

theorem event_constants_distinct: "distinct event_constants \<and> length event_constants = 21"
  by (simp add: event_constants_def event_names)

text \<open>
  The seven error codes are pairwise different, and none is the name of an event.\<close>

theorem error_codes_distinct: "distinct error_codes \<and> set error_codes \<inter> set event_constants = {}"
  by (simp add: error_codes_def event_constants_def event_names)

text \<open>
  Lists in a transcript are read with two different tolerances. A topics array is used
  only when every element is a string, in the order of the array; an element of the entities
  or words array that is not an object is skipped, every other one is kept, in order.
\<close>

theorem transcript_lists_tolerance:
  "(optional_string_vec m key = Some ss \<longleftrightarrow> get m key = Some (Array (map String ss))) \<and>
   (get m ''entities'' = Some (Array es) \<longrightarrow>
      map Some (transcript_entities m) = filter (\<lambda>x. x \<noteq> None) (map transcript_entity es) \<and>
      length (transcript_entities m) = length (filter (\<lambda>v. as_object v \<noteq> None) es)) \<and>
   (get m ''words'' = Some (Array ws) \<longrightarrow>
      map Some (transcript_words m) = filter (\<lambda>x. x \<noteq> None) (map transcript_word ws) \<and>
      length (transcript_words m) = length (filter (\<lambda>v. as_object v \<noteq> None) ws))"
proof -
  have topics: "optional_string_vec m key = Some ss \<longleftrightarrow> get m key = Some (Array (map String ss))"
    by (auto simp: optional_string_vec_def bind_eq_Some_conv collect_options_Some_iff map_as_str_Some)
  show ?thesis
    using topics by (simp add: transcript_entities_def transcript_words_def map_Some_map_filter
        length_map_filter transcript_entity_None transcript_word_None)
qed

lemma transcript_lists_tolerance_witness:
  "transcript_entities (object_of [(''entities'', Array [Null, json [(''text'', String ''Ada'')]]),
      (''words'', Array [])]) =
    [\<lparr>ent_type = '''', ent_text = ''Ada'', start_char = 0, end_char = 0\<rparr>]"
proof -
  let ?es = "[Null, json [(''text'', String ''Ada'')]]"
  let ?m = "object_of [(''entities'', Array ?es), (''words'', Array [])]"
  have "map Some (transcript_entities ?m) = filter (\<lambda>x. x \<noteq> None) (map transcript_entity ?es)"
    using transcript_lists_tolerance [of ?m "[]" "[]" ?es "[]"] by (simp add: get_object_of)
  also have "\<dots> = map Some [\<lparr>ent_type = '''', ent_text = ''Ada'', start_char = 0, end_char = 0\<rparr>]"
    by (simp add: transcript_entity_def optional_string_def get_object_of json_def)
  finally show ?thesis by (simp only: inj_map_eq_map [OF inj_Some])
qed

end
