(* ===== verification/Vox_Socket.thy ===== *)
theory Vox_Socket
  imports Vox_Types
begin

text \<open>
  The PondSocket adapter, \<open>src/rust/rtcserver/src/socket.rs\<close>: the mapping of the client's
  states and events, the reconnect backoff, \<open>RawSocketChannel\<close> with its two mirror tasks and
  its closed-channel guard, and \<open>RawSocketClient\<close> with the supervisor task that reconnects.

  The PondSocket client is another crate. Its channel and its connection are values of the
  type variables \<open>'c\<close> and \<open>'k\<close>, and its methods are the fields of the records
  \<open>pond_channel\<close> and \<open>pond_client\<close>, which the definitions take as their first argument.
  A method of a channel returns the channel after the call, so whatever happens on the
  network in the meantime is part of that value.
\<close>

section \<open>The PondSocket client as seen from here\<close>

datatype PondConnectionState = PondConnecting | PondConnected | PondDisconnected

datatype PondChannelState =
  PondIdle | PondJoining | PondJoined | PondClosed | PondDeclined | PondStalled

datatype ChannelEvent = ChannelMessage string EventData | Presence

record 'c pond_channel =
  pond_name :: "'c \<Rightarrow> string"
  pond_state :: "'c \<Rightarrow> PondChannelState"
  pond_join :: "'c \<Rightarrow> 'c"
  pond_leave :: "'c \<Rightarrow> 'c"
  pond_send_message :: "string \<Rightarrow> EventData option \<Rightarrow> 'c \<Rightarrow> 'c"
  pond_decline_reason :: "'c \<Rightarrow> EventData option"

record ('k, 'c) pond_client =
  pond_with_options :: "string \<Rightarrow> EventData option \<Rightarrow> duration \<Rightarrow> ('k, ClientError) result"
  pond_connection_state :: "'k \<Rightarrow> PondConnectionState"
  pond_connect :: "'k \<Rightarrow> (unit, ClientError) result \<times> 'k"
  pond_disconnect :: "'k \<Rightarrow> 'k"
  pond_create_channel :: "string \<Rightarrow> EventData option \<Rightarrow> 'k \<Rightarrow> 'c \<times> 'k"

section \<open>State and event mapping\<close>

fun map_connection_state :: "PondConnectionState \<Rightarrow> ConnectionState" where
  "map_connection_state PondConnecting = Connecting"
| "map_connection_state PondConnected = Connected"
| "map_connection_state PondDisconnected = Disconnected"

fun map_channel_state :: "PondChannelState \<Rightarrow> ChannelState" where
  "map_channel_state PondIdle = Idle"
| "map_channel_state PondJoining = Joining"
| "map_channel_state PondJoined = Joined"
| "map_channel_state PondClosed = Closed"
| "map_channel_state PondDeclined = Declined"
| "map_channel_state PondStalled = Joining"

fun map_channel_event :: "ChannelEvent \<Rightarrow> (string \<times> EventData) option" where
  "map_channel_event (ChannelMessage event payload) = Some (event, payload)"
| "map_channel_event Presence = None"

section \<open>Reconnect delay\<close>

definition INITIAL_RECONNECT_DELAY :: duration where
  "INITIAL_RECONNECT_DELAY = from_millis 200"

definition next_reconnect_delay :: "duration \<Rightarrow> duration \<Rightarrow> duration" where
  "next_reconnect_delay current max_delay =
     (let doubled = saturating_mul current 2
      in if doubled > max_delay then max_delay else doubled)"

section \<open>RawSocketChannel\<close>

text \<open>
  \<open>state_tx\<close> is the value of the watch channel the adapter publishes, \<open>message_tx\<close> the
  messages it has broadcast, oldest first.
\<close>

record 'c RawSocketChannel =
  channel :: 'c
  state_tx :: ChannelState
  message_tx :: "(string \<times> EventData) list"

definition raw_channel_new :: "'c pond_channel \<Rightarrow> 'c \<Rightarrow> 'c RawSocketChannel" where
  "raw_channel_new P c = \<lparr>channel = c, state_tx = map_channel_state (pond_state P c), message_tx = []\<rparr>"

text \<open>
  The task that mirrors the channel state: publish the current value, wait for a change,
  stop when the sender is gone.
\<close>

definition mirror_state :: "PondChannelState \<Rightarrow> 'c RawSocketChannel \<Rightarrow> 'c RawSocketChannel" where
  "mirror_state ps ch = ch\<lparr>state_tx := map_channel_state ps\<rparr>"

fun mirror_state_loop ::
  "PondChannelState \<Rightarrow> PondChannelState watch_wait list \<Rightarrow> 'c RawSocketChannel \<Rightarrow> 'c RawSocketChannel" where
  "mirror_state_loop ps [] ch = mirror_state ps ch"
| "mirror_state_loop ps (Changed ps' # ws) ch = mirror_state_loop ps' ws (mirror_state ps ch)"
| "mirror_state_loop ps (_ # ws) ch = mirror_state ps ch"

text \<open>The task that mirrors the messages: \<open>while let Ok(event) = pond_events.recv().await\<close>.\<close>

fun mirror_message_loop :: "ChannelEvent recv_wait list \<Rightarrow> 'c RawSocketChannel \<Rightarrow> 'c RawSocketChannel" where
  "mirror_message_loop [] ch = ch"
| "mirror_message_loop (Received event # rs) ch =
     mirror_message_loop rs
       (case map_channel_event event of
          Some m \<Rightarrow> ch\<lparr>message_tx := message_tx ch @ [m]\<rparr>
        | None \<Rightarrow> ch)"
| "mirror_message_loop (_ # rs) ch = ch"

definition raw_name :: "'c pond_channel \<Rightarrow> 'c RawSocketChannel \<Rightarrow> string" where
  "raw_name P ch = pond_name P (channel ch)"

text \<open>
  \<open>broadcast::channel(1024)\<close>: how many messages are retained for a slow receiver. A receiver is the
  index of the next message it is to receive; one that subscribes starts after what was broadcast.
\<close>

definition MESSAGE_CAPACITY :: nat where
  "MESSAGE_CAPACITY = 1024"

definition raw_subscribe_messages :: "'c RawSocketChannel \<Rightarrow> nat" where
  "raw_subscribe_messages ch = length (message_tx ch)"

definition raw_decline_reason :: "'c pond_channel \<Rightarrow> 'c RawSocketChannel \<Rightarrow> EventData option" where
  "raw_decline_reason P ch = pond_decline_reason P (channel ch)"

definition closed_error :: "'c pond_channel \<Rightarrow> 'c RawSocketChannel \<Rightarrow> VoxRtcError option" where
  "closed_error P ch =
     (case pond_state P (channel ch) of
        PondClosed \<Rightarrow> Some ChannelClosed
      | PondDeclined \<Rightarrow> Some ChannelClosed
      | _ \<Rightarrow> None)"

definition raw_join :: "'c pond_channel \<Rightarrow> 'c RawSocketChannel \<Rightarrow> unit Result \<times> 'c RawSocketChannel" where
  "raw_join P ch =
     (case closed_error P ch of
        Some e \<Rightarrow> (Err e, ch)
      | None \<Rightarrow> (Ok (), ch\<lparr>channel := pond_join P (channel ch)\<rparr>))"

definition raw_leave :: "'c pond_channel \<Rightarrow> 'c RawSocketChannel \<Rightarrow> unit Result \<times> 'c RawSocketChannel" where
  "raw_leave P ch =
     (case closed_error P ch of
        Some e \<Rightarrow> (Err e, ch)
      | None \<Rightarrow> (Ok (), ch\<lparr>channel := pond_leave P (channel ch)\<rparr>))"

definition raw_send_message ::
  "'c pond_channel \<Rightarrow> string \<Rightarrow> EventData \<Rightarrow> 'c RawSocketChannel \<Rightarrow> unit Result \<times> 'c RawSocketChannel" where
  "raw_send_message P event payload ch =
     (case closed_error P ch of
        Some e \<Rightarrow> (Err e, ch)
      | None \<Rightarrow> (Ok (), ch\<lparr>channel := pond_send_message P event (Some payload) (channel ch)\<rparr>))"

section \<open>RawSocketClient and its reconnect supervisor\<close>

text \<open>
  A spawned supervisor is a task with a program counter: waiting for a state change,
  sleeping before an attempt, waiting for \<open>client.connect()\<close>, out of its loop, or finished, which
  its handle shows a moment later. A \<open>JoinHandle\<close>
  is the index of a task; the flag beside the counter says that the task was aborted. An
  aborted task stops at some later point, which is the step \<open>Cancelled\<close>.
\<close>

datatype sup_pc = Sup_watching | Sup_sleeping duration | Sup_connecting duration | Sup_leaving | Sup_finished

record sup_task =
  pc :: sup_pc
  aborted :: bool

datatype sup_event = Watch_changed PondConnectionState | Watch_error | Slept | Connect_done bool | Task_ended | Cancelled

record 'k RawSocketClient =
  client :: 'k
  conn_tx :: ConnectionState
  active :: bool
  supervisor :: "nat option"
  tasks :: "sup_task list"
  max_reconnect_delay :: duration

definition raw_client_new ::
  "('k, 'c) pond_client \<Rightarrow> string \<Rightarrow> EventData \<Rightarrow> duration \<Rightarrow> duration \<Rightarrow> 'k RawSocketClient Result" where
  "raw_client_new K endpoint socket_params connection_timeout max_delay =
     (case pond_with_options K endpoint (Some socket_params) connection_timeout of
        Inl e \<Rightarrow> Err (from_client_error e)
      | Inr k \<Rightarrow> Ok
          \<lparr>client = k, conn_tx = map_connection_state (pond_connection_state K k), active = False,
           supervisor = None, tasks = [], max_reconnect_delay = max_delay\<rparr>)"

definition is_finished :: "'k RawSocketClient \<Rightarrow> nat \<Rightarrow> bool" where
  "is_finished s h \<longleftrightarrow> (h < length (tasks s) \<longrightarrow> pc (tasks s ! h) = Sup_finished)"

text \<open>\<open>spawn_reconnect_supervisor\<close>: a new task at the head of its loop.\<close>

definition spawn_reconnect_supervisor :: "'k RawSocketClient \<Rightarrow> nat \<times> 'k RawSocketClient" where
  "spawn_reconnect_supervisor s =
     (length (tasks s), s\<lparr>tasks := tasks s @ [\<lparr>pc = Sup_watching, aborted = False\<rparr>]\<rparr>)"

definition ensure_supervisor :: "'k RawSocketClient \<Rightarrow> 'k RawSocketClient" where
  "ensure_supervisor s =
     (if (case supervisor s of Some h \<Rightarrow> \<not> is_finished s h | None \<Rightarrow> False) then s
      else let (h, s') = spawn_reconnect_supervisor s in s'\<lparr>supervisor := Some h\<rparr>)"

definition supervisor_abort :: "'k RawSocketClient \<Rightarrow> 'k RawSocketClient" where
  "supervisor_abort s =
     (case supervisor s of
        None \<Rightarrow> s
      | Some h \<Rightarrow> s\<lparr>supervisor := None,
                    tasks := (tasks s)[h := (tasks s ! h)\<lparr>aborted := True\<rparr>]\<rparr>)"

text \<open>The drop of the last handle of a client drops its supervisor with it.\<close>

definition supervisor_drop :: "'k RawSocketClient \<Rightarrow> 'k RawSocketClient" where
  "supervisor_drop s = supervisor_abort s"

definition raw_state :: "('k, 'c) pond_client \<Rightarrow> 'k RawSocketClient \<Rightarrow> ConnectionState" where
  "raw_state K s = map_connection_state (pond_connection_state K (client s))"

definition publish_state :: "('k, 'c) pond_client \<Rightarrow> 'k RawSocketClient \<Rightarrow> 'k RawSocketClient" where
  "publish_state K s = s\<lparr>conn_tx := raw_state K s\<rparr>"

definition raw_connect_end ::
  "('k, 'c) pond_client \<Rightarrow> (unit, ClientError) result \<Rightarrow> 'k RawSocketClient \<Rightarrow> unit Result \<times> 'k RawSocketClient" where
  "raw_connect_end K r s =
     (case r of
        Inl e \<Rightarrow> (Err (from_client_error e), s)
      | Inr _ \<Rightarrow> (Ok (), publish_state K s))"

text \<open>
  The methods on their own: \<open>connect\<close> and \<open>disconnect\<close> have one await each, the call of the PondSocket
  client. How their operations interleave with those of other calls is described below.
\<close>

definition raw_connect :: "('k, 'c) pond_client \<Rightarrow> 'k RawSocketClient \<Rightarrow> unit Result \<times> 'k RawSocketClient" where
  "raw_connect K s =
     (let s1 = publish_state K (ensure_supervisor (s\<lparr>active := True\<rparr>));
          (r, k) = pond_connect K (client s1)
      in raw_connect_end K r (s1\<lparr>client := k\<rparr>))"

definition raw_disconnect :: "('k, 'c) pond_client \<Rightarrow> 'k RawSocketClient \<Rightarrow> 'k RawSocketClient" where
  "raw_disconnect K s =
     (let s1 = supervisor_abort (s\<lparr>active := False\<rparr>)
      in publish_state K (s1\<lparr>client := pond_disconnect K (client s1)\<rparr>))"

definition raw_create_channel ::
  "('k, 'c) pond_client \<Rightarrow> 'c pond_channel \<Rightarrow> string \<Rightarrow> EventData \<Rightarrow> 'k RawSocketClient
     \<Rightarrow> 'c RawSocketChannel \<times> 'k RawSocketClient" where
  "raw_create_channel K P name chan_params s =
     (let (c, k) = pond_create_channel K name (Some chan_params) (client s)
      in (raw_channel_new P c, s\<lparr>client := k\<rparr>))"

text \<open>
  One turn of the supervisor between two awaits: \<open>act\<close> is the flag, \<open>st\<close> the client's
  state at that time; the result is where the task waits next and the connection state it
  published, if it did.
\<close>

definition inner_loop_head :: "bool \<Rightarrow> PondConnectionState \<Rightarrow> duration \<Rightarrow> sup_pc" where
  "inner_loop_head act st d = (if act \<and> st = PondDisconnected then Sup_sleeping d else Sup_watching)"

fun supervisor_turn ::
  "bool \<Rightarrow> PondConnectionState \<Rightarrow> duration \<Rightarrow> sup_pc \<Rightarrow> sup_event \<Rightarrow> sup_pc \<times> ConnectionState option" where
  "supervisor_turn act st mx Sup_watching Watch_error = (Sup_leaving, None)"
| "supervisor_turn act st mx Sup_watching (Watch_changed current) =
     (if \<not> act then (Sup_leaving, None)
      else if current \<noteq> PondDisconnected then (Sup_watching, Some (map_connection_state current))
      else (inner_loop_head act st INITIAL_RECONNECT_DELAY, Some (map_connection_state current)))"
| "supervisor_turn act st mx (Sup_sleeping d) Slept =
     (if \<not> act then (Sup_watching, None) else (Sup_connecting d, None))"
| "supervisor_turn act st mx (Sup_connecting d) (Connect_done ok) =
     (if ok then (Sup_watching, Some (map_connection_state st))
      else (inner_loop_head act st (next_reconnect_delay d mx), None))"
| "supervisor_turn act st mx Sup_leaving Task_ended = (Sup_finished, None)"
| "supervisor_turn act st mx p e = (p, None)"

text \<open>
  A turn of task \<open>h\<close> in the shared state. An aborted task can be cancelled instead.
\<close>

definition supervisor_step ::
  "('k, 'c) pond_client \<Rightarrow> nat \<Rightarrow> sup_event \<Rightarrow> 'k RawSocketClient \<Rightarrow> 'k RawSocketClient" where
  "supervisor_step K h e s =
     (if h < length (tasks s) then
        let t = tasks s ! h in
        if e = Cancelled then
          (if aborted t then s\<lparr>tasks := (tasks s)[h := t\<lparr>pc := Sup_finished\<rparr>]\<rparr> else s)
        else
          let (p, pub) = supervisor_turn (active s) (pond_connection_state K (client s))
                           (max_reconnect_delay s) (pc t) e
          in s\<lparr>tasks := (tasks s)[h := t\<lparr>pc := p\<rparr>],
               conn_tx := (case pub of Some c \<Rightarrow> c | None \<Rightarrow> conn_tx s)\<rparr>
      else s)"

text \<open>
  The operations of the client's methods and its supervisors in any order, with a connection that
  may change at any time. \<open>raw_client_reach K m\<close> holds of the states a client that was created
  with the maximum delay \<open>m\<close> can be in, as long as the sender of the connection state lives.
\<close>

inductive raw_client_reach :: "('k, 'c) pond_client \<Rightarrow> duration \<Rightarrow> 'k RawSocketClient \<Rightarrow> bool"
  for K m where
  reach_new: "raw_client_new K endpoint ps ct m = Inr s \<Longrightarrow> raw_client_reach K m s"
| reach_active: "raw_client_reach K m s \<Longrightarrow> raw_client_reach K m (s\<lparr>active := b\<rparr>)"
| reach_ensure: "raw_client_reach K m s \<Longrightarrow> raw_client_reach K m (ensure_supervisor s)"
| reach_abort: "raw_client_reach K m s \<Longrightarrow> raw_client_reach K m (supervisor_abort s)"
| reach_publish: "raw_client_reach K m s \<Longrightarrow> raw_client_reach K m (publish_state K s)"
| reach_client: "raw_client_reach K m s \<Longrightarrow> raw_client_reach K m (s\<lparr>client := k\<rparr>)"
| reach_supervisor: "raw_client_reach K m s \<Longrightarrow> e \<noteq> Watch_error \<Longrightarrow>
    raw_client_reach K m (supervisor_step K h e s)"

section \<open>Concurrent calls of connect and disconnect\<close>

text \<open>
  A client can be cloned, and its clones share everything but the maximum delay. A call of
  \<open>connect\<close> or \<open>disconnect\<close> is followed one operation on the shared state at a time: the store of
  the flag, the section under the supervisor's lock, the publication of the state; then it waits
  for the PondSocket client.
\<close>

datatype client_pc =
    Connect_called
  | Connect_flagged
  | Connect_ensured
  | Connect_waiting
  | Connect_returned "unit Result"
  | Disconnect_called
  | Disconnect_flagged
  | Disconnect_waiting
  | Disconnect_returned

fun client_op ::
  "('k, 'c) pond_client \<Rightarrow> client_pc \<Rightarrow> 'k RawSocketClient \<Rightarrow> client_pc \<times> 'k RawSocketClient" where
  "client_op K Connect_called s = (Connect_flagged, s\<lparr>active := True\<rparr>)"
| "client_op K Connect_flagged s = (Connect_ensured, ensure_supervisor s)"
| "client_op K Connect_ensured s = (Connect_waiting, publish_state K s)"
| "client_op K Disconnect_called s = (Disconnect_flagged, s\<lparr>active := False\<rparr>)"
| "client_op K Disconnect_flagged s = (Disconnect_waiting, supervisor_abort s)"
| "client_op K c s = (c, s)"

text \<open>The answer of the PondSocket client.\<close>

fun client_answer ::
  "('k, 'c) pond_client \<Rightarrow> (unit, ClientError) result \<Rightarrow> client_pc \<Rightarrow> 'k RawSocketClient
     \<Rightarrow> client_pc \<times> 'k RawSocketClient" where
  "client_answer K r Connect_waiting s = map_prod Connect_returned id (raw_connect_end K r s)"
| "client_answer K r Disconnect_waiting s = (Disconnect_returned, publish_state K s)"
| "client_answer K r c s = (c, s)"

record 'k client_calls =
  raw :: "'k RawSocketClient"
  client_pcs :: "client_pc list"

datatype 'k client_event =
    Connect_call
  | Disconnect_call
  | Client_op nat
  | Client_answer nat "(unit, ClientError) result"
  | Connection_moved 'k
  | Supervisor_turn nat sup_event

fun client_step :: "('k, 'c) pond_client \<Rightarrow> 'k client_calls \<Rightarrow> 'k client_event \<Rightarrow> 'k client_calls" where
  "client_step K t Connect_call = t\<lparr>client_pcs := client_pcs t @ [Connect_called]\<rparr>"
| "client_step K t Disconnect_call = t\<lparr>client_pcs := client_pcs t @ [Disconnect_called]\<rparr>"
| "client_step K t (Client_op i) =
     (if i < length (client_pcs t) then
        let (c, s) = client_op K (client_pcs t ! i) (raw t)
        in t\<lparr>raw := s, client_pcs := (client_pcs t)[i := c]\<rparr>
      else t)"
| "client_step K t (Client_answer i r) =
     (if i < length (client_pcs t) then
        let (c, s) = client_answer K r (client_pcs t ! i) (raw t)
        in t\<lparr>raw := s, client_pcs := (client_pcs t)[i := c]\<rparr>
      else t)"
| "client_step K t (Connection_moved k) = t\<lparr>raw := (raw t)\<lparr>client := k\<rparr>\<rparr>"
| "client_step K t (Supervisor_turn h e) = t\<lparr>raw := supervisor_step K h e (raw t)\<rparr>"

text \<open>A call that has stored the flag and has not yet been under the lock.\<close>

definition midway :: "client_pc \<Rightarrow> bool" where
  "midway c \<longleftrightarrow> c = Connect_flagged \<or> c = Disconnect_flagged"

text \<open>No other call is in that window.\<close>

definition undisturbed :: "'k client_calls \<Rightarrow> 'k client_event \<Rightarrow> bool" where
  "undisturbed t e \<longleftrightarrow>
     (case e of
        Client_op i \<Rightarrow> \<forall>j < length (client_pcs t). j \<noteq> i \<longrightarrow> \<not> midway (client_pcs t ! j)
      | _ \<Rightarrow> True)"

text \<open>The states of a client under calls that interleave freely, or (\<open>apart\<close>) outside that window only.\<close>

inductive calls_reach :: "bool \<Rightarrow> ('k, 'c) pond_client \<Rightarrow> duration \<Rightarrow> 'k client_calls \<Rightarrow> bool"
  for apart K m where
  calls_start: "raw_client_new K endpoint ps ct m = Inr s \<Longrightarrow>
    calls_reach apart K m \<lparr>raw = s, client_pcs = []\<rparr>"
| calls_step: "calls_reach apart K m t \<Longrightarrow> \<forall>h. e \<noteq> Supervisor_turn h Watch_error \<Longrightarrow> (apart \<Longrightarrow> undisturbed t e) \<Longrightarrow>
    calls_reach apart K m (client_step K t e)"

definition client_run :: "('k, 'c) pond_client \<Rightarrow> 'k client_event list \<Rightarrow> 'k client_calls \<Rightarrow> 'k client_calls" where
  "client_run K es t = foldl (client_step K) t es"

section \<open>Interfaces\<close>

text \<open>
  What the session relies on: a closed channel refuses a message and stays as it is, an
  open one accepts it. \<open>send_seq\<close> is the chain of sends joined by the \<open>?\<close> operator.
\<close>

fun send_seq ::
  "(string \<Rightarrow> EventData \<Rightarrow> 'ch \<Rightarrow> unit Result \<times> 'ch) \<Rightarrow> (string \<times> EventData) list \<Rightarrow> 'ch \<Rightarrow> unit Result \<times> 'ch" where
  "send_seq send [] c = (Ok (), c)"
| "send_seq send ((e, p) # ms) c =
     (case send e p c of (Inl x, c') \<Rightarrow> (Inl x, c') | (Inr _, c') \<Rightarrow> send_seq send ms c')"

locale control_channel =
  fixes closed :: "'ch \<Rightarrow> bool"
    and send :: "string \<Rightarrow> EventData \<Rightarrow> 'ch \<Rightarrow> unit Result \<times> 'ch"
  assumes send_closed: "closed c \<Longrightarrow> send e p c = (Err ChannelClosed, c)"
    and send_open: "\<not> closed c \<Longrightarrow> fst (send e p c) = Ok ()"
begin

lemma send_error: "fst (send e p c) = Err x \<Longrightarrow> x = ChannelClosed \<and> snd (send e p c) = c"
  by (cases "closed c") (auto simp: send_closed dest: send_open [of c e p])

lemma send_seq_closed: "closed c \<Longrightarrow> ms \<noteq> [] \<Longrightarrow> send_seq send ms c = (Err ChannelClosed, c)"
  by (cases ms) (auto simp: send_closed)

end

text \<open>
  What the supervisor's loop relies on: a delay that grows until it meets its bound and
  stays there.
\<close>

locale backoff =
  fixes step :: "nat \<Rightarrow> nat"
    and bound :: nat
  assumes bounded: "step d \<le> bound"
    and progress: "0 < d \<Longrightarrow> d < bound \<Longrightarrow> d < step d"
    and settled: "step bound = bound"
begin

lemma reaches_bound: "0 < d \<Longrightarrow> d \<le> bound \<Longrightarrow> \<exists>n \<le> bound - d. (step ^^ n) d = bound"
proof (induction "bound - d" arbitrary: d rule: less_induct)
  case less
  show ?case
  proof (cases "d = bound")
    case True
    then show ?thesis by (intro exI [of _ 0]) simp
  next
    case False
    with less.prems have "d < bound" by simp
    with less.prems have lt: "d < step d" by (simp add: progress)
    then have "bound - step d < bound - d" using \<open>d < bound\<close> by arith
    moreover have "0 < step d" using lt by simp
    ultimately obtain n where n: "n \<le> bound - step d" "(step ^^ n) (step d) = bound"
      using less.hyps [of "step d"] bounded by blast
    from n(1) lt \<open>d < bound\<close> have "Suc n \<le> bound - d" by arith
    moreover have "(step ^^ Suc n) d = bound" using n(2) by (simp add: funpow_swap1)
    ultimately show ?thesis by blast
  qed
qed

lemma stays_settled: "(step ^^ n) d = bound \<Longrightarrow> n \<le> k \<Longrightarrow> (step ^^ k) d = bound"
proof (induction k)
  case (Suc k)
  then show ?case by (cases "n = Suc k") (auto simp: settled le_Suc_eq)
qed simp

end

section \<open>Lemmas\<close>

lemma closed_error_eq:
  "closed_error P ch =
     (if pond_state P (channel ch) \<in> {PondClosed, PondDeclined} then Some ChannelClosed else None)"
  by (auto simp: closed_error_def split: PondChannelState.splits)

lemma closed_error_Some: "closed_error P ch = Some e \<Longrightarrow> e = ChannelClosed"
  by (auto simp: closed_error_eq split: if_splits)

lemma raw_send_message_simps [simp]:
  "closed_error P ch = None \<Longrightarrow> raw_send_message P e p ch =
     (Ok (), ch\<lparr>channel := pond_send_message P e (Some p) (channel ch)\<rparr>)"
  "closed_error P ch = Some x \<Longrightarrow> raw_send_message P e p ch = (Err ChannelClosed, ch)"
  by (auto simp: raw_send_message_def dest: closed_error_Some)

interpretation raw_channel: control_channel "\<lambda>ch. closed_error P ch \<noteq> None" "raw_send_message P"
  for P :: "'c pond_channel"
  by unfold_locales auto

subsection \<open>Backoff\<close>

lemma next_reconnect_delay_min:
  "mx \<le> duration_max \<Longrightarrow> next_reconnect_delay d mx = min mx (d * 2)"
  by (auto simp: next_reconnect_delay_def saturating_mul_def Let_def min_def)

interpretation reconnect:
  backoff "\<lambda>d. next_reconnect_delay d (min mx duration_max)" "min mx duration_max" for mx
  by unfold_locales (auto simp: next_reconnect_delay_min)

lemma iterate_delay:
  assumes "mx \<le> duration_max"
  shows "((\<lambda>d. next_reconnect_delay d mx) ^^ Suc n) d = min mx (d * 2 ^ Suc n)"
  using assms
proof (induction n)
  case 0
  then show ?case by (simp add: next_reconnect_delay_min)
next
  case (Suc n)
  have "((\<lambda>d. next_reconnect_delay d mx) ^^ Suc (Suc n)) d =
      next_reconnect_delay (min mx (d * 2 ^ Suc n)) mx"
    using Suc by simp
  also have "\<dots> = min mx (d * 2 ^ Suc (Suc n))"
    using Suc.prems by (auto simp: next_reconnect_delay_min min_def)
  finally show ?case .
qed

subsection \<open>Invariants of the client\<close>

text \<open>
  A live supervisor is in its loop and was not aborted. Only the task in the slot can be live, and
  a task in the slot was not aborted.
\<close>

definition live :: "'k RawSocketClient \<Rightarrow> nat \<Rightarrow> bool" where
  "live s h \<longleftrightarrow> h < length (tasks s) \<and> pc (tasks s ! h) \<notin> {Sup_leaving, Sup_finished} \<and> \<not> aborted (tasks s ! h)"

definition supervisor_inv :: "'k RawSocketClient \<Rightarrow> bool" where
  "supervisor_inv s \<longleftrightarrow>
     (\<forall>h. supervisor s = Some h \<longrightarrow> h < length (tasks s) \<and> \<not> aborted (tasks s ! h)) \<and>
     (\<forall>h. supervisor s \<noteq> Some h \<longrightarrow> \<not> live s h)"

lemma inv_live: "supervisor_inv s \<Longrightarrow> live s h \<Longrightarrow> supervisor s = Some h"
  by (auto simp: supervisor_inv_def)

lemma nth_update_self:
  "i < length xs \<Longrightarrow> xs[h := f (xs ! h)] ! i = (if i = h then f (xs ! i) else xs ! i)"
  by (auto simp: nth_list_update)

lemma supervisor_inv_new: "raw_client_new K ep ps ct m = Inr s \<Longrightarrow> supervisor_inv s \<and> \<not> active s \<and> supervisor s = None"
  by (auto simp: raw_client_new_def supervisor_inv_def live_def split: sum.splits)

lemma live_frame [simp]:
  "live (s\<lparr>client := k\<rparr>) h = live s h" "live (s\<lparr>conn_tx := c\<rparr>) h = live s h"
  "live (s\<lparr>active := b\<rparr>) h = live s h" "live (publish_state K s) h = live s h"
  by (simp_all add: live_def publish_state_def)

lemma supervisor_inv_frame [simp]:
  "supervisor_inv (s\<lparr>client := k\<rparr>) = supervisor_inv s"
  "supervisor_inv (s\<lparr>conn_tx := c\<rparr>) = supervisor_inv s"
  "supervisor_inv (s\<lparr>active := b\<rparr>) = supervisor_inv s"
  "supervisor_inv (publish_state K s) = supervisor_inv s"
  by (simp_all add: supervisor_inv_def publish_state_def live_def)

lemma ensure_supervisor_cases:
  assumes "supervisor_inv s"
  obtains (kept) h where "supervisor s = Some h" "pc (tasks s ! h) \<noteq> Sup_finished" "ensure_supervisor s = s"
  | (spawned) "\<And>h. \<not> live s h"
      "ensure_supervisor s = s\<lparr>supervisor := Some (length (tasks s)),
         tasks := tasks s @ [\<lparr>pc = Sup_watching, aborted = False\<rparr>]\<rparr>"
proof (cases "\<exists>h. supervisor s = Some h \<and> \<not> is_finished s h")
  case True
  then show thesis using kept by (auto simp: ensure_supervisor_def is_finished_def)
next
  case False
  have "\<not> live s h" for h
  proof
    assume "live s h"
    with assms have "supervisor s = Some h" "\<not> is_finished s h"
      by (simp_all add: inv_live) (simp add: live_def is_finished_def)
    with False show False by blast
  qed
  moreover from False have "ensure_supervisor s = s\<lparr>supervisor := Some (length (tasks s)),
      tasks := tasks s @ [\<lparr>pc = Sup_watching, aborted = False\<rparr>]\<rparr>"
    by (auto simp: ensure_supervisor_def spawn_reconnect_supervisor_def Let_def split: option.splits)
  ultimately show thesis by (rule spawned)
qed

lemma ensure_supervisor_inv: "supervisor_inv s \<Longrightarrow> supervisor_inv (ensure_supervisor s)"
  by (cases rule: ensure_supervisor_cases [of s])
    (simp_all add: supervisor_inv_def live_def nth_append less_Suc_eq)

lemma supervisor_abort_inv: "supervisor_inv s \<Longrightarrow> supervisor_inv (supervisor_abort s)"
  by (cases "supervisor s") (auto simp: supervisor_inv_def live_def supervisor_abort_def nth_list_update split: if_splits)

lemma supervisor_abort_kills: "supervisor_inv s \<Longrightarrow> \<not> live (supervisor_abort s) h"
  by (cases "supervisor s") (auto simp: supervisor_inv_def live_def supervisor_abort_def nth_list_update)

lemma turn_live:
  "fst (supervisor_turn act st mx p e) \<notin> {Sup_leaving, Sup_finished} \<Longrightarrow> p \<notin> {Sup_leaving, Sup_finished}"
  by (induction act st mx p e rule: supervisor_turn.induct) auto

lemma turn_stays:
  "act \<Longrightarrow> e \<noteq> Watch_error \<Longrightarrow> p \<notin> {Sup_leaving, Sup_finished} \<Longrightarrow>
   fst (supervisor_turn act st mx p e) \<notin> {Sup_leaving, Sup_finished}"
  by (induction act st mx p e rule: supervisor_turn.induct) (auto simp: inner_loop_head_def)

lemma turn_connecting:
  "fst (supervisor_turn act st mx p e) = Sup_connecting d \<Longrightarrow> \<not> act \<Longrightarrow> p = Sup_connecting d"
  by (induction act st mx p e rule: supervisor_turn.induct)
    (auto simp: inner_loop_head_def split: if_splits)

lemma supervisor_step_fields [simp]:
  "active (supervisor_step K h e s) = active s"
  "supervisor (supervisor_step K h e s) = supervisor s"
  "length (tasks (supervisor_step K h e s)) = length (tasks s)"
  "max_reconnect_delay (supervisor_step K h e s) = max_reconnect_delay s"
  by (auto simp: supervisor_step_def Let_def split: prod.splits)

lemma supervisor_step_task:
  "i < length (tasks s) \<Longrightarrow>
   tasks (supervisor_step K h e s) ! i =
     (if i \<noteq> h then tasks s ! i
      else if e = Cancelled then
        (if aborted (tasks s ! i) then (tasks s ! i)\<lparr>pc := Sup_finished\<rparr> else tasks s ! i)
      else (tasks s ! i)\<lparr>pc := fst (supervisor_turn (active s) (pond_connection_state K (client s))
              (max_reconnect_delay s) (pc (tasks s ! i)) e)\<rparr>)"
  by (auto simp: supervisor_step_def Let_def nth_list_update split: prod.splits)

lemma supervisor_step_live: "live (supervisor_step K h e s) i \<Longrightarrow> live s i"
proof -
  assume l: "live (supervisor_step K h e s) i"
  then have i: "i < length (tasks s)" by (simp add: live_def)
  show "live s i"
  proof (cases "i = h \<and> e \<noteq> Cancelled")
    case True
    with l i turn_live [of "active s" "pond_connection_state K (client s)" "max_reconnect_delay s" "pc (tasks s ! i)" e]
    show ?thesis by (simp add: live_def supervisor_step_task)
  next
    case False
    with l i show ?thesis by (auto simp: live_def supervisor_step_task split: if_splits)
  qed
qed

lemma supervisor_step_stays:
  "active s \<Longrightarrow> e \<noteq> Watch_error \<Longrightarrow> live s i \<Longrightarrow> live (supervisor_step K h e s) i"
  using turn_stays by (fastforce simp: live_def supervisor_step_task)

lemma supervisor_step_inv:
  assumes "supervisor_inv s"
  shows "supervisor_inv (supervisor_step K h e s)"
proof -
  have "aborted (tasks (supervisor_step K h e s) ! i) = aborted (tasks s ! i)" if "i < length (tasks s)" for i
    using that by (simp add: supervisor_step_task)
  moreover have "live (supervisor_step K h e s) i \<Longrightarrow> supervisor s = Some i" for i
    by (rule inv_live [OF assms supervisor_step_live])
  ultimately show ?thesis using assms unfolding supervisor_inv_def supervisor_step_fields by metis
qed

lemma reach_supervisor_inv: "raw_client_reach K m s \<Longrightarrow> supervisor_inv s"
  by (induction rule: raw_client_reach.induct)
    (auto dest: supervisor_inv_new intro: ensure_supervisor_inv supervisor_abort_inv supervisor_step_inv)

text \<open>
  Dropping a client, also one that is still active, leaves no live supervisor.
\<close>

theorem dropped_client_ends_tasks:
  "raw_client_reach K m s \<Longrightarrow> \<not> live (supervisor_drop s) i"
  unfolding supervisor_drop_def by (rule supervisor_abort_kills [OF reach_supervisor_inv])

text \<open>The calls perform no other operations than those, in some order.\<close>

lemma connect_end_reach: "raw_client_reach K m s \<Longrightarrow> raw_client_reach K m (snd (raw_connect_end K r s))"
  by (simp add: raw_connect_end_def reach_publish split: sum.split)

lemma client_op_reach: "raw_client_reach K m s \<Longrightarrow> raw_client_reach K m (snd (client_op K c s))"
  by (cases c) (simp_all add: reach_active reach_ensure reach_publish reach_abort)

lemma client_answer_reach: "raw_client_reach K m s \<Longrightarrow> raw_client_reach K m (snd (client_answer K r c s))"
  by (cases c) (simp_all add: reach_publish connect_end_reach)

lemma calls_reach_raw: "calls_reach apart K m t \<Longrightarrow> raw_client_reach K m (raw t)"
proof (induction rule: calls_reach.induct)
  case (calls_start ep ps ct s)
  then show ?case by (simp add: reach_new)
next
  case (calls_step t e)
  show ?case
  proof (cases e)
    case (Client_op i)
    with calls_step.IH client_op_reach [of K m "raw t" "client_pcs t ! i"] show ?thesis
      by (auto split: prod.split)
  next
    case (Client_answer i r)
    with calls_step.IH client_answer_reach [of K m "raw t" r "client_pcs t ! i"] show ?thesis
      by (auto split: prod.split)
  next
    case (Supervisor_turn h' e')
    then show ?thesis
      using calls_step.IH calls_step.hyps by (cases "e' = Watch_error") (auto intro: reach_supervisor)
  qed (use calls_step.IH in \<open>auto intro: reach_client\<close>)
qed

text \<open>
  When calls stay out of each other's window: a client that is active has a live task in its slot,
  if it has one, and outside the window the flag says whether it has one. Inside the window the
  flag is already the call's.
\<close>

definition apart_inv :: "'k client_calls \<Rightarrow> bool" where
  "apart_inv t \<longleftrightarrow> supervisor_inv (raw t) \<and>
     (\<forall>c \<in> set (client_pcs t). midway c \<longrightarrow> (active (raw t) \<longleftrightarrow> c = Connect_flagged)) \<and>
     (active (raw t) \<longrightarrow> (\<forall>h. supervisor (raw t) = Some h \<longrightarrow> live (raw t) h)) \<and>
     ((\<forall>c \<in> set (client_pcs t). \<not> midway c) \<longrightarrow> (active (raw t) \<longleftrightarrow> supervisor (raw t) \<noteq> None))"

lemma midway_simps [simp]:
  "midway Connect_flagged" "midway Disconnect_flagged" "\<not> midway Connect_called" "\<not> midway Connect_ensured"
  "\<not> midway Connect_waiting" "\<not> midway (Connect_returned r)" "\<not> midway Disconnect_called"
  "\<not> midway Disconnect_waiting" "\<not> midway Disconnect_returned"
  by (simp_all add: midway_def)

lemma connect_end_frame [simp]:
  "active (snd (raw_connect_end K r s)) = active s"
  "supervisor (snd (raw_connect_end K r s)) = supervisor s"
  "live (snd (raw_connect_end K r s)) h = live s h"
  "supervisor_inv (snd (raw_connect_end K r s)) = supervisor_inv s"
  by (simp_all add: raw_connect_end_def split: sum.split) (simp_all add: publish_state_def)

lemma publish_frame [simp]:
  "active (publish_state K s) = active s" "supervisor (publish_state K s) = supervisor s"
  by (simp_all add: publish_state_def)

lemma client_answer_frame:
  "client_answer K r c s = (c', s') \<Longrightarrow>
   midway c' = midway c \<and> (midway c' \<longrightarrow> c' = c) \<and> active s' = active s \<and>
   supervisor s' = supervisor s \<and> live s' = live s \<and> supervisor_inv s' = supervisor_inv s"
  by (cases c) (auto simp: fun_eq_iff raw_connect_end_def split: sum.splits)

text \<open>A call that is alone in its window.\<close>

lemma client_op_apart:
  assumes inv: "supervisor_inv s" "midway c \<longrightarrow> (active s \<longleftrightarrow> c = Connect_flagged)"
      "active s \<longrightarrow> (\<forall>h. supervisor s = Some h \<longrightarrow> live s h)"
      "\<not> midway c \<longrightarrow> (active s \<longleftrightarrow> supervisor s \<noteq> None)"
    and op: "client_op K c s = (c', s')"
  shows "supervisor_inv s' \<and> (midway c' \<longrightarrow> (active s' \<longleftrightarrow> c' = Connect_flagged)) \<and>
    (active s' \<longrightarrow> (\<forall>h. supervisor s' = Some h \<longrightarrow> live s' h)) \<and>
    (\<not> midway c' \<longrightarrow> (active s' \<longleftrightarrow> supervisor s' \<noteq> None))"
proof (cases c)
  case Connect_flagged
  with op have s': "c' = Connect_ensured" "s' = ensure_supervisor s" by auto
  from inv(1) show ?thesis
  proof (cases rule: ensure_supervisor_cases [consumes 1])
    case (kept h)
    with inv Connect_flagged s' show ?thesis by simp
  next
    case spawned
    with inv Connect_flagged s' ensure_supervisor_inv [OF inv(1)] show ?thesis by (simp add: live_def)
  qed
next
  case Disconnect_flagged
  with op have s': "c' = Disconnect_waiting" "s' = supervisor_abort s" by auto
  have "active (supervisor_abort s) = active s" "supervisor (supervisor_abort s) = None"
    by (simp_all add: supervisor_abort_def split: option.split)
  with inv Disconnect_flagged s' supervisor_abort_inv [OF inv(1)] show ?thesis by simp
qed (use inv op in auto)

lemma apart_step:
  assumes inv: "apart_inv t" and e: "\<forall>h. e \<noteq> Supervisor_turn h Watch_error"
    and calm: "undisturbed t e"
  shows "apart_inv (client_step K t e)"
proof (cases e)
  case (Client_op i)
  show ?thesis
  proof (cases "i < length (client_pcs t)")
    case True
    obtain c s where op: "client_op K (client_pcs t ! i) (raw t) = (c, s)" by fastforce
    from calm Client_op True have others: "\<not> midway (client_pcs t ! j)" if "j < length (client_pcs t)" "j \<noteq> i" for j
      using that by (simp add: undisturbed_def)
    then have all: "(\<forall>c \<in> set (client_pcs t). \<not> midway c) \<longleftrightarrow> \<not> midway (client_pcs t ! i)"
      using True by (metis in_set_conv_nth)
    have "\<forall>d \<in> set ((client_pcs t)[i := c]). midway d \<longrightarrow> d = c"
      using True others by (auto simp: in_set_conv_nth nth_list_update split: if_splits)
    moreover from this have "(\<forall>d \<in> set ((client_pcs t)[i := c]). \<not> midway d) \<longleftrightarrow> \<not> midway c"
      using set_update_memI [OF True, of c] by blast
    moreover have "supervisor_inv s \<and> (midway c \<longrightarrow> (active s \<longleftrightarrow> c = Connect_flagged)) \<and>
        (active s \<longrightarrow> (\<forall>h. supervisor s = Some h \<longrightarrow> live s h)) \<and> (\<not> midway c \<longrightarrow> (active s \<longleftrightarrow> supervisor s \<noteq> None))"
      using inv True all by (intro client_op_apart [OF _ _ _ _ op]) (auto simp: apart_inv_def)
    ultimately show ?thesis using True op Client_op by (auto simp: apart_inv_def)
  qed (use inv Client_op in simp)
next
  case (Client_answer i r)
  show ?thesis
  proof (cases "i < length (client_pcs t)")
    case True
    obtain c s where op: "client_answer K r (client_pcs t ! i) (raw t) = (c, s)" by fastforce
    have same: "midway c = midway (client_pcs t ! i)" "midway c \<Longrightarrow> c = client_pcs t ! i"
      "active s = active (raw t)" "supervisor s = supervisor (raw t)" "live s = live (raw t)"
      "supervisor_inv s = supervisor_inv (raw t)"
      using client_answer_frame [OF op] by auto
    have sub: "d \<in> set ((client_pcs t)[i := c]) \<Longrightarrow> midway d \<Longrightarrow> d \<in> set (client_pcs t)" for d
      using same True by (auto simp: in_set_conv_nth nth_list_update split: if_splits)
    have sup: "d \<in> set (client_pcs t) \<Longrightarrow> midway d \<Longrightarrow> d \<in> set ((client_pcs t)[i := c])" for d
      using same True by (metis in_set_conv_nth length_list_update nth_list_update)
    then have "(\<forall>d \<in> set ((client_pcs t)[i := c]). \<not> midway d) \<longleftrightarrow> (\<forall>d \<in> set (client_pcs t). \<not> midway d)"
      using sub by blast
    then show ?thesis
      using inv True op Client_answer same(3-) sub by (simp add: apart_inv_def)
  qed (use inv Client_answer in simp)
next
  case (Supervisor_turn h e')
  with e have "e' \<noteq> Watch_error" by auto
  with inv Supervisor_turn supervisor_step_inv [of "raw t" K h e'] supervisor_step_stays [of "raw t" e' _ K h]
  show ?thesis by (auto simp: apart_inv_def)
qed (use inv in \<open>auto simp: apart_inv_def\<close>)

lemma reach_apart_inv: "calls_reach True K m t \<Longrightarrow> apart_inv t"
proof (induction rule: calls_reach.induct)
  case (calls_start ep ps ct s)
  then show ?case by (auto simp: apart_inv_def dest: supervisor_inv_new)
next
  case (calls_step t e)
  then show ?case by (intro apart_step) auto
qed

text \<open>The delays a supervisor can be waiting for are the iterates of the backoff.\<close>

definition attempt_delay :: "duration \<Rightarrow> nat \<Rightarrow> duration" where
  "attempt_delay m n = ((\<lambda>d. next_reconnect_delay d m) ^^ n) INITIAL_RECONNECT_DELAY"

fun pc_delay :: "sup_pc \<Rightarrow> duration option" where
  "pc_delay (Sup_sleeping d) = Some d"
| "pc_delay (Sup_connecting d) = Some d"
| "pc_delay _ = None"

definition delay_inv :: "duration \<Rightarrow> 'k RawSocketClient \<Rightarrow> bool" where
  "delay_inv m s \<longleftrightarrow> max_reconnect_delay s = m \<and>
     (\<forall>t \<in> set (tasks s). \<forall>d. pc_delay (pc t) = Some d \<longrightarrow> d \<in> range (attempt_delay m))"

lemma attempt_delay_Suc: "next_reconnect_delay (attempt_delay m n) m = attempt_delay m (Suc n)"
  by (simp add: attempt_delay_def)

lemma attempt_delay_0: "INITIAL_RECONNECT_DELAY \<in> range (attempt_delay m)"
  by (rule range_eqI [of _ _ 0]) (simp add: attempt_delay_def)

lemma turn_delay:
  "pc_delay (fst (supervisor_turn act st m p e)) = Some d \<Longrightarrow>
   (\<forall>d. pc_delay p = Some d \<longrightarrow> d \<in> range (attempt_delay m)) \<Longrightarrow> d \<in> range (attempt_delay m)"
  by (induction act st m p e rule: supervisor_turn.induct)
    (auto simp: inner_loop_head_def attempt_delay_0 attempt_delay_Suc split: if_splits)

lemma delay_inv_step: "delay_inv m s \<Longrightarrow> delay_inv m (supervisor_step K h e s)"
  unfolding delay_inv_def all_set_conv_all_nth
  by (auto simp: supervisor_step_task dest: turn_delay split: if_splits)

lemma delay_inv_ensure: "delay_inv m s \<Longrightarrow> delay_inv m (ensure_supervisor s)"
  by (auto simp: delay_inv_def ensure_supervisor_def spawn_reconnect_supervisor_def Let_def)

lemma delay_inv_abort: "delay_inv m s \<Longrightarrow> delay_inv m (supervisor_abort s)"
  unfolding delay_inv_def all_set_conv_all_nth
  by (auto simp: supervisor_abort_def nth_update_self split: option.splits)

lemma delay_inv_frame [simp]:
  "delay_inv m (s\<lparr>client := k\<rparr>) = delay_inv m s"
  "delay_inv m (s\<lparr>active := b\<rparr>) = delay_inv m s"
  "delay_inv m (publish_state K s) = delay_inv m s"
  by (simp_all add: delay_inv_def publish_state_def)

lemma reach_delay_inv: "raw_client_reach K m s \<Longrightarrow> delay_inv m s"
proof (induction rule: raw_client_reach.induct)
  case (reach_new ep ps ct s)
  then show ?case by (auto simp: raw_client_new_def delay_inv_def split: sum.splits)
qed (simp_all add: delay_inv_step delay_inv_ensure delay_inv_abort)

subsection \<open>Retries\<close>

lemma supervisor_step_client [simp]: "client (supervisor_step K h e s) = client s"
  by (auto simp: supervisor_step_def Let_def split: prod.splits)

lemma supervisor_step_conn:
  "h < length (tasks s) \<Longrightarrow> e \<noteq> Cancelled \<Longrightarrow>
   conn_tx (supervisor_step K h e s) =
     unwrap_or (conn_tx s) (snd (supervisor_turn (active s) (pond_connection_state K (client s))
       (max_reconnect_delay s) (pc (tasks s ! h)) e))"
  by (auto simp: supervisor_step_def unwrap_or_def Let_def split: prod.splits)

text \<open>One attempt that fails: the sleep ends, \<open>client.connect()\<close> returns an error.\<close>

definition failed_attempt :: "('k, 'c) pond_client \<Rightarrow> nat \<Rightarrow> 'k RawSocketClient \<Rightarrow> 'k RawSocketClient" where
  "failed_attempt K h s = supervisor_step K h (Connect_done False) (supervisor_step K h Slept s)"

text \<open>Task \<open>h\<close> of an active, disconnected client sleeps for the delay \<open>d\<close>.\<close>

definition retrying :: "('k, 'c) pond_client \<Rightarrow> nat \<Rightarrow> duration \<Rightarrow> 'k RawSocketClient \<Rightarrow> bool" where
  "retrying K h d s \<longleftrightarrow> h < length (tasks s) \<and> active s \<and>
     pond_connection_state K (client s) = PondDisconnected \<and> conn_tx s = Disconnected \<and>
     pc (tasks s ! h) = Sup_sleeping d"

lemma failed_attempt_retrying:
  "retrying K h d s \<Longrightarrow> retrying K h (next_reconnect_delay d (max_reconnect_delay s)) (failed_attempt K h s)"
  by (simp add: retrying_def failed_attempt_def supervisor_step_task supervisor_step_conn inner_loop_head_def)

lemma failed_attempt_max [simp]: "max_reconnect_delay (failed_attempt K h s) = max_reconnect_delay s"
  by (simp add: failed_attempt_def)

lemma failed_attempts_retrying:
  assumes "retrying K h INITIAL_RECONNECT_DELAY s"
  shows "retrying K h (attempt_delay (max_reconnect_delay s) n) ((failed_attempt K h ^^ n) s) \<and>
    max_reconnect_delay ((failed_attempt K h ^^ n) s) = max_reconnect_delay s"
proof (induction n)
  case 0
  with assms show ?case by (simp add: attempt_delay_def)
next
  case (Suc n)
  then show ?case
    using failed_attempt_retrying [of K h "attempt_delay (max_reconnect_delay s) n" "(failed_attempt K h ^^ n) s"]
    by (simp add: attempt_delay_Suc)
qed

subsection \<open>A schedule of three calls\<close>

text \<open>
  A connect that has returned, then a disconnect and another connect at the same time; the
  connection ends up at \<open>k\<close>.
\<close>

definition race_events :: "'k \<Rightarrow> 'k client_event list" where
  "race_events k =
     [Connect_call, Client_op 0, Client_op 0, Client_op 0, Client_answer 0 (Ok ()),
      Disconnect_call, Client_op 1, Connect_call, Client_op 2, Client_op 2, Client_op 2, Client_op 1,
      Client_answer 1 (Ok ()), Connection_moved k, Client_answer 2 (Ok ())]"

lemma client_run_reach:
  assumes "calls_reach False K m t" and "\<forall>e \<in> set es. \<forall>h. e \<noteq> Supervisor_turn h Watch_error"
  shows "calls_reach False K m (client_run K es t)"
  using assms
proof (induction es arbitrary: t)
  case (Cons e es)
  then have "calls_reach False K m (client_step K t e)" by (intro calls_step) auto
  with Cons show ?case by (simp add: client_run_def)
qed (simp add: client_run_def)

subsection \<open>Mirror tasks\<close>

fun received :: "'a recv_wait \<Rightarrow> 'a option" where
  "received (Received x) = Some x"
| "received _ = None"

text \<open>The events received before the first receive error.\<close>

definition received_prefix :: "'a recv_wait list \<Rightarrow> 'a list" where
  "received_prefix rs = List.map_filter received (takeWhile (\<lambda>r. received r \<noteq> None) rs)"

lemma received_prefix_simps [simp]:
  "received_prefix [] = []"
  "received_prefix (Received x # rs) = x # received_prefix rs"
  "received_prefix (Lagged n # rs) = []"
  "received_prefix (Recv_closed # rs) = []"
  by (simp_all add: received_prefix_def List.map_filter_def)

lemma received_prefix_map [simp]: "received_prefix (map Received es) = es"
  by (induction es) simp_all

section \<open>Properties\<close>


text \<open>
  C36. A connect can slip into the window of a disconnect: the disconnect has stored its flag, the
  connect stores its own and finds a supervisor in the slot, and then the disconnect aborts that
  supervisor. Both calls return without error, the client is active, and nothing is left that
  would reconnect it: its slot is empty and its only supervisor was aborted.
\<close>

theorem connect_races_disconnect:
  assumes "raw_client_new K endpoint ps ct m = Ok s"
  shows "\<exists>t. calls_reach False K m t \<and>
    client_pcs t = [Connect_returned (Ok ()), Disconnect_returned, Connect_returned (Ok ())] \<and>
    active (raw t) \<and> client (raw t) = k \<and> supervisor (raw t) = None \<and>
    (\<forall>h < length (tasks (raw t)). aborted (tasks (raw t) ! h))"
proof -
  define t where "t = client_run K (race_events k) \<lparr>raw = s, client_pcs = []\<rparr>"
  have "calls_reach False K m t"
    unfolding t_def by (rule client_run_reach [OF calls_start [OF assms]]) (auto simp: race_events_def)
  moreover have "client_pcs t = [Connect_returned (Ok ()), Disconnect_returned, Connect_returned (Ok ())]"
    "active (raw t)" "client (raw t) = k" "supervisor (raw t) = None" "tasks (raw t) = [\<lparr>pc = Sup_watching, aborted = True\<rparr>]"
    using assms by (auto simp: t_def race_events_def client_run_def raw_client_new_def raw_connect_end_def
        ensure_supervisor_def spawn_reconnect_supervisor_def supervisor_abort_def publish_state_def is_finished_def
        split: sum.splits)
  ultimately show ?thesis by (intro exI [of _ t]) simp
qed

text \<open>
  Once the client is inactive no supervisor starts a connection attempt: a turn never
  moves a task into the attempt, whatever woke it up.
\<close>

theorem inactive_supervisor_never_connects:
  assumes "\<not> active s" and "i < length (tasks s)"
    and "pc (tasks (supervisor_step K h e s) ! i) = Sup_connecting d"
  shows "pc (tasks s ! i) = Sup_connecting d"
proof -
  have "i = h \<Longrightarrow> e \<noteq> Cancelled \<Longrightarrow> fst (supervisor_turn (active s) (pond_connection_state K (client s))
      (max_reconnect_delay s) (pc (tasks s ! i)) e) = Sup_connecting d"
    using assms(2,3) by (simp add: supervisor_step_task)
  then have "i = h \<Longrightarrow> e \<noteq> Cancelled \<Longrightarrow> ?thesis"
    using turn_connecting assms(1) by blast
  with assms(2,3) show ?thesis
    by (cases "i = h"; cases "e = Cancelled") (simp_all add: supervisor_step_task split: if_splits)
qed

text \<open>
  C26. Every delay a supervisor waits for is a term of one sequence: 200 ms first, then the
  double of the delay before, cut at the configured maximum. Hence no delay exceeds the
  larger of 200 ms and the maximum, for every reachable state of the client.
\<close>

theorem reconnect_delays:
  assumes "raw_client_reach K m s" and "m \<le> duration_max" and "t \<in> set (tasks s)"
    and "pc t = Sup_sleeping d"
  shows "\<exists>n. d = (if n = 0 then from_millis 200 else min m (from_millis 200 * 2 ^ n)) \<and>
             d \<le> max (from_millis 200) m"
proof -
  from reach_delay_inv [OF assms(1)] assms(3,4) obtain n where d: "d = attempt_delay m n"
    by (fastforce simp: delay_inv_def)
  show ?thesis
  proof (cases n)
    case 0
    with d show ?thesis by (auto simp: attempt_delay_def INITIAL_RECONNECT_DELAY_def intro: exI [of _ 0])
  next
    case (Suc k)
    with d have "d = min m (INITIAL_RECONNECT_DELAY * 2 ^ n)"
      using iterate_delay [OF assms(2)] by (simp add: attempt_delay_def)
    with Suc show ?thesis by (intro exI [of _ n]) (simp add: INITIAL_RECONNECT_DELAY_def)
  qed
qed

text \<open>
  C20. An active client that loses its connection comes back: its supervisor publishes the loss, retries
  as often as attempts fail, the attempt after \<open>n\<close> failures waiting for the \<open>n\<close>th delay of the
  backoff, and the first attempt that succeeds is published and ends the retries.
\<close>

theorem reconnect_retries:
  assumes "h < length (tasks s)" and "pc (tasks s ! h) = Sup_watching" and "active s"
    and "pond_connection_state K (client s) = PondDisconnected"
  shows "\<exists>waiting attempting.
    waiting = (failed_attempt K h ^^ n) (supervisor_step K h (Watch_changed PondDisconnected) s) \<and>
    pc (tasks waiting ! h) = Sup_sleeping (attempt_delay (max_reconnect_delay s) n) \<and>
    conn_tx waiting = Disconnected \<and>
    attempting = supervisor_step K h Slept waiting \<and>
    pc (tasks attempting ! h) = Sup_connecting (attempt_delay (max_reconnect_delay s) n) \<and>
    pc (tasks (supervisor_step K h (Connect_done True) (attempting\<lparr>client := k\<rparr>)) ! h) = Sup_watching \<and>
    conn_tx (supervisor_step K h (Connect_done True) (attempting\<lparr>client := k\<rparr>)) =
      map_connection_state (pond_connection_state K k)"
proof -
  let ?lost = "supervisor_step K h (Watch_changed PondDisconnected) s"
  have "retrying K h INITIAL_RECONNECT_DELAY ?lost"
    using assms by (simp add: retrying_def supervisor_step_task supervisor_step_conn inner_loop_head_def)
  from failed_attempts_retrying [OF this, of n] show ?thesis
    by (simp add: retrying_def supervisor_step_task supervisor_step_conn)
qed

text \<open>
  The backoff settles: from any positive delay up to the maximum the delay reaches the
  maximum after finitely many failed attempts and stays there.
\<close>

theorem reconnect_delay_settles:
  assumes "0 < d" and "d \<le> mx" and "mx \<le> duration_max"
  shows "\<exists>n. \<forall>k \<ge> n. ((\<lambda>d. next_reconnect_delay d mx) ^^ k) d = mx"
proof -
  from assms obtain n where "((\<lambda>d. next_reconnect_delay d mx) ^^ n) d = mx"
    using reconnect.reaches_bound [of d mx] by (auto simp: min_absorb1)
  then show ?thesis using reconnect.stays_settled [of n mx d] assms by (auto simp: min_absorb1)
qed

text \<open>
  The closed guard: on a channel that is closed or declined \<open>join\<close>, \<open>leave\<close> and
  \<open>send_message\<close> return \<open>ChannelClosed\<close> and make no call; in every other state they succeed
  with exactly the one call to the client.
\<close>

theorem channel_guard:
  "(pond_state P (channel ch) \<in> {PondClosed, PondDeclined} \<longrightarrow>
      raw_join P ch = (Err ChannelClosed, ch) \<and> raw_leave P ch = (Err ChannelClosed, ch) \<and>
      raw_send_message P e p ch = (Err ChannelClosed, ch)) \<and>
   (pond_state P (channel ch) \<notin> {PondClosed, PondDeclined} \<longrightarrow>
      raw_join P ch = (Ok (), ch\<lparr>channel := pond_join P (channel ch)\<rparr>) \<and>
      raw_leave P ch = (Ok (), ch\<lparr>channel := pond_leave P (channel ch)\<rparr>) \<and>
      raw_send_message P e p ch = (Ok (), ch\<lparr>channel := pond_send_message P e (Some p) (channel ch)\<rparr>))"
  by (simp add: raw_join_def raw_leave_def raw_send_message_def closed_error_eq)

text \<open>
  The message mirror broadcasts exactly the messages received before the first receive
  error, in order, and drops presence events.
\<close>

theorem mirror_message_loop_broadcasts:
  "message_tx (mirror_message_loop rs ch) =
     message_tx ch @ List.map_filter map_channel_event (received_prefix rs)"
  by (induction rs ch rule: mirror_message_loop.induct)
    (auto simp: map_filter_filter split: option.splits)

text \<open>
  The published channel state is always the image of the last state the mirror saw;
  in particular a stalled channel shows as joining and never as joined.
\<close>

theorem mirror_state_loop_publishes:
  "state_tx (mirror_state_loop ps (map Changed qs) ch) = map_channel_state (last (ps # qs)) \<and>
   (map_channel_state q = Joined \<longleftrightarrow> q = PondJoined)"
proof -
  have "state_tx (mirror_state_loop ps (map Changed qs) ch) = map_channel_state (last (ps # qs))"
    by (induction qs arbitrary: ps ch) (simp_all add: mirror_state_def)
  moreover have "map_channel_state q = Joined \<longleftrightarrow> q = PondJoined"
    by (cases q) simp_all
  ultimately show ?thesis by simp
qed

section \<open>Witnesses\<close>

text \<open>
  A client that never gets a connection: its connection value is its state, connecting
  fails.
\<close>

definition offline_client :: "(PondConnectionState, unit) pond_client" where
  "offline_client =
     \<lparr>pond_with_options = (\<lambda>_ _ _. Ok PondDisconnected), pond_connection_state = (\<lambda>k. k),
      pond_connect = (\<lambda>k. (Err ClientNotConnected, k)), pond_disconnect = (\<lambda>_. PondDisconnected),
      pond_create_channel = (\<lambda>_ _ k. ((), k))\<rparr>"

definition offline_start :: "PondConnectionState RawSocketClient" where
  "offline_start =
     \<lparr>client = PondDisconnected, conn_tx = Disconnected, active = False, supervisor = None,
      tasks = [], max_reconnect_delay = from_secs 30\<rparr>"

definition offline_retrying :: "PondConnectionState RawSocketClient" where
  "offline_retrying =
     supervisor_step offline_client 0 (Connect_done False)
       (supervisor_step offline_client 0 Slept
         (supervisor_step offline_client 0 (Watch_changed PondDisconnected)
           (publish_state offline_client (ensure_supervisor (offline_start\<lparr>active := True\<rparr>)))))"

lemma offline_start_reach: "raw_client_reach offline_client (from_secs 30) offline_start"
  by (rule reach_new [of _ "[]" fmempty 0])
    (simp add: raw_client_new_def offline_client_def offline_start_def)

lemma offline_retrying_reach: "raw_client_reach offline_client (from_secs 30) offline_retrying"
  unfolding offline_retrying_def
  by (intro reach_supervisor reach_publish reach_ensure reach_active offline_start_reach) simp_all

lemma offline_retrying_eq:
  "offline_retrying =
     \<lparr>client = PondDisconnected, conn_tx = Disconnected, active = True, supervisor = Some 0,
      tasks = [\<lparr>pc = Sup_sleeping (from_millis 400), aborted = False\<rparr>],
      max_reconnect_delay = from_secs 30\<rparr>"
  by (simp add: offline_retrying_def supervisor_step_def ensure_supervisor_def
      spawn_reconnect_supervisor_def publish_state_def raw_state_def offline_start_def offline_client_def
      inner_loop_head_def next_reconnect_delay_def saturating_mul_def duration_max_def
      INITIAL_RECONNECT_DELAY_def from_millis_def from_secs_def)

definition offline_calls :: "PondConnectionState client_calls" where
  "offline_calls = client_step offline_client (client_step offline_client (client_step offline_client
     \<lparr>raw = offline_start, client_pcs = []\<rparr> Connect_call) (Client_op 0)) (Client_op 0)"

lemma offline_calls_reach: "calls_reach True offline_client (from_secs 30) offline_calls"
proof -
  have "raw_client_new offline_client [] fmempty 0 (from_secs 30) = Ok offline_start"
    by (simp add: raw_client_new_def offline_client_def offline_start_def)
  then show ?thesis
    unfolding offline_calls_def by (intro calls_step calls_start) (auto simp: undisturbed_def)
qed


lemma connect_races_disconnect_witness:
  "\<exists>t. calls_reach False offline_client (from_secs 30) t \<and> active (raw t) \<and> client (raw t) = PondConnected \<and>
     supervisor (raw t) = None"
proof -
  have "raw_client_new offline_client [] fmempty 0 (from_secs 30) = Ok offline_start"
    by (simp add: raw_client_new_def offline_client_def offline_start_def)
  from connect_races_disconnect [OF this, of PondConnected] show ?thesis by blast
qed

definition offline_inactive :: "PondConnectionState RawSocketClient" where
  "offline_inactive =
     \<lparr>client = PondDisconnected, conn_tx = Disconnected, active = False, supervisor = None,
      tasks = [\<lparr>pc = Sup_connecting 5, aborted = True\<rparr>], max_reconnect_delay = 10\<rparr>"

lemma inactive_supervisor_never_connects_witness: "pc (tasks offline_inactive ! 0) = Sup_connecting 5"
proof (rule inactive_supervisor_never_connects [where K = offline_client and h = 0 and e = Slept])
  show "\<not> active offline_inactive" and "0 < length (tasks offline_inactive)"
    by (simp_all add: offline_inactive_def)
  show "pc (tasks (supervisor_step offline_client 0 Slept offline_inactive) ! 0) = Sup_connecting 5"
    by (simp add: offline_inactive_def supervisor_step_def)
qed

lemma reconnect_delays_witness: "from_millis 400 \<le> max (from_millis 200) (from_secs 30)"
proof -
  have "\<exists>n. from_millis 400 = (if n = 0 then from_millis 200 else min (from_secs 30) (from_millis 200 * 2 ^ n)) \<and>
      from_millis 400 \<le> max (from_millis 200) (from_secs 30)"
    by (rule reconnect_delays [OF offline_retrying_reach, of "hd (tasks offline_retrying)"])
      (simp_all add: offline_retrying_eq duration_max_def from_secs_def)
  then show ?thesis by blast
qed

lemma reconnect_delay_settles_witness:
  "\<exists>n. \<forall>k \<ge> n. ((\<lambda>d. next_reconnect_delay d (from_secs 5)) ^^ k) (from_millis 200) = from_secs 5"
  by (rule reconnect_delay_settles) (simp_all add: from_millis_def from_secs_def duration_max_def)

text \<open>A channel whose value is its state; leaving closes it.\<close>

definition state_channel :: "PondChannelState pond_channel" where
  "state_channel =
     \<lparr>pond_name = (\<lambda>_. ''/rtc/test''), pond_state = (\<lambda>c. c), pond_join = (\<lambda>_. PondJoining),
      pond_leave = (\<lambda>_. PondClosed), pond_send_message = (\<lambda>_ _ c. c),
      pond_decline_reason = (\<lambda>_. None)\<rparr>"

lemma channel_guard_witness:
  "raw_join state_channel (raw_channel_new state_channel PondClosed) =
     (Err ChannelClosed, raw_channel_new state_channel PondClosed) \<and>
   fst (raw_leave state_channel (raw_channel_new state_channel PondJoined)) = Ok ()"
  using channel_guard [of state_channel "raw_channel_new state_channel PondClosed"]
    channel_guard [of state_channel "raw_channel_new state_channel PondJoined"]
  by (simp add: raw_channel_new_def state_channel_def)

lemma reconnect_retries_witness:
  "pc (tasks (supervisor_step offline_client 0 Slept ((failed_attempt offline_client 0 ^^ 2)
     (supervisor_step offline_client 0 (Watch_changed PondDisconnected) (raw offline_calls)))) ! 0) =
     Sup_connecting (attempt_delay (from_secs 30) 2)"
proof -
  let ?s = "raw offline_calls"
  have "0 < length (tasks ?s)" "pc (tasks ?s ! 0) = Sup_watching" "active ?s"
    "pond_connection_state offline_client (client ?s) = PondDisconnected" "max_reconnect_delay ?s = from_secs 30"
    by (simp_all add: offline_calls_def offline_start_def offline_client_def
        ensure_supervisor_def spawn_reconnect_supervisor_def Let_def)
  then show ?thesis using reconnect_retries [of 0 ?s offline_client 2] by simp
qed

end
