(* ===== verification/Vox_Session.thy ===== *)
theory Vox_Session
  imports Vox_Socket
begin

text \<open>
  The control session, \<open>src/rust/rtcserver/src/session.rs\<close>: joining the channel, the commands
  an application sends (signalling, configuration, the response commands with their generation
  identifiers), the acknowledged start of a response, and the receive loops of the listeners.
  The typed events the listeners decode are in the theory \<open>Vox_Events\<close>.

  A command takes the session and returns its result and the session after it. The
  identifier \<open>Uuid::new_v4()\<close> draws is an argument (\<open>uuid\<close>), and so is the printing of a
  JSON value (\<open>to_string\<close>). What a receiver or a watch delivers while a call waits is the
  list the call takes; its end is the expiry of the timeout around the loop.
\<close>

section \<open>State\<close>

record ResponseGeneration =
  counter :: u64
  current_id :: "string option"

record 'c VoxRtcControlSession =
  sess_channel :: "'c RawSocketChannel"
  sess_id :: string
  sess_channel_name :: string
  sess_join_timeout :: duration
  response_generation :: ResponseGeneration

definition control_session_new ::
  "'c RawSocketChannel \<Rightarrow> string \<Rightarrow> duration \<Rightarrow> 'c VoxRtcControlSession" where
  "control_session_new ch sid join_timeout =
     \<lparr>sess_channel = ch, sess_id = sid, sess_channel_name = ''/rtc/'' @ sid,
      sess_join_timeout = join_timeout,
      response_generation = \<lparr>counter = 0, current_id = None\<rparr>\<rparr>"

section \<open>Joining\<close>

fun first_text :: "EventData \<Rightarrow> string list \<Rightarrow> string option" where
  "first_text m [] = None"
| "first_text m (key # keys) =
     (case Option.bind (get m key) as_str of
        Some v \<Rightarrow> if v \<noteq> [] then Some v else first_text m keys
      | None \<Rightarrow> first_text m keys)"

definition join_decline_reason :: "(Value \<Rightarrow> string) \<Rightarrow> EventData option \<Rightarrow> string option" where
  "join_decline_reason to_string reason =
     (case reason of
        None \<Rightarrow> None
      | Some m \<Rightarrow>
          (case first_text m [''message'', ''reason'', ''error''] of
             Some v \<Rightarrow> Some v
           | None \<Rightarrow> if m = fmempty then None else Some (to_string (Object m))))"

text \<open>\<open>format!("{state:?}")\<close>\<close>

fun debug_channel_state :: "ChannelState \<Rightarrow> string" where
  "debug_channel_state Idle = ''Idle''"
| "debug_channel_state Joining = ''Joining''"
| "debug_channel_state Joined = ''Joined''"
| "debug_channel_state Closed = ''Closed''"
| "debug_channel_state Declined = ''Declined''"

text \<open>
  The loop inside the timeout: \<open>st\<close> is the state just read, \<open>reason\<close> the decline reason the
  channel reports when the loop asks for it.
\<close>

fun join_loop ::
  "string \<Rightarrow> string \<Rightarrow> string option \<Rightarrow> ChannelState \<Rightarrow> ChannelState watch_wait list \<Rightarrow> unit Result" where
  "join_loop own name reason st ws =
     (if st = Joined then Ok ()
      else if st = Closed \<or> st = Declined then Err (JoinFailed name (debug_channel_state st) reason)
      else case ws of
             [] \<Rightarrow> Err (JoinTimeout own)
           | Changed st' # ws' \<Rightarrow> join_loop own name reason st' ws'
           | Sender_dropped # _ \<Rightarrow> Err DisconnectedError
           | Deadline # _ \<Rightarrow> Err (JoinTimeout own))"

declare join_loop.simps [simp del]

definition session_join ::
  "'c pond_channel \<Rightarrow> (Value \<Rightarrow> string) \<Rightarrow> EventData option \<Rightarrow> ChannelState \<Rightarrow> ChannelState watch_wait list
     \<Rightarrow> 'c VoxRtcControlSession \<Rightarrow> unit Result \<times> 'c VoxRtcControlSession" where
  "session_join P to_string declined st ws self =
     (case raw_join P (sess_channel self) of
        (Inl e, ch) \<Rightarrow> (Err e, self\<lparr>sess_channel := ch\<rparr>)
      | (Inr _, ch) \<Rightarrow>
          (join_loop (sess_channel_name self) (raw_name P ch) (join_decline_reason to_string declined) st ws,
           self\<lparr>sess_channel := ch\<rparr>))"

definition session_close ::
  "'c pond_channel \<Rightarrow> 'c VoxRtcControlSession \<Rightarrow> unit Result \<times> 'c VoxRtcControlSession" where
  "session_close P self =
     (let (r, ch) = raw_leave P (sess_channel self) in (r, self\<lparr>sess_channel := ch\<rparr>))"

section \<open>Payloads\<close>

definition insert_opt :: "string \<Rightarrow> string option \<Rightarrow> EventData \<Rightarrow> EventData" where
  "insert_opt key v m = (case v of Some s \<Rightarrow> put key (String s) m | None \<Rightarrow> m)"

definition session_config_payload :: "SessionConfig \<Rightarrow> EventData" where
  "session_config_payload config =
     (let s1 = insert_opt ''stt_model'' (stt_model config) (extra config);
          s2 = insert_opt ''tts_model'' (tts_model config) s1;
          s3 = insert_opt ''voice'' (cfg_voice config) s2;
          s4 = insert_opt ''turn_profile'' (turn_profile config) s3;
          s5 = insert_opt ''vad_backend'' (vad_backend config) s4;
          s6 = insert_opt ''turn_detector'' (cfg_turn_detector config) s5
      in case cfg_speech_context config of
           Some enabled \<Rightarrow> put ''speech_context'' (Bool enabled) s6
         | None \<Rightarrow> s6)"

definition response_output_options_payload :: "ResponseOutputOptions \<Rightarrow> EventData" where
  "response_output_options_payload out =
     (let p1 = insert_opt ''model'' (opt_model out) fmempty;
          p2 = insert_opt ''voice'' (opt_voice out) p1;
          p3 = insert_opt ''language'' (opt_language out) p2;
          p4 = (case Option.bind (opt_speed out) number_from_f64 of
                  Some n \<Rightarrow> put ''speed'' (Number n) p3
                | None \<Rightarrow> p3)
      in case opt_params out of
           Some ps \<Rightarrow> put ''params'' (Object ps) p4
         | None \<Rightarrow> p4)"

definition response_options_payload :: "ResponseOptions option \<Rightarrow> EventData" where
  "response_options_payload options =
     (case options of
        None \<Rightarrow> fmempty
      | Some o1 \<Rightarrow>
          (let p1 = (case allow_interruptions o1 of
                       Some allow \<Rightarrow> put ''allow_interruptions'' (Bool allow) fmempty
                     | None \<Rightarrow> fmempty);
               p2 = insert_opt ''supersedes_generation_id'' (opt_supersedes_generation_id o1) p1
           in case opt_output o1 of
                Some out \<Rightarrow> put ''output'' (Object (response_output_options_payload out)) p2
              | None \<Rightarrow> p2))"

definition explicit_generation :: "ResponseOptions option \<Rightarrow> string option" where
  "explicit_generation options = opt_filter (\<lambda>i. i \<noteq> []) (Option.bind options opt_generation_id)"

section \<open>Generations\<close>

text \<open>\<open>format!("generation_{}_{}", state.counter, Uuid::new_v4())\<close>\<close>

definition format_generation :: "u64 \<Rightarrow> string \<Rightarrow> string" where
  "format_generation n uuid = ''generation_'' @ show_nat (unat n) @ ''_'' @ uuid"

definition next_response_generation ::
  "string \<Rightarrow> 'c VoxRtcControlSession \<Rightarrow> string \<times> 'c VoxRtcControlSession" where
  "next_response_generation uuid self =
     (let n = counter (response_generation self) + 1;
          g = format_generation n uuid
      in (g, self\<lparr>response_generation := \<lparr>counter = n, current_id = Some g\<rparr>\<rparr>))"

definition set_response_generation ::
  "string \<Rightarrow> 'c VoxRtcControlSession \<Rightarrow> string \<times> 'c VoxRtcControlSession" where
  "set_response_generation g self =
     (let n = counter (response_generation self) + 1
      in (g, self\<lparr>response_generation := \<lparr>counter = n, current_id = Some g\<rparr>\<rparr>))"

definition add_response_generation :: "'c VoxRtcControlSession \<Rightarrow> EventData \<Rightarrow> EventData" where
  "add_response_generation self payload =
     (case current_id (response_generation self) of
        Some g \<Rightarrow> put ''generation_id'' (String g) payload
      | None \<Rightarrow> payload)"

definition thread_generation :: "'c VoxRtcControlSession \<Rightarrow> EventData \<Rightarrow> string option \<Rightarrow> EventData" where
  "thread_generation self payload explicit =
     (case explicit of
        Some g \<Rightarrow> put ''generation_id'' (String g) payload
      | None \<Rightarrow> add_response_generation self payload)"

definition clear_response_generation :: "'c VoxRtcControlSession \<Rightarrow> 'c VoxRtcControlSession" where
  "clear_response_generation self =
     self\<lparr>response_generation := (response_generation self)\<lparr>current_id := None\<rparr>\<rparr>"

definition start_payload ::
  "string \<Rightarrow> ResponseOptions option \<Rightarrow> 'c VoxRtcControlSession
     \<Rightarrow> string \<times> EventData \<times> 'c VoxRtcControlSession" where
  "start_payload uuid options self =
     (let payload = response_options_payload options;
          (g, self') = (case explicit_generation options of
                          Some i \<Rightarrow> set_response_generation i self
                        | None \<Rightarrow> next_response_generation uuid self)
      in (g, put ''generation_id'' (String g) payload, self'))"

section \<open>Commands\<close>

definition send_control ::
  "'c pond_channel \<Rightarrow> string \<Rightarrow> EventData \<Rightarrow> 'c VoxRtcControlSession
     \<Rightarrow> unit Result \<times> 'c VoxRtcControlSession" where
  "send_control P event payload self =
     (let (r, ch) = raw_send_message P event payload (sess_channel self)
      in (r, self\<lparr>sess_channel := ch\<rparr>))"

definition generation_payload :: "u64 option \<Rightarrow> EventData \<Rightarrow> EventData" where
  "generation_payload generation payload =
     (case generation of
        Some g \<Rightarrow> put ''generation'' (Number (PosInt g)) payload
      | None \<Rightarrow> payload)"

definition send_offer ::
  "'c pond_channel \<Rightarrow> Value \<Rightarrow> bool \<Rightarrow> u64 option \<Rightarrow> 'c VoxRtcControlSession
     \<Rightarrow> unit Result \<times> 'c VoxRtcControlSession" where
  "send_offer P offer restart generation self =
     send_control P ''rtc.offer''
       (generation_payload generation (put ''restart'' (Bool restart) (put ''offer'' offer fmempty))) self"

definition send_ice_candidate ::
  "'c pond_channel \<Rightarrow> Value option \<Rightarrow> u64 option \<Rightarrow> 'c VoxRtcControlSession
     \<Rightarrow> unit Result \<times> 'c VoxRtcControlSession" where
  "send_ice_candidate P candidate generation self =
     send_control P ''rtc.ice_candidate''
       (generation_payload generation (put ''candidate'' (unwrap_or Null candidate) fmempty)) self"

definition close_rtc ::
  "'c pond_channel \<Rightarrow> string \<Rightarrow> 'c VoxRtcControlSession \<Rightarrow> unit Result \<times> 'c VoxRtcControlSession" where
  "close_rtc P reason self = send_control P ''rtc.close'' (put ''reason'' (String reason) fmempty) self"

definition configure ::
  "'c pond_channel \<Rightarrow> SessionConfig \<Rightarrow> 'c VoxRtcControlSession \<Rightarrow> unit Result \<times> 'c VoxRtcControlSession" where
  "configure P config self =
     send_control P ''session.update'' (put ''session'' (Object (session_config_payload config)) fmempty) self"

definition start_response ::
  "'c pond_channel \<Rightarrow> string \<Rightarrow> ResponseOptions option \<Rightarrow> 'c VoxRtcControlSession
     \<Rightarrow> unit Result \<times> 'c VoxRtcControlSession" where
  "start_response P uuid options self =
     (let (_, payload, self') = start_payload uuid options self
      in send_control P ''response.start'' payload self')"

definition append_response_text ::
  "'c pond_channel \<Rightarrow> string \<Rightarrow> ResponseOptions option \<Rightarrow> 'c VoxRtcControlSession
     \<Rightarrow> unit Result \<times> 'c VoxRtcControlSession" where
  "append_response_text P delta_text options self =
     send_control P ''response.delta''
       (thread_generation self
          (put ''delta'' (String delta_text) (response_options_payload options))
          (explicit_generation options)) self"

definition commit_response ::
  "'c pond_channel \<Rightarrow> ResponseOptions option \<Rightarrow> 'c VoxRtcControlSession
     \<Rightarrow> unit Result \<times> 'c VoxRtcControlSession" where
  "commit_response P options self =
     send_control P ''response.commit''
       (thread_generation self fmempty (explicit_generation options)) self"

definition cancel_response ::
  "'c pond_channel \<Rightarrow> ResponseOptions option \<Rightarrow> 'c VoxRtcControlSession
     \<Rightarrow> unit Result \<times> 'c VoxRtcControlSession" where
  "cancel_response P options self =
     (let payload = thread_generation self fmempty (explicit_generation options)
      in send_control P ''response.cancel'' payload (clear_response_generation self))"

definition replace_response_text ::
  "'c pond_channel \<Rightarrow> string \<Rightarrow> ResponseOptions option \<Rightarrow> 'c VoxRtcControlSession
     \<Rightarrow> unit Result \<times> 'c VoxRtcControlSession" where
  "replace_response_text P txt options self =
     (let self' = clear_response_generation self;
          p1 = put ''text'' (String txt) (response_options_payload options);
          p2 = (case explicit_generation options of
                  Some g \<Rightarrow> put ''generation_id'' (String g) p1
                | None \<Rightarrow> p1)
      in send_control P ''response.replace_text'' p2 self')"

definition send_text_response ::
  "'c pond_channel \<Rightarrow> string \<Rightarrow> string \<Rightarrow> ResponseOptions option \<Rightarrow> bool \<Rightarrow> 'c VoxRtcControlSession
     \<Rightarrow> unit Result \<times> 'c VoxRtcControlSession" where
  "send_text_response P uuid txt options cancel_first self =
     (if cancel_first then replace_response_text P txt options self
      else case start_response P uuid options self of
             (Inl e, self1) \<Rightarrow> (Err e, self1)
           | (Inr _, self1) \<Rightarrow>
               (case append_response_text P txt options self1 of
                  (Inl e, self2) \<Rightarrow> (Err e, self2)
                | (Inr _, self2) \<Rightarrow> commit_response P options self2))"

definition send_client_event ::
  "'c pond_channel \<Rightarrow> ClientEventEnvelope \<Rightarrow> 'c VoxRtcControlSession
     \<Rightarrow> unit Result \<times> 'c VoxRtcControlSession" where
  "send_client_event P envelope self =
     send_control P EVENT_CLIENT_EVENT
       (put ''payload'' (env_payload envelope) (put ''event'' (String (env_event envelope)) fmempty)) self"

section \<open>Receiving\<close>

datatype ('b, 'a) ControlFlow = Break 'b | Continue 'a

fun next_message ::
  "(string \<times> EventData) recv_wait \<Rightarrow> (unit, (string \<times> EventData) option) ControlFlow" where
  "next_message (Received message) = Continue (Some message)"
| "next_message (Lagged _) = Continue None"
| "next_message Recv_closed = Break ()"

text \<open>
  The tasks of \<open>on_event\<close> and \<open>on\<close>: the values handed to the handler, in order. Dropping
  the listener aborts its task, which then has seen a shorter list.
\<close>

fun on_event_loop :: "string \<Rightarrow> string \<Rightarrow> (string \<times> EventData) recv_wait list \<Rightarrow> WireEvent list" where
  "on_event_loop sid cn [] = []"
| "on_event_loop sid cn (r # rs) =
     (case next_message r of
        Break _ \<Rightarrow> []
      | Continue None \<Rightarrow> on_event_loop sid cn rs
      | Continue (Some (event, payload)) \<Rightarrow>
          \<lparr>session_id = sid, channel_name = cn, data = payload, wire_type = event\<rparr>
            # on_event_loop sid cn rs)"

definition on_event :: "'c VoxRtcControlSession \<Rightarrow> (string \<times> EventData) recv_wait list \<Rightarrow> WireEvent list" where
  "on_event self rs = on_event_loop (sess_id self) (sess_channel_name self) rs"

fun on_loop :: "string \<Rightarrow> (EventData \<Rightarrow> 'h) \<Rightarrow> (string \<times> EventData) recv_wait list \<Rightarrow> 'h list" where
  "on_loop event_name handler [] = []"
| "on_loop event_name handler (r # rs) =
     (case next_message r of
        Break _ \<Rightarrow> []
      | Continue None \<Rightarrow> on_loop event_name handler rs
      | Continue (Some (event, payload)) \<Rightarrow>
          (if event = event_name then handler payload # on_loop event_name handler rs
           else on_loop event_name handler rs))"

text \<open>
  \<open>Listener\<close> and its \<open>Drop\<close>: dropping it aborts the task, so the task has seen the first
  \<open>n\<close> of what it would have received.
\<close>

definition until_dropped :: "nat \<Rightarrow> 'a recv_wait list \<Rightarrow> 'a recv_wait list" where
  "until_dropped n rs = take n rs"

section \<open>Acknowledged start\<close>

definition response_output :: "EventData \<Rightarrow> ResponseOutput option" where
  "response_output payload =
     Option.bind (Option.bind (get payload ''output'') as_object) (\<lambda>out.
     Option.bind (optional_nonempty_string out ''model'') (\<lambda>mdl.
     Option.bind (optional_nonempty_string out ''language'') (\<lambda>lang.
     Option.bind (optional_number out ''speed'') (\<lambda>spd.
     Option.bind (Option.bind (get out ''params'') as_object) (\<lambda>ps.
       Some \<lparr>model = mdl, out_voice = optional_nonempty_string out ''voice'', out_language = lang,
             speed = spd, params = ps\<rparr>)))))"

fun ack_loop :: "string \<Rightarrow> (string \<times> EventData) recv_wait list \<Rightarrow> StartAck Result" where
  "ack_loop g [] = Err (Timeout ''response.start acknowledgement'')"
| "ack_loop g (r # rs) =
     (case next_message r of
        Break _ \<Rightarrow> Err ChannelClosed
      | Continue None \<Rightarrow> ack_loop g rs
      | Continue (Some (event, m)) \<Rightarrow>
          (if optional_nonempty_string m ''generation_id'' \<noteq> Some g then ack_loop g rs
           else if event = EVENT_RESPONSE_CREATED then
             Ok \<lparr>accepted = True, ack_generation_id = g,
                 ack_response_id = optional_string m ''response_id'', ack_output = response_output m,
                 error_code = None, error_message = None, recoverable = True\<rparr>
           else if event = EVENT_ERROR then
             Ok \<lparr>accepted = False, ack_generation_id = g,
                 ack_response_id = optional_string m ''response_id'', ack_output = None,
                 error_code = optional_nonempty_string m ''code'',
                 error_message = optional_string m ''message'', recoverable = recoverable_flag m\<rparr>
           else ack_loop g rs))"

definition start_response_and_wait ::
  "'c pond_channel \<Rightarrow> string \<Rightarrow> ResponseOptions option \<Rightarrow> (string \<times> EventData) recv_wait list
     \<Rightarrow> 'c VoxRtcControlSession \<Rightarrow> StartAck Result \<times> 'c VoxRtcControlSession" where
  "start_response_and_wait P uuid options rs self =
     (let (g, payload, self1) = start_payload uuid options self
      in case send_control P ''response.start'' payload self1 of
           (Inl e, self2) \<Rightarrow> (Err e, self2)
         | (Inr _, self2) \<Rightarrow> (ack_loop g rs, self2))"

definition supersede_response_and_wait ::
  "'c pond_channel \<Rightarrow> string \<Rightarrow> string \<Rightarrow> ResponseOptions option \<Rightarrow> (string \<times> EventData) recv_wait list
     \<Rightarrow> 'c VoxRtcControlSession \<Rightarrow> StartAck Result \<times> 'c VoxRtcControlSession" where
  "supersede_response_and_wait P uuid superseded options rs self =
     (let o1 = unwrap_or default_response_options options;
          o2 = o1\<lparr>opt_supersedes_generation_id := Some superseded\<rparr>
      in start_response_and_wait P uuid (Some o2) rs self)"

section \<open>Lemmas\<close>

lemma get_insert_opt [simp]:
  "get (insert_opt k v m) k' =
     (if k = k' then (case v of Some s \<Rightarrow> Some (String s) | None \<Rightarrow> get m k') else get m k')"
  by (simp add: insert_opt_def split: option.splits)

lemma send_control_eq:
  "send_control P e p self =
     (fst (raw_send_message P e p (sess_channel self)),
      self\<lparr>sess_channel := snd (raw_send_message P e p (sess_channel self))\<rparr>)"
  by (simp add: send_control_def split: prod.splits)

lemma send_control_closed:
  "closed_error P (sess_channel self) \<noteq> None \<Longrightarrow> send_control P e p self = (Err ChannelClosed, self)"
  by (simp add: send_control_eq raw_channel.send_closed)

lemma send_control_open:
  "closed_error P (sess_channel self) = None \<Longrightarrow>
   send_control P e p self =
     (Ok (), self\<lparr>sess_channel := (sess_channel self)\<lparr>channel :=
        pond_send_message P e (Some p) (channel (sess_channel self))\<rparr>\<rparr>)"
  by (simp add: send_control_eq)

lemma send_control_generation [simp]:
  "response_generation (snd (send_control P e p self)) = response_generation self"
  by (simp add: send_control_eq)

lemma options_payload_no_generation [simp]: "get (response_options_payload options) ''generation_id'' = None"
  by (auto simp: response_options_payload_def Let_def split: option.splits)

text \<open>The generation a start settles on, and the session that tracks it.\<close>

definition started_generation :: "string \<Rightarrow> ResponseOptions option \<Rightarrow> 'c VoxRtcControlSession \<Rightarrow> string" where
  "started_generation uuid options self =
     unwrap_or (format_generation (counter (response_generation self) + 1) uuid) (explicit_generation options)"

lemma start_payload_eq:
  "start_payload uuid options self =
     (started_generation uuid options self,
      put ''generation_id'' (String (started_generation uuid options self)) (response_options_payload options),
      self\<lparr>response_generation :=
        \<lparr>counter = counter (response_generation self) + 1,
         current_id = Some (started_generation uuid options self)\<rparr>\<rparr>)"
  by (simp add: start_payload_def started_generation_def set_response_generation_def
      next_response_generation_def Let_def split: option.splits)

subsection \<open>Generation identifiers\<close>

lemma format_generation_inject: "format_generation n u = format_generation m v \<longleftrightarrow> n = m \<and> u = v"
proof
  assume "format_generation n u = format_generation m v"
  then have "show_nat (unat n) @ CHR ''_'' # u = show_nat (unat m) @ CHR ''_'' # v"
    by (simp add: format_generation_def)
  from append_sep_inject [OF underscore_notin_show_nat underscore_notin_show_nat this]
  show "n = m \<and> u = v" by (simp add: word_unat_eq_iff)
qed simp

lemma format_generation_nonempty: "format_generation n u \<noteq> []"
  by (simp add: format_generation_def)

text \<open>The changes a command can make to the generation, and the identifiers generated on the way.\<close>

datatype gen_op = Gen_next string | Gen_set string | Gen_clear

fun gen_ids :: "gen_op list \<Rightarrow> 'c VoxRtcControlSession \<Rightarrow> string list" where
  "gen_ids [] self = []"
| "gen_ids (Gen_next u # ops) self =
     (let (g, self') = next_response_generation u self in g # gen_ids ops self')"
| "gen_ids (Gen_set i # ops) self = gen_ids ops (snd (set_response_generation i self))"
| "gen_ids (Gen_clear # ops) self = gen_ids ops (clear_response_generation self)"

lemma gen_ids_range:
  "g \<in> set (gen_ids ops self) \<Longrightarrow>
   \<exists>j u. 0 < j \<and> j \<le> length ops \<and> g = format_generation (counter (response_generation self) + of_nat j) u"
proof (induction ops self rule: gen_ids.induct)
  case (2 u ops self)
  let ?n = "counter (response_generation self)"
  let ?next = "snd (next_response_generation u self)"
  have n: "counter (response_generation ?next) = ?n + 1"
    by (simp add: next_response_generation_def Let_def)
  from "2.prems" consider (now) "g = format_generation (?n + 1) u" | (later) "g \<in> set (gen_ids ops ?next)"
    by (auto simp: next_response_generation_def Let_def)
  then show ?case
  proof cases
    case now
    then show ?thesis by (intro exI [of _ 1] exI [of _ u]) simp
  next
    case later
    obtain j v where "0 < j" "j \<le> length ops" "g = format_generation (?n + 1 + of_nat j) v"
      using "2.IH" [OF refl prod.collapse later] n by auto
    then show ?thesis by (intro exI [of _ "Suc j"] exI [of _ v]) (simp add: add.assoc)
  qed
next
  case (3 i ops self)
  then obtain j v where "0 < j" "j \<le> length ops"
    "g = format_generation (counter (response_generation self) + 1 + of_nat j) v"
    by (auto simp: set_response_generation_def Let_def)
  then show ?case by (intro exI [of _ "Suc j"] exI [of _ v]) (simp add: add.assoc)
next
  case (4 ops self)
  then obtain j v where "0 < j" "j \<le> length ops"
    "g = format_generation (counter (response_generation self) + of_nat j) v"
    by (auto simp: clear_response_generation_def)
  then show ?case by (intro exI [of _ j] exI [of _ v]) simp
qed simp

lemma of_nat_u64_eq_0: "j < 2 ^ 64 \<Longrightarrow> (of_nat j :: u64) = 0 \<Longrightarrow> j = 0"
  using nat_dvd_not_less [of j "2 ^ 64"] by (auto simp: word_of_nat_eq_0_iff)

subsection \<open>Receive loops\<close>

text \<open>What a listener sees: the messages received before the channel closed; lags are skipped.\<close>

definition seen_messages :: "'a recv_wait list \<Rightarrow> 'a list" where
  "seen_messages rs = List.map_filter received (takeWhile (\<lambda>r. r \<noteq> Recv_closed) rs)"

lemma seen_messages_simps [simp]:
  "seen_messages [] = []"
  "seen_messages (Received x # rs) = x # seen_messages rs"
  "seen_messages (Lagged n # rs) = seen_messages rs"
  "seen_messages (Recv_closed # rs) = []"
  by (simp_all add: seen_messages_def List.map_filter_def)

lemma on_loop_seen:
  "on_loop n f rs = map (f \<circ> snd) (filter (\<lambda>m. fst m = n) (seen_messages rs))"
proof (induction rs)
  case (Cons r rs)
  then show ?case by (cases r) auto
qed simp

lemma on_event_loop_seen:
  "on_event_loop sid cn rs =
     map (\<lambda>(e, p). \<lparr>session_id = sid, channel_name = cn, data = p, wire_type = e\<rparr>) (seen_messages rs)"
proof (induction rs)
  case (Cons r rs)
  then show ?case by (cases r) auto
qed simp

lemma seen_messages_dropped: "prefix (seen_messages (until_dropped n rs)) (seen_messages rs)"
proof (induction rs arbitrary: n)
  case (Cons r rs)
  then show ?case
  proof (cases n)
    case (Suc k)
    with Cons [of k] show ?thesis by (cases r) (auto simp: until_dropped_def)
  qed (simp add: until_dropped_def)
qed (simp add: until_dropped_def)

text \<open>A message that decides the acknowledgement of generation \<open>g\<close>.\<close>

definition decides :: "string \<Rightarrow> string \<times> EventData \<Rightarrow> bool" where
  "decides g m \<longleftrightarrow> optional_nonempty_string (snd m) ''generation_id'' = Some g \<and>
     fst m \<in> {EVENT_RESPONSE_CREATED, EVENT_ERROR}"

fun undecided :: "string \<Rightarrow> (string \<times> EventData) recv_wait \<Rightarrow> bool" where
  "undecided g (Received m) = (\<not> decides g m)"
| "undecided g (Lagged n) = True"
| "undecided g Recv_closed = False"

lemma ack_loop_skip: "\<forall>r \<in> set rs. undecided g r \<Longrightarrow> ack_loop g (rs @ rs') = ack_loop g rs'"
proof (induction rs)
  case (Cons r rs)
  then show ?case by (cases r) (auto simp: decides_def)
qed simp

lemma ack_loop_decided:
  "decides g (e, m) \<Longrightarrow> ack_loop g (Received (e, m) # rs) =
     (if e = EVENT_RESPONSE_CREATED then
        Ok \<lparr>accepted = True, ack_generation_id = g,
            ack_response_id = optional_string m ''response_id'', ack_output = response_output m,
            error_code = None, error_message = None, recoverable = True\<rparr>
      else Ok \<lparr>accepted = False, ack_generation_id = g,
            ack_response_id = optional_string m ''response_id'', ack_output = None,
            error_code = optional_nonempty_string m ''code'',
            error_message = optional_string m ''message'', recoverable = recoverable_flag m\<rparr>)"
  by (auto simp: decides_def)

subsection \<open>Joining\<close>

lemma join_loop_simps:
  "join_loop own name reason Joined ws = Ok ()"
  "d \<in> {Closed, Declined} \<Longrightarrow>
     join_loop own name reason d ws = Err (JoinFailed name (debug_channel_state d) reason)"
  "st \<in> {Idle, Joining} \<Longrightarrow> join_loop own name reason st [] = Err (JoinTimeout own)"
  "st \<in> {Idle, Joining} \<Longrightarrow>
     join_loop own name reason st (Changed st' # ws) = join_loop own name reason st' ws"
  "st \<in> {Idle, Joining} \<Longrightarrow> join_loop own name reason st (Sender_dropped # ws) = Err DisconnectedError"
  by (auto simp: join_loop.simps)

lemma join_loop_pending:
  "st \<in> {Idle, Joining} \<Longrightarrow> set sts \<subseteq> {Idle, Joining} \<Longrightarrow>
   \<exists>st' \<in> {Idle, Joining}. \<forall>ws.
     join_loop own name reason st (map Changed sts @ ws) = join_loop own name reason st' ws"
proof (induction sts arbitrary: st)
  case Nil
  then show ?case by auto
next
  case (Cons s sts)
  then have "s \<in> {Idle, Joining}" "set sts \<subseteq> {Idle, Joining}" by auto
  with Cons.IH obtain st' where "st' \<in> {Idle, Joining}"
    "\<forall>ws. join_loop own name reason s (map Changed sts @ ws) = join_loop own name reason st' ws"
    by blast
  with Cons.prems(1) show ?case by (auto simp: join_loop_simps(4))
qed

subsection \<open>Text responses\<close>

lemma send_text_response_sends:
  "let g = started_generation uuid options self;
       with_g = put ''generation_id'' (String g);
       (r, ch) = send_seq (raw_send_message P)
         [(''response.start'', with_g (response_options_payload options)),
          (''response.delta'', with_g (put ''delta'' (String txt) (response_options_payload options))),
          (''response.commit'', with_g fmempty)] (sess_channel self)
   in send_text_response P uuid txt options False self =
        (r, self\<lparr>sess_channel := ch,
                 response_generation := \<lparr>counter = counter (response_generation self) + 1,
                                         current_id = Some g\<rparr>\<rparr>)"
proof -
  have "thread_generation (self\<lparr>response_generation := \<lparr>counter = n, current_id = Some g\<rparr>, sess_channel := ch\<rparr>)
      p (explicit_generation options) = put ''generation_id'' (String g) p"
    if "g = started_generation uuid options self" for n g ch p
    using that by (cases "explicit_generation options")
      (simp_all add: started_generation_def thread_generation_def add_response_generation_def)
  note thread = this [OF refl]
  let ?g = "put ''generation_id'' (String (started_generation uuid options self))"
  obtain r1 c1 where 1: "raw_send_message P ''response.start'' (?g (response_options_payload options))
      (sess_channel self) = (r1, c1)" by fastforce
  obtain r2 c2 where 2: "raw_send_message P ''response.delta''
      (?g (put ''delta'' (String txt) (response_options_payload options))) c1 = (r2, c2)" by fastforce
  obtain r3 c3 where 3: "raw_send_message P ''response.commit'' (?g fmempty) c2 = (r3, c3)" by fastforce
  show ?thesis
    by (cases r1; cases r2; cases r3)
      (simp_all add: send_text_response_def start_response_def append_response_text_def
        commit_response_def start_payload_eq send_control_eq thread Let_def 1 2 3)
qed

section \<open>Properties\<close>

text \<open>
  A text response without cancellation is exactly the chain start, delta, commit: the three
  messages are sent in this order until one fails, and all three carry the same generation
  identifier, which is the caller's or a generated one; the session tracks that identifier
  afterwards.
\<close>

theorem send_text_response_chain:
  "let g = started_generation uuid options self;
       with_g = put ''generation_id'' (String g);
       (r, ch) = send_seq (raw_send_message P)
         [(''response.start'', with_g (response_options_payload options)),
          (''response.delta'', with_g (put ''delta'' (String txt) (response_options_payload options))),
          (''response.commit'', with_g fmempty)] (sess_channel self)
   in send_text_response P uuid txt options False self =
        (r, self\<lparr>sess_channel := ch,
                 response_generation := \<lparr>counter = counter (response_generation self) + 1,
                                         current_id = Some g\<rparr>\<rparr>)"
  by (rule send_text_response_sends)

text \<open>
  Generated generation identifiers never repeat within a session: whatever mix of generated
  starts, explicit starts and clears happens, as long as there are at most \<open>2 ^ 64\<close> of them, the
  identifiers generated are pairwise different, even if the random part repeats.
\<close>

theorem generated_ids_distinct: "length ops \<le> 2 ^ 64 \<Longrightarrow> distinct (gen_ids ops self)"
proof (induction ops self rule: gen_ids.induct)
  case (2 u ops self)
  let ?n = "counter (response_generation self)"
  let ?rest = "gen_ids ops (snd (next_response_generation u self))"
  have "format_generation (?n + 1) u \<notin> set ?rest"
  proof
    assume "format_generation (?n + 1) u \<in> set ?rest"
    then obtain j v where j: "0 < j" "j \<le> length ops"
      "format_generation (?n + 1) u = format_generation (?n + 1 + of_nat j) v"
      using gen_ids_range [of "format_generation (?n + 1) u" ops "snd (next_response_generation u self)"]
      by (auto simp: next_response_generation_def Let_def)
    then have "(of_nat j :: u64) = 0" by (simp add: format_generation_inject)
    moreover from j "2.prems" have "j < 2 ^ 64" by simp
    ultimately show False using j(1) of_nat_u64_eq_0 by blast
  qed
  with 2 show ?case by (simp add: next_response_generation_def Let_def)
qed (auto simp: set_response_generation_def)

text \<open>
  C13. The wait for the acknowledgement of a start is decided by the first message that carries the
  started generation and is either \<open>response.created\<close> or \<open>error\<close>: messages of other
  generations, other events and lags before it are skipped, a created message accepts, an error
  message rejects with its code, and both name the started generation.
\<close>

theorem start_ack_first_match:
  assumes "\<forall>r \<in> set before. undecided g r" and "decides g (e, m)"
  shows "\<exists>ack. ack_loop g (before @ Received (e, m) # rest) = Ok ack \<and>
     ack_generation_id ack = g \<and> accepted ack = (e = EVENT_RESPONSE_CREATED) \<and>
     ack_response_id ack = optional_string m ''response_id'' \<and>
     (e = EVENT_RESPONSE_CREATED \<longrightarrow> ack_output ack = response_output m) \<and>
     (e = EVENT_ERROR \<longrightarrow> error_code ack = optional_nonempty_string m ''code'' \<and>
        error_message ack = optional_string m ''message'' \<and> recoverable ack = recoverable_flag m)"
proof -
  have "EVENT_RESPONSE_CREATED \<noteq> EVENT_ERROR" by (simp add: event_names)
  then show ?thesis
    by (auto simp: ack_loop_skip [OF assms(1)] ack_loop_decided [OF assms(2)] simp del: ack_loop.simps)
qed

text \<open>
  Without a deciding message the wait does not succeed: it times out, or reports the closed
  channel when the channel closed first.
\<close>

theorem start_ack_undecided:
  "(\<forall>r \<in> set rs. undecided g r \<or> r = Recv_closed) \<Longrightarrow>
   ack_loop g rs = (if Recv_closed \<in> set rs then Err ChannelClosed
                    else Err (Timeout ''response.start acknowledgement''))"
proof (induction rs)
  case (Cons r rs)
  then show ?case by (cases r) (auto simp: decides_def)
qed simp

text \<open>
  A start that waits sends exactly one message, \<open>response.start\<close> with the generation it then
  waits for; when the channel is closed it fails at once and sends nothing.
\<close>

theorem start_response_and_wait_sends:
  "closed_error P (sess_channel self) = None \<longrightarrow>
     start_response_and_wait P uuid options rs self =
       (ack_loop (started_generation uuid options self) rs,
        self\<lparr>sess_channel := (sess_channel self)\<lparr>channel := pond_send_message P ''response.start''
               (Some (put ''generation_id'' (String (started_generation uuid options self))
                  (response_options_payload options))) (channel (sess_channel self))\<rparr>,
             response_generation := \<lparr>counter = counter (response_generation self) + 1,
                                     current_id = Some (started_generation uuid options self)\<rparr>\<rparr>)"
  by (simp add: start_response_and_wait_def start_payload_eq send_control_eq Let_def)

text \<open>
  Cancelling carries the generation it cancels and then forgets it: the message has the
  caller's generation, or the tracked one, and afterwards a delta or a commit without an
  explicit generation carries none.
\<close>

theorem cancel_clears_generation:
  assumes "closed_error P (sess_channel self) = None"
  shows "\<exists>payload.
     snd (cancel_response P options self) =
       self\<lparr>sess_channel := (sess_channel self)\<lparr>channel :=
              pond_send_message P ''response.cancel'' (Some payload) (channel (sess_channel self))\<rparr>,
            response_generation := (response_generation self)\<lparr>current_id := None\<rparr>\<rparr> \<and>
     get payload ''generation_id'' =
       map_option String (case explicit_generation options of
                            Some g \<Rightarrow> Some g | None \<Rightarrow> current_id (response_generation self)) \<and>
     thread_generation (snd (cancel_response P options self)) p None = p"
  using assms
  by (intro exI [of _ "thread_generation self fmempty (explicit_generation options)"])
    (simp add: cancel_response_def send_control_eq clear_response_generation_def thread_generation_def
      add_response_generation_def split: option.splits)

text \<open>
  On a closed channel every command fails with \<open>ChannelClosed\<close> and calls nothing on the
  channel.
\<close>

theorem commands_on_closed_channel:
  assumes "closed_error P (sess_channel self) \<noteq> None"
  shows "fst (send_offer P off restart gen self) = Err ChannelClosed \<and>
    fst (send_ice_candidate P cand gen self) = Err ChannelClosed \<and>
    fst (close_rtc P why self) = Err ChannelClosed \<and>
    fst (configure P cfg self) = Err ChannelClosed \<and>
    fst (send_client_event P env self) = Err ChannelClosed \<and>
    fst (send_text_response P uuid txt options first self) = Err ChannelClosed \<and>
    fst (cancel_response P options self) = Err ChannelClosed \<and>
    fst (start_response_and_wait P uuid options rs self) = Err ChannelClosed \<and>
    sess_channel (snd (send_text_response P uuid txt options first self)) = sess_channel self \<and>
    sess_channel (snd (start_response_and_wait P uuid options rs self)) = sess_channel self \<and>
    sess_channel (snd (cancel_response P options self)) = sess_channel self"
proof -
  have raw: "raw_send_message P e p (sess_channel self) = (Err ChannelClosed, sess_channel self)" for e p
    using assms by (rule raw_channel.send_closed)
  show ?thesis
    by (simp add: send_offer_def send_ice_candidate_def close_rtc_def configure_def send_client_event_def
        send_text_response_def replace_response_text_def start_response_def cancel_response_def
        start_response_and_wait_def start_payload_eq send_control_eq raw clear_response_generation_def Let_def)
qed

text \<open>
  In the configuration message a typed setting wins over an entry of the same name in
  \<open>extra\<close>; a setting that is absent leaves that entry as it is, and every other entry of
  \<open>extra\<close> is sent unchanged.
\<close>

theorem session_config_payload_get:
  "get (session_config_payload config) k =
     (if k = ''speech_context'' \<and> cfg_speech_context config \<noteq> None
        then map_option Bool (cfg_speech_context config)
      else case map_of [(''stt_model'', stt_model config), (''tts_model'', tts_model config),
                        (''voice'', cfg_voice config), (''turn_profile'', turn_profile config),
                        (''vad_backend'', vad_backend config),
                        (''turn_detector'', cfg_turn_detector config)] k of
             Some (Some s) \<Rightarrow> Some (String s)
           | _ \<Rightarrow> get (extra config) k)"
  by (simp add: session_config_payload_def Let_def split: option.splits)

text \<open>
  C38. The output selection survives the wire: reading back the \<open>output\<close> object the SDK writes for
  complete options (a model, a language, a finite speed and parameters) gives these values; with
  a speed that is not finite the field is omitted, so that nothing is read back.
\<close>

theorem response_output_roundtrip:
  assumes "opt_model out = Some mdl" and "mdl \<noteq> []" and "opt_language out = Some lang" and "lang \<noteq> []"
    and "opt_speed out = Some x" and "opt_params out = Some ps"
  shows "response_output (put ''output'' (Object (response_output_options_payload out)) m) =
     (if is_finite x
      then Some \<lparr>model = mdl, out_voice = opt_filter (\<lambda>v. v \<noteq> []) (opt_voice out), out_language = lang,
                 speed = x, params = ps\<rparr>
      else None)"
  using assms
  by (simp add: response_output_def response_output_options_payload_def Let_def number_from_f64_def
      optional_nonempty_string_def optional_string_def optional_number_def split: option.splits)

text \<open>
  Joining ends as the first decisive state says: after any number of idle or joining states,
  joined succeeds, closed or declined fails with the state and the reason, and if neither comes
  before the deadline the join times out.
\<close>

theorem join_outcome:
  assumes "st \<in> {Idle, Joining}" and "set sts \<subseteq> {Idle, Joining}"
  shows "join_loop own name reason st (map Changed sts @ Changed Joined # ws) = Ok () \<and>
    (d \<in> {Closed, Declined} \<longrightarrow> join_loop own name reason st (map Changed sts @ Changed d # ws) =
       Err (JoinFailed name (debug_channel_state d) reason)) \<and>
    join_loop own name reason st (map Changed sts @ Sender_dropped # ws) = Err DisconnectedError \<and>
    join_loop own name reason st (map Changed sts) = Err (JoinTimeout own)"
proof -
  obtain st' where st': "st' \<in> {Idle, Joining}"
    and pending: "\<And>ws. join_loop own name reason st (map Changed sts @ ws) = join_loop own name reason st' ws"
    using join_loop_pending [OF assms] by blast
  from pending [of "[]"] st' show ?thesis by (simp add: pending join_loop_simps)
qed

text \<open>
  A listener for one event calls its handler once for each message of that name received
  before the channel closed, in order; lags are skipped and do not end it. The catch-all listener
  sees every message with its name and payload unchanged.
\<close>

theorem listeners_deliver:
  "on_loop n f rs = map (f \<circ> snd) (filter (\<lambda>m. fst m = n) (seen_messages rs)) \<and>
   map (\<lambda>w. (wire_type w, data w)) (on_event self rs) = seen_messages rs"
  by (simp add: on_loop_seen on_event_def on_event_loop_seen o_def split_def)

text \<open>
  A listener that was dropped has called its handler for a first part of what it would have been
  called for, in the same order: dropping never skips or reorders.
\<close>

theorem dropped_listener_prefix:
  "prefix (on_event self (until_dropped n rs)) (on_event self rs) \<and>
   prefix (on_loop name handler (until_dropped n rs)) (on_loop name handler rs)"
proof -
  obtain ms where "seen_messages rs = seen_messages (until_dropped n rs) @ ms"
    using seen_messages_dropped [of n rs] by (auto simp: prefix_def)
  then show ?thesis by (simp add: on_event_def on_event_loop_seen on_loop_seen)
qed

section \<open>Witnesses\<close>

text \<open>A channel that records what is sent on it: its value is its state and the log.\<close>

definition log_channel :: "(PondChannelState \<times> (string \<times> EventData option) list) pond_channel" where
  "log_channel =
     \<lparr>pond_name = (\<lambda>_. ''/rtc/s1''), pond_state = fst, pond_join = (\<lambda>(_, l). (PondJoining, l)),
      pond_leave = (\<lambda>(_, l). (PondClosed, l)), pond_send_message = (\<lambda>e p (st, l). (st, l @ [(e, p)])),
      pond_decline_reason = (\<lambda>_. None)\<rparr>"

definition log_session ::
  "PondChannelState \<Rightarrow> (PondChannelState \<times> (string \<times> EventData option) list) VoxRtcControlSession" where
  "log_session st = control_session_new (raw_channel_new log_channel (st, [])) ''s1'' 0"

lemma log_session_open: "closed_error log_channel (sess_channel (log_session PondJoined)) = None"
  by (simp add: closed_error_eq log_session_def log_channel_def control_session_new_def raw_channel_new_def)

lemma log_session_closed: "closed_error log_channel (sess_channel (log_session PondClosed)) \<noteq> None"
  by (simp add: closed_error_eq log_session_def log_channel_def control_session_new_def raw_channel_new_def)

lemma generated_ids_distinct_witness:
  "distinct [''generation_1_u'', ''generation_3_u'']"
proof -
  have "distinct (gen_ids [Gen_next ''u'', Gen_set ''mine'', Gen_clear, Gen_next ''u''] (log_session PondJoined))"
    by (rule generated_ids_distinct) simp
  then show ?thesis
    by (simp add: next_response_generation_def set_response_generation_def clear_response_generation_def
        log_session_def control_session_new_def format_generation_def show_nat.simps digit_char_def Let_def)
qed

definition created_message :: "string \<Rightarrow> EventData" where
  "created_message g = object_of [(''generation_id'', String g), (''response_id'', String ''resp-9'')]"

lemma start_ack_first_match_witness:
  "\<exists>ack. ack_loop ''g1'' [Lagged 7, Received (EVENT_RESPONSE_CREATED, created_message ''g0''),
      Received (EVENT_RESPONSE_CREATED, created_message ''g1'')] = Ok ack \<and> accepted ack"
proof -
  have before: "\<forall>r \<in> set [Lagged 7, Received (EVENT_RESPONSE_CREATED, created_message ''g0'')]. undecided ''g1'' r"
    by (simp add: decides_def created_message_def optional_nonempty_string_def optional_string_def get_object_of)
  have dec: "decides ''g1'' (EVENT_RESPONSE_CREATED, created_message ''g1'')"
    by (simp add: decides_def created_message_def optional_nonempty_string_def optional_string_def get_object_of)
  show ?thesis using start_ack_first_match [OF before dec, of "[]"] by (auto simp del: ack_loop.simps)
qed

lemma start_ack_undecided_witness:
  "ack_loop ''g1'' [Lagged 3, Recv_closed] = Err ChannelClosed"
  using start_ack_undecided [of "[Lagged 3, Recv_closed]" "''g1''"] by simp

lemma start_response_and_wait_sends_witness:
  "fst (start_response_and_wait log_channel ''u'' None [Recv_closed] (log_session PondJoined)) = Err ChannelClosed \<and>
   closed_error log_channel (sess_channel (log_session PondJoined)) = None"
  using start_response_and_wait_sends [of log_channel "log_session PondJoined" "''u''" None "[Recv_closed]"]
    log_session_open by simp

lemma cancel_clears_generation_witness:
  "thread_generation (snd (cancel_response log_channel None (log_session PondJoined))) fmempty None = fmempty"
  using cancel_clears_generation [OF log_session_open, of None fmempty] by blast

lemma commands_on_closed_channel_witness:
  "fst (close_rtc log_channel ''bye'' (log_session PondClosed)) = Err ChannelClosed"
  using commands_on_closed_channel [OF log_session_closed] by blast

lemma response_output_roundtrip_witness:
  "response_output (put ''output'' (Object (response_output_options_payload
      \<lparr>opt_model = Some ''m'', opt_voice = Some ''v'', opt_language = Some ''fr'',
       opt_speed = Some (F64 (9 / 10)), opt_params = Some fmempty\<rparr>)) fmempty) =
   Some \<lparr>model = ''m'', out_voice = Some ''v'', out_language = ''fr'', speed = F64 (9 / 10), params = fmempty\<rparr>"
  by (subst response_output_roundtrip [where mdl = "''m''" and lang = "''fr''" and x = "F64 (9 / 10)"
        and ps = fmempty]) simp_all

lemma join_outcome_witness:
  "join_loop ''/rtc/s1'' ''/rtc/s1'' None Idle [Changed Joining, Changed Declined] =
     Err (JoinFailed ''/rtc/s1'' ''Declined'' None)"
  using join_outcome [of Idle "[Joining]" "''/rtc/s1''" "''/rtc/s1''" None "[]" Declined] by simp

end
