(* ===== verification/Vox_Commands.thy ===== *)
theory Vox_Commands
  imports Vox_Session
begin

text \<open>
  The commands of the control session (\<open>src/rust/rtcserver/src/session.rs\<close>) as one language: a
  command is a value, \<open>exec_command\<close> runs the method it stands for. The abstract specification
  \<open>plan\<close> gives the messages a command sends and the generation it leaves, as a function of the
  generation alone; the methods are shown to refine it, and what holds of every sequence of
  commands (the shape of the session, the threading of generation identifiers) follows from there.
\<close>

section \<open>The command language\<close>

text \<open>The random identifier of a started response is an argument of the commands that draw one.\<close>

datatype session_command =
    Cmd_control string EventData
  | Cmd_offer Value bool "u64 option"
  | Cmd_candidate "Value option" "u64 option"
  | Cmd_close_rtc string
  | Cmd_configure SessionConfig
  | Cmd_start string "ResponseOptions option"
  | Cmd_start_and_wait string "ResponseOptions option" "(string \<times> EventData) recv_wait list"
  | Cmd_supersede_and_wait string string "ResponseOptions option" "(string \<times> EventData) recv_wait list"
  | Cmd_append string "ResponseOptions option"
  | Cmd_commit "ResponseOptions option"
  | Cmd_cancel "ResponseOptions option"
  | Cmd_replace string "ResponseOptions option"
  | Cmd_text string string "ResponseOptions option" bool
  | Cmd_client_event ClientEventEnvelope

definition forget_ack :: "StartAck Result \<times> 'c VoxRtcControlSession \<Rightarrow> unit Result \<times> 'c VoxRtcControlSession" where
  "forget_ack rs = (map_sum id (\<lambda>_. ()) (fst rs), snd rs)"

fun exec_command ::
  "'c pond_channel \<Rightarrow> session_command \<Rightarrow> 'c VoxRtcControlSession \<Rightarrow> unit Result \<times> 'c VoxRtcControlSession" where
  "exec_command P (Cmd_control e p) self = send_control P e p self"
| "exec_command P (Cmd_offer off restart gen) self = send_offer P off restart gen self"
| "exec_command P (Cmd_candidate cand gen) self = send_ice_candidate P cand gen self"
| "exec_command P (Cmd_close_rtc rsn) self = close_rtc P rsn self"
| "exec_command P (Cmd_configure cfg) self = configure P cfg self"
| "exec_command P (Cmd_start u options) self = start_response P u options self"
| "exec_command P (Cmd_start_and_wait u options rs) self =
     forget_ack (start_response_and_wait P u options rs self)"
| "exec_command P (Cmd_supersede_and_wait u old options rs) self =
     forget_ack (supersede_response_and_wait P u old options rs self)"
| "exec_command P (Cmd_append body options) self = append_response_text P body options self"
| "exec_command P (Cmd_commit options) self = commit_response P options self"
| "exec_command P (Cmd_cancel options) self = cancel_response P options self"
| "exec_command P (Cmd_replace body options) self = replace_response_text P body options self"
| "exec_command P (Cmd_text u body options cancel_first) self =
     send_text_response P u body options cancel_first self"
| "exec_command P (Cmd_client_event env) self = send_client_event P env self"

fun run_commands ::
  "'c pond_channel \<Rightarrow> session_command list \<Rightarrow> 'c VoxRtcControlSession \<Rightarrow> 'c VoxRtcControlSession" where
  "run_commands P [] self = self"
| "run_commands P (cmd # cmds) self = run_commands P cmds (snd (exec_command P cmd self))"

section \<open>The abstract specification\<close>

text \<open>The identifier of a start, and the generation after it.\<close>

definition plan_id :: "string \<Rightarrow> ResponseOptions option \<Rightarrow> ResponseGeneration \<Rightarrow> string" where
  "plan_id u options g = unwrap_or (format_generation (counter g + 1) u) (explicit_generation options)"

definition plan_started :: "string \<Rightarrow> ResponseOptions option \<Rightarrow> ResponseGeneration \<Rightarrow> ResponseGeneration" where
  "plan_started u options g = \<lparr>counter = counter g + 1, current_id = Some (plan_id u options g)\<rparr>"

definition plan_cleared :: "ResponseGeneration \<Rightarrow> ResponseGeneration" where
  "plan_cleared g = g\<lparr>current_id := None\<rparr>"

definition with_id :: "string option \<Rightarrow> EventData \<Rightarrow> EventData" where
  "with_id i p = (case i of Some x \<Rightarrow> put ''generation_id'' (String x) p | None \<Rightarrow> p)"

text \<open>The caller's identifier, or else the tracked one.\<close>

definition effective_id :: "ResponseOptions option \<Rightarrow> ResponseGeneration \<Rightarrow> string option" where
  "effective_id options g = (case explicit_generation options of Some i \<Rightarrow> Some i | None \<Rightarrow> current_id g)"

definition superseding :: "string \<Rightarrow> ResponseOptions option \<Rightarrow> ResponseOptions option" where
  "superseding old options =
     Some ((unwrap_or default_response_options options)\<lparr>opt_supersedes_generation_id := Some old\<rparr>)"

definition start_message :: "string \<Rightarrow> ResponseOptions option \<Rightarrow> ResponseGeneration \<Rightarrow> string \<times> EventData" where
  "start_message u options g =
     (''response.start'', with_id (Some (plan_id u options g)) (response_options_payload options))"

definition delta_message :: "string \<Rightarrow> ResponseOptions option \<Rightarrow> ResponseGeneration \<Rightarrow> string \<times> EventData" where
  "delta_message body options g =
     (''response.delta'', with_id (effective_id options g)
        (put ''delta'' (String body) (response_options_payload options)))"

definition commit_message :: "ResponseOptions option \<Rightarrow> ResponseGeneration \<Rightarrow> string \<times> EventData" where
  "commit_message options g = (''response.commit'', with_id (effective_id options g) fmempty)"

definition replace_message :: "string \<Rightarrow> ResponseOptions option \<Rightarrow> string \<times> EventData" where
  "replace_message body options =
     (''response.replace_text'', with_id (explicit_generation options)
        (put ''text'' (String body) (response_options_payload options)))"

fun plan :: "session_command \<Rightarrow> ResponseGeneration \<Rightarrow> (string \<times> EventData) list \<times> ResponseGeneration" where
  "plan (Cmd_control e p) g = ([(e, p)], g)"
| "plan (Cmd_offer off restart gen) g =
     ([(''rtc.offer'', generation_payload gen (object_of [(''offer'', off), (''restart'', Bool restart)]))], g)"
| "plan (Cmd_candidate cand gen) g =
     ([(''rtc.ice_candidate'', generation_payload gen (object_of [(''candidate'', unwrap_or Null cand)]))], g)"
| "plan (Cmd_close_rtc rsn) g = ([(''rtc.close'', object_of [(''reason'', String rsn)])], g)"
| "plan (Cmd_configure cfg) g =
     ([(''session.update'', object_of [(''session'', Object (session_config_payload cfg))])], g)"
| "plan (Cmd_start u options) g = ([start_message u options g], plan_started u options g)"
| "plan (Cmd_start_and_wait u options rs) g = ([start_message u options g], plan_started u options g)"
| "plan (Cmd_supersede_and_wait u old options rs) g =
     ([start_message u (superseding old options) g], plan_started u (superseding old options) g)"
| "plan (Cmd_append body options) g = ([delta_message body options g], g)"
| "plan (Cmd_commit options) g = ([commit_message options g], g)"
| "plan (Cmd_cancel options) g =
     ([(''response.cancel'', with_id (effective_id options g) fmempty)], plan_cleared g)"
| "plan (Cmd_replace body options) g = ([replace_message body options], plan_cleared g)"
| "plan (Cmd_text u body options cancel_first) g =
     (if cancel_first then ([replace_message body options], plan_cleared g)
      else let g' = plan_started u options g
           in ([start_message u options g, delta_message body options g', commit_message options g'], g'))"
| "plan (Cmd_client_event env) g =
     ([(EVENT_CLIENT_EVENT, object_of [(''event'', String (env_event env)), (''payload'', env_payload env)])], g)"

text \<open>What a command answers once its messages are sent, given the generation it left.\<close>

fun plan_answer :: "session_command \<Rightarrow> ResponseGeneration \<Rightarrow> unit Result" where
  "plan_answer (Cmd_start_and_wait u options rs) g =
     map_sum id (\<lambda>_. ()) (ack_loop (unwrap_or [] (current_id g)) rs)"
| "plan_answer (Cmd_supersede_and_wait u old options rs) g =
     map_sum id (\<lambda>_. ()) (ack_loop (unwrap_or [] (current_id g)) rs)"
| "plan_answer _ g = Ok ()"

text \<open>The messages of a sequence of commands, one list for each, and the generation after it.\<close>

fun plan_run :: "session_command list \<Rightarrow> ResponseGeneration \<Rightarrow> (string \<times> EventData) list list \<times> ResponseGeneration" where
  "plan_run [] g = ([], g)"
| "plan_run (cmd # cmds) g =
     (let (ms, g1) = plan cmd g; (mss, g2) = plan_run cmds g1 in (ms # mss, g2))"

section \<open>Refinement\<close>

text \<open>Sending the planned messages in order until one fails.\<close>

definition refined ::
  "'c pond_channel \<Rightarrow> session_command \<Rightarrow> 'c VoxRtcControlSession \<Rightarrow> unit Result \<times> 'c VoxRtcControlSession" where
  "refined P cmd self =
     (let (ms, g) = plan cmd (response_generation self);
          (r, ch) = send_seq (raw_send_message P) ms (sess_channel self)
      in (case r of Inl e \<Rightarrow> Err e | Inr _ \<Rightarrow> plan_answer cmd g,
          self\<lparr>sess_channel := ch, response_generation := g\<rparr>))"

lemma send_seq_single:
  "send_seq (raw_send_message P) [(e, p)] ch = raw_send_message P e p ch"
  by (cases "closed_error P ch") simp_all

lemma refined_single:
  assumes "plan cmd (response_generation self) = ([(e, p)], g)" and "plan_answer cmd g = Ok ()"
  shows "refined P cmd self = send_control P e p (self\<lparr>response_generation := g\<rparr>)"
  using assms by (cases "closed_error P (sess_channel self)")
    (simp_all add: refined_def send_control_eq)

lemma object_of_puts:
  "object_of [(a, x)] = put a x fmempty"
  "object_of [(a, x), (b, y)] = put b y (put a x fmempty)"
  by (simp_all add: object_of_def)

lemma keep_generation [simp]: "self\<lparr>response_generation := response_generation self\<rparr> = self"
  by simp

lemma thread_with_id:
  "thread_generation self p (explicit_generation options) = with_id (effective_id options (response_generation self)) p"
  by (simp add: thread_generation_def add_response_generation_def with_id_def effective_id_def
      split: option.splits)

lemma started_plan: "started_generation u options self = plan_id u options (response_generation self)"
  by (simp add: started_generation_def plan_id_def)

lemma start_payload_plan:
  "start_payload u options self =
     (plan_id u options (response_generation self), snd (start_message u options (response_generation self)),
      self\<lparr>response_generation := plan_started u options (response_generation self)\<rparr>)"
  by (simp add: start_payload_eq started_plan plan_started_def start_message_def with_id_def)

lemma effective_started [simp]: "effective_id options (plan_started u options g) = Some (plan_id u options g)"
  by (cases "explicit_generation options") (simp_all add: effective_id_def plan_started_def plan_id_def)

lemma start_and_wait_refined:
  "forget_ack (start_response_and_wait P u options rs self) =
     refined P (Cmd_start_and_wait u options rs) self"
  by (cases "closed_error P (sess_channel self)")
    (simp_all add: start_response_and_wait_def start_payload_plan refined_def send_control_eq forget_ack_def
      start_message_def plan_started_def)

lemma text_refined:
  "send_text_response P u body options False self = refined P (Cmd_text u body options False) self"
proof -
  let ?g = "response_generation self"
  let ?i = "put ''generation_id'' (String (started_generation u options self))"
  have messages: "[(''response.start'', ?i (response_options_payload options)),
      (''response.delta'', ?i (put ''delta'' (String body) (response_options_payload options))),
      (''response.commit'', ?i fmempty)] =
      [start_message u options ?g, delta_message body options (plan_started u options ?g),
       commit_message options (plan_started u options ?g)]"
    by (simp add: start_message_def delta_message_def commit_message_def with_id_def started_plan)
  have generation: "\<lparr>counter = counter ?g + 1, current_id = Some (started_generation u options self)\<rparr> =
      plan_started u options ?g"
    by (simp add: plan_started_def started_plan)
  have "send_text_response P u body options False self =
      (let (r, ch) = send_seq (raw_send_message P)
         [start_message u options ?g, delta_message body options (plan_started u options ?g),
          commit_message options (plan_started u options ?g)] (sess_channel self)
       in (r, self\<lparr>sess_channel := ch, response_generation := plan_started u options ?g\<rparr>))"
    using send_text_response_sends [of u options self P body] unfolding Let_def messages generation
    by (simp split: prod.splits)
  then show ?thesis
    by (auto simp: refined_def Let_def split: prod.splits sum.splits)
qed

lemma exec_refined: "exec_command P cmd self = refined P cmd self"
proof (cases cmd)
  case (Cmd_start_and_wait u options rs)
  then show ?thesis by (simp add: start_and_wait_refined)
next
  case (Cmd_supersede_and_wait u old options rs)
  then show ?thesis
    using start_and_wait_refined [of P u "superseding old options" rs self]
    by (simp add: supersede_response_and_wait_def superseding_def refined_def Let_def split: prod.splits sum.splits)
next
  case (Cmd_text u body options cancel_first)
  show ?thesis
  proof (cases cancel_first)
    case True
    then have "refined P cmd self = refined P (Cmd_replace body options) self"
      by (simp add: Cmd_text refined_def split: prod.splits sum.splits)
    with True Cmd_text show ?thesis
      by (simp add: send_text_response_def replace_response_text_def refined_single replace_message_def
          with_id_def clear_response_generation_def plan_cleared_def Let_def)
  qed (simp add: Cmd_text text_refined)
qed (simp_all add: refined_single object_of_puts send_offer_def send_ice_candidate_def close_rtc_def configure_def
    send_client_event_def start_response_def start_payload_plan append_response_text_def commit_response_def
    cancel_response_def replace_response_text_def thread_with_id delta_message_def commit_message_def
    replace_message_def start_message_def with_id_def clear_response_generation_def plan_cleared_def Let_def)

lemma exec_fields:
  "sess_id (snd (exec_command P cmd self)) = sess_id self"
  "sess_channel_name (snd (exec_command P cmd self)) = sess_channel_name self"
  "sess_join_timeout (snd (exec_command P cmd self)) = sess_join_timeout self"
  "response_generation (snd (exec_command P cmd self)) = snd (plan cmd (response_generation self))"
  by (simp_all add: exec_refined refined_def Let_def split: prod.splits)

lemma plan_nonempty: "fst (plan cmd g) \<noteq> []"
  by (cases cmd) (simp_all add: Let_def)

section \<open>Sequences of commands\<close>

text \<open>The shape every session keeps: its channel is named after it, and a tracked identifier is not empty.\<close>

definition session_wf :: "'c VoxRtcControlSession \<Rightarrow> bool" where
  "session_wf self \<longleftrightarrow> sess_channel_name self = ''/rtc/'' @ sess_id self \<and>
     current_id (response_generation self) \<noteq> Some []"

fun starts :: "session_command \<Rightarrow> bool" where
  "starts (Cmd_start _ _) = True"
| "starts (Cmd_start_and_wait _ _ _) = True"
| "starts (Cmd_supersede_and_wait _ _ _ _) = True"
| "starts (Cmd_text _ _ _ cancel_first) = (\<not> cancel_first)"
| "starts _ = False"

lemma plan_id_nonempty: "plan_id u options g \<noteq> []"
  by (cases "explicit_generation options")
    (auto simp: plan_id_def format_generation_nonempty explicit_generation_def split: option.splits)

lemma plan_wf: "current_id g \<noteq> Some [] \<Longrightarrow> current_id (snd (plan cmd g)) \<noteq> Some []"
  by (cases cmd) (simp_all add: plan_started_def plan_cleared_def plan_id_nonempty Let_def)

lemma plan_counter: "counter (snd (plan cmd g)) = counter g + (if starts cmd then 1 else 0)"
  by (cases cmd) (simp_all add: plan_started_def plan_cleared_def Let_def)

lemma exec_wf: "session_wf self \<Longrightarrow> session_wf (snd (exec_command P cmd self))"
  by (simp add: session_wf_def exec_fields plan_wf)

interpretation command_run: step_invariant "\<lambda>self cmd. snd (exec_command P cmd self)" session_wf for P
  by unfold_locales (rule exec_wf)

lemma run_commands_foldl: "run_commands P cmds self = foldl (\<lambda>self cmd. snd (exec_command P cmd self)) self cmds"
  by (induction cmds arbitrary: self) simp_all

lemma run_wf: "session_wf self \<Longrightarrow> session_wf (run_commands P cmds self)"
  unfolding run_commands_foldl by (rule command_run.run_inv)

text \<open>
  The order of generation identifiers in what is sent: a start announces one, the deltas and the
  commit after it carry it, a cancel carries it and ends it, a replacement carries none and ends it.
\<close>

fun threaded_ok :: "string option \<Rightarrow> (string \<times> EventData) list \<Rightarrow> bool" where
  "threaded_ok cur [] = True"
| "threaded_ok cur ((e, p) # ms) =
     (if e = ''response.start'' then
        (case get p ''generation_id'' of Some (String g) \<Rightarrow> threaded_ok (Some g) ms | _ \<Rightarrow> False)
      else if e = ''response.delta'' \<or> e = ''response.commit'' then
        get p ''generation_id'' = map_option String cur \<and> threaded_ok cur ms
      else if e = ''response.cancel'' then
        get p ''generation_id'' = map_option String cur \<and> threaded_ok None ms
      else if e = ''response.replace_text'' then get p ''generation_id'' = None \<and> threaded_ok None ms
      else threaded_ok cur ms)"

text \<open>Commands that leave the identifiers to the session.\<close>

fun implicit :: "session_command \<Rightarrow> bool" where
  "implicit (Cmd_control _ _) = False"
| "implicit (Cmd_append _ options) = (explicit_generation options = None)"
| "implicit (Cmd_commit options) = (explicit_generation options = None)"
| "implicit (Cmd_cancel options) = (explicit_generation options = None)"
| "implicit (Cmd_replace _ options) = (explicit_generation options = None)"
| "implicit (Cmd_text _ _ options cancel_first) = (\<not> cancel_first \<or> explicit_generation options = None)"
| "implicit _ = True"

lemma get_with_id:
  "get p ''generation_id'' = None \<Longrightarrow> get (with_id i p) ''generation_id'' = map_option String i"
  by (simp add: with_id_def split: option.splits)

lemma current_started [simp]: "current_id (plan_started u options g) = Some (plan_id u options g)"
  by (simp add: plan_started_def)

lemma effective_implicit: "explicit_generation options = None \<Longrightarrow> effective_id options g = current_id g"
  by (simp add: effective_id_def)

lemma plan_threaded:
  assumes "implicit cmd" and "threaded_ok (current_id (snd (plan cmd g))) rest"
  shows "threaded_ok (current_id g) (fst (plan cmd g) @ rest)"
  using assms
  by (cases cmd)
    (auto simp: start_message_def delta_message_def commit_message_def replace_message_def get_with_id
      plan_cleared_def effective_implicit EVENT_CLIENT_EVENT_def Let_def)

lemma plan_run_threaded:
  "list_all implicit cmds \<Longrightarrow> threaded_ok (current_id g) (concat (fst (plan_run cmds g)))"
proof (induction cmds arbitrary: g)
  case (Cons cmd cmds)
  then have "threaded_ok (current_id (snd (plan cmd g))) (concat (fst (plan_run cmds (snd (plan cmd g)))))"
    by simp
  with Cons.prems show ?case
    by (simp add: plan_threaded Let_def case_prod_beta)
qed simp

text \<open>On a channel that stays open everything planned is sent.\<close>

definition sent_on :: "'c pond_channel \<Rightarrow> (string \<times> EventData) list \<Rightarrow> 'c \<Rightarrow> 'c" where
  "sent_on P ms c = foldl (\<lambda>c (e, p). pond_send_message P e (Some p) c) c ms"

lemma send_seq_open:
  assumes "\<And>ch. closed_error P ch = None"
  shows "send_seq (raw_send_message P) ms ch = (Ok (), ch\<lparr>channel := sent_on P ms (channel ch)\<rparr>)"
proof (induction ms arbitrary: ch)
  case (Cons m ms)
  then show ?case by (cases m) (simp add: assms sent_on_def)
qed (simp add: sent_on_def)

lemma run_sent:
  assumes "\<And>ch. closed_error P ch = None"
  shows "channel (sess_channel (run_commands P cmds self)) =
    sent_on P (concat (fst (plan_run cmds (response_generation self)))) (channel (sess_channel self))"
proof (induction cmds arbitrary: self)
  case (Cons cmd cmds)
  have "channel (sess_channel (snd (exec_command P cmd self))) =
      sent_on P (fst (plan cmd (response_generation self))) (channel (sess_channel self))"
    by (simp add: exec_refined refined_def send_seq_open [OF assms] Let_def case_prod_beta)
  then show ?case
    by (simp add: Cons exec_fields sent_on_def Let_def case_prod_beta)
qed (simp add: sent_on_def)

section \<open>Properties\<close>

text \<open>
  C6. Every method of the session refines the abstract specification: it sends exactly the messages
  planned for the generation the session is in, in order until one fails, reports that failure or
  else its answer, leaves the planned generation and changes nothing else of the session.
\<close>

theorem commands_refine_plan:
  "exec_command P cmd self =
     (let (ms, g) = plan cmd (response_generation self);
          (r, ch) = send_seq (raw_send_message P) ms (sess_channel self)
      in (case r of Inl e \<Rightarrow> Err e | Inr _ \<Rightarrow> plan_answer cmd g,
          self\<lparr>sess_channel := ch, response_generation := g\<rparr>))"
  using exec_refined [of P cmd self] by (simp only: refined_def)

text \<open>
  C19. A session keeps its shape: a new session, and a session after any sequence of commands, after
  a join and after a close, is on the channel named after it and tracks no empty identifier; its
  counter has advanced by one for every response that was started.
\<close>

theorem session_shape_kept:
  "session_wf (control_session_new ch sid t) \<and>
   (session_wf self \<longrightarrow>
      session_wf (run_commands P cmds self) \<and>
      session_wf (snd (session_join P to_string declined st ws self)) \<and>
      session_wf (snd (session_close P self))) \<and>
   counter (response_generation (run_commands P cmds self)) =
     counter (response_generation self) + of_nat (length (filter starts cmds))"
proof -
  have count: "counter (response_generation (run_commands P cmds self)) =
      counter (response_generation self) + of_nat (length (filter starts cmds))" for self
    by (induction cmds arbitrary: self) (auto simp: exec_fields plan_counter)
  have "session_wf (snd (session_join P to_string declined st ws self)) \<and> session_wf (snd (session_close P self))"
    if "session_wf self"
    using that by (auto simp: session_wf_def session_join_def session_close_def split: prod.splits sum.splits)
  then show ?thesis
    using run_wf count by (auto simp: session_wf_def control_session_new_def)
qed

text \<open>
  C18. As long as the caller leaves the identifiers to the session, they are threaded correctly
  through any sequence of commands: on a channel that stays open, each delta and commit carries
  the identifier of the last response started, none after a cancel or a replacement.
\<close>

theorem generations_threaded:
  assumes "\<And>ch. closed_error P ch = None" and "list_all implicit cmds"
  shows "\<exists>ms. channel (sess_channel (run_commands P cmds self)) = sent_on P ms (channel (sess_channel self)) \<and>
    threaded_ok (current_id (response_generation self)) ms"
  using run_sent [OF assms(1), of cmds self] plan_run_threaded [OF assms(2)] by blast

text \<open>
  C37. Cancelling forgets the tracked generation even when the caller named another one. Start a
  response \<open>g\<close>, cancel an older response \<open>h\<close>, and send a delta and the commit of \<open>g\<close>: four messages
  go out, the cancel names \<open>h\<close>, none of them cancels \<open>g\<close>, and yet the delta and the commit name no
  response; without the cancel they name \<open>g\<close>.
\<close>

theorem cancel_other_forgets_tracked:
  assumes "\<And>ch. closed_error P ch = None" and "explicit_generation (Some this) = Some g"
    and "explicit_generation (Some older) = Some h" and "g \<noteq> h"
  shows "\<exists>start cancel delta commit delta' commit'.
    channel (sess_channel (run_commands P
        [Cmd_start u (Some this), Cmd_cancel (Some older), Cmd_append body None, Cmd_commit None] self)) =
      sent_on P [(''response.start'', start), (''response.cancel'', cancel), (''response.delta'', delta),
        (''response.commit'', commit)] (channel (sess_channel self)) \<and>
    channel (sess_channel (run_commands P
        [Cmd_start u (Some this), Cmd_append body None, Cmd_commit None] self)) =
      sent_on P [(''response.start'', start), (''response.delta'', delta'), (''response.commit'', commit')]
        (channel (sess_channel self)) \<and>
    get start ''generation_id'' = Some (String g) \<and> get cancel ''generation_id'' = Some (String h) \<and>
    get cancel ''generation_id'' \<noteq> Some (String g) \<and>
    get delta ''delta'' = Some (String body) \<and>
    get delta ''generation_id'' = None \<and> get commit ''generation_id'' = None \<and>
    get delta' ''generation_id'' = Some (String g) \<and> get commit' ''generation_id'' = Some (String g)"
proof -
  note defs = start_message_def delta_message_def commit_message_def with_id_def effective_id_def
    plan_started_def plan_id_def plan_cleared_def
  have "explicit_generation None = None" by (simp add: explicit_generation_def)
  note given = this assms(2-4) assms(4) [symmetric]
  show ?thesis
    unfolding run_sent [OF assms(1)]
    by (rule exI [of _ "put ''generation_id'' (String g) (response_options_payload (Some this))"],
        rule exI [of _ "put ''generation_id'' (String h) fmempty"],
        rule exI [of _ "put ''delta'' (String body) (response_options_payload None)"], rule exI [of _ fmempty],
        rule exI [of _ "put ''generation_id'' (String g) (put ''delta'' (String body) (response_options_payload None))"],
        rule exI [of _ "put ''generation_id'' (String g) fmempty"])
      (simp add: given defs Let_def)
qed

text \<open>
  On a closed channel every command fails with \<open>ChannelClosed\<close> and nothing is called on the
  channel; only the tracked generation moves as if the command had been sent.
\<close>

theorem commands_fail_when_closed:
  assumes "closed_error P (sess_channel self) \<noteq> None"
  shows "exec_command P cmd self =
    (Err ChannelClosed, self\<lparr>response_generation := snd (plan cmd (response_generation self))\<rparr>)"
proof -
  have "send_seq (raw_send_message P) (fst (plan cmd (response_generation self))) (sess_channel self) =
      (Err ChannelClosed, sess_channel self)"
    using raw_channel.send_seq_closed [OF assms plan_nonempty] .
  then show ?thesis by (simp add: exec_refined refined_def Let_def case_prod_beta)
qed

section \<open>Witnesses\<close>

text \<open>The recording channel, always joined.\<close>

definition open_log :: "(PondChannelState \<times> (string \<times> EventData option) list) pond_channel" where
  "open_log = log_channel\<lparr>pond_state := (\<lambda>_. PondJoined)\<rparr>"

definition sample_commands :: "session_command list" where
  "sample_commands = [Cmd_start ''u'' None, Cmd_append ''hi'' None, Cmd_cancel None, Cmd_commit None]"

lemma session_shape_kept_witness:
  "session_wf (run_commands log_channel sample_commands (log_session PondJoined)) \<and>
   counter (response_generation (run_commands log_channel sample_commands (log_session PondJoined))) = 1"
proof -
  note kept = session_shape_kept [of "raw_channel_new log_channel (PondJoined, [])" "''s1''" 0
      "log_session PondJoined" log_channel sample_commands "\<lambda>_. []" None Joined "[]"]
  have "session_wf (log_session PondJoined)" and "counter (response_generation (log_session PondJoined)) = 0"
    by (simp_all add: session_wf_def log_session_def control_session_new_def)
  then show ?thesis using kept by (simp add: sample_commands_def)
qed

lemma generations_threaded_witness:
  "\<exists>ms. channel (sess_channel (run_commands open_log sample_commands (log_session PondJoined))) =
     sent_on open_log ms (PondJoined, []) \<and> threaded_ok None ms"
proof -
  have opened: "closed_error open_log ch = None" for ch
    by (simp add: closed_error_eq open_log_def)
  have "list_all implicit sample_commands"
    by (simp add: sample_commands_def explicit_generation_def)
  from generations_threaded [OF opened this, of "log_session PondJoined"] show ?thesis
    by (simp add: log_session_def control_session_new_def raw_channel_new_def)
qed

lemma cancel_other_forgets_tracked_witness:
  "\<exists>start cancel delta commit.
    channel (sess_channel (run_commands open_log
        [Cmd_start ''u'' (Some (default_response_options\<lparr>opt_generation_id := Some ''new''\<rparr>)),
         Cmd_cancel (Some (default_response_options\<lparr>opt_generation_id := Some ''old''\<rparr>)),
         Cmd_append ''hi'' None, Cmd_commit None] (log_session PondJoined))) =
      sent_on open_log [(''response.start'', start), (''response.cancel'', cancel), (''response.delta'', delta),
        (''response.commit'', commit)] (PondJoined, []) \<and> get commit ''generation_id'' = None"
proof -
  have opened: "closed_error open_log ch = None" for ch
    by (simp add: closed_error_eq open_log_def)
  show ?thesis
    using cancel_other_forgets_tracked [OF opened, of "default_response_options\<lparr>opt_generation_id := Some ''new''\<rparr>"
        "''new''" "default_response_options\<lparr>opt_generation_id := Some ''old''\<rparr>" "''old''" "''u''" "''hi''"
        "log_session PondJoined"]
    by (auto simp: explicit_generation_def log_session_def control_session_new_def raw_channel_new_def)
qed

lemma commands_fail_when_closed_witness:
  "fst (exec_command log_channel (Cmd_append ''hi'' None) (log_session PondClosed)) = Err ChannelClosed"
  using commands_fail_when_closed [OF log_session_closed, of "Cmd_append ''hi'' None"] by simp

end
