(* ===== verification/Vox_Tasks.thy ===== *)
theory Vox_Tasks
  imports Vox_Commands
begin

text \<open>
  The control session used by several tasks at once. A \<open>VoxRtcControlSession\<close> can be cloned
  (\<open>src/rust/rtcserver/src/session.rs\<close>); its clones share the channel and, behind a mutex, the
  response generation. A call of a method is followed here one shared operation at a time: a
  section under the lock, the subscription to the messages, the send on the channel, the receipt
  of a message. Between two of them any other call, the message mirror and the channel itself may
  move. Run without interruption a call does what \<open>exec_command\<close> does.

  The receiver of a tokio broadcast is of another crate: it is the argument \<open>B\<close>, which is given
  the capacity, the index of the next message and everything broadcast so far. It answers what
  \<open>recv\<close> delivers and the index after it, or nothing when \<open>recv\<close> has to wait.
\<close>

section \<open>Calls\<close>

type_synonym 'm receiver = "nat \<Rightarrow> nat \<Rightarrow> 'm list \<Rightarrow> ('m recv_wait \<times> nat) option"

type_synonym recv_lib = "(string \<times> EventData) receiver"

text \<open>
  The call_pcs: those that only send (\<open>send_control\<close>, \<open>send_offer\<close>, \<open>send_ice_candidate\<close>,
  \<open>close_rtc\<close>, \<open>configure\<close>, \<open>send_client_event\<close>), and the response commands.
\<close>

datatype session_call =
    Call_send string EventData
  | Call_start string "ResponseOptions option"
  | Call_start_and_wait string "ResponseOptions option"
  | Call_append string "ResponseOptions option"
  | Call_commit "ResponseOptions option"
  | Call_cancel "ResponseOptions option"
  | Call_replace string "ResponseOptions option"
  | Call_text string string "ResponseOptions option" bool

text \<open>What follows a send that succeeded, and where a call is.\<close>

datatype after_send =
    Return
  | Then_await string nat
  | Then_delta string "ResponseOptions option"
  | Then_commit "ResponseOptions option"

datatype call_pc =
    Called session_call
  | Subscribing string EventData
  | Clearing EventData
  | Delta string "ResponseOptions option"
  | Sending string EventData after_send
  | Awaiting string nat
  | Call_done "StartAck option Result"

fun resume :: "after_send \<Rightarrow> call_pc" where
  "resume Return = Call_done (Ok None)"
| "resume (Then_await g n) = Awaiting g n"
| "resume (Then_delta body options) = Delta body options"
| "resume (Then_commit options) = Called (Call_commit options)"

definition delta_of :: "'c VoxRtcControlSession \<Rightarrow> string \<Rightarrow> ResponseOptions option \<Rightarrow> after_send \<Rightarrow> call_pc" where
  "delta_of self body options k =
     Sending ''response.delta''
       (thread_generation self (put ''delta'' (String body) (response_options_payload options))
          (explicit_generation options)) k"

definition replace_of :: "string \<Rightarrow> ResponseOptions option \<Rightarrow> call_pc" where
  "replace_of body options =
     (let p1 = put ''text'' (String body) (response_options_payload options);
          p2 = (case explicit_generation options of
                  Some g \<Rightarrow> put ''generation_id'' (String g) p1
                | None \<Rightarrow> p1)
      in Sending ''response.replace_text'' p2 Return)"

text \<open>One receipt inside \<open>start_response_and_wait\<close>: a message either answers the start or is passed over.\<close>

definition await_step :: "recv_lib \<Rightarrow> string \<Rightarrow> nat \<Rightarrow> (string \<times> EventData) list \<Rightarrow> call_pc" where
  "await_step B g n ms =
     (case B MESSAGE_CAPACITY n ms of
        None \<Rightarrow> Awaiting g n
      | Some (r, n') \<Rightarrow>
          (case next_message r of
             Break _ \<Rightarrow> Call_done (Err ChannelClosed)
           | Continue None \<Rightarrow> Awaiting g n'
           | Continue (Some m) \<Rightarrow>
               (case ack_loop g [Received m] of
                  Inr a \<Rightarrow> Call_done (Ok (Some a))
                | Inl _ \<Rightarrow> Awaiting g n')))"

text \<open>One shared operation of a call.\<close>

fun call_step ::
  "'c pond_channel \<Rightarrow> recv_lib \<Rightarrow> call_pc \<Rightarrow> 'c VoxRtcControlSession \<Rightarrow> call_pc \<times> 'c VoxRtcControlSession" where
  "call_step P B (Called (Call_send e p)) self = (Sending e p Return, self)"
| "call_step P B (Called (Call_start u options)) self =
     (let (_, p, self') = start_payload u options self in (Sending ''response.start'' p Return, self'))"
| "call_step P B (Called (Call_start_and_wait u options)) self =
     (let (g, p, self') = start_payload u options self in (Subscribing g p, self'))"
| "call_step P B (Called (Call_append body options)) self = (delta_of self body options Return, self)"
| "call_step P B (Called (Call_commit options)) self =
     (Sending ''response.commit'' (thread_generation self fmempty (explicit_generation options)) Return, self)"
| "call_step P B (Called (Call_cancel options)) self =
     (Clearing (thread_generation self fmempty (explicit_generation options)), self)"
| "call_step P B (Called (Call_replace body options)) self =
     (replace_of body options, clear_response_generation self)"
| "call_step P B (Called (Call_text u body options cancel_first)) self =
     (if cancel_first then (replace_of body options, clear_response_generation self)
      else let (_, p, self') = start_payload u options self
           in (Sending ''response.start'' p (Then_delta body options), self'))"
| "call_step P B (Subscribing g p) self =
     (Sending ''response.start'' p (Then_await g (raw_subscribe_messages (sess_channel self))), self)"
| "call_step P B (Clearing p) self = (Sending ''response.cancel'' p Return, clear_response_generation self)"
| "call_step P B (Delta body options) self = (delta_of self body options (Then_commit options), self)"
| "call_step P B (Sending e p k) self =
     (case send_control P e p self of
        (Inl x, self') \<Rightarrow> (Call_done (Err x), self')
      | (Inr _, self') \<Rightarrow> (resume k, self'))"
| "call_step P B (Awaiting g n) self = (await_step B g n (message_tx (sess_channel self)), self)"
| "call_step P B (Call_done r) self = (Call_done r, self)"

text \<open>
  The expiry of the timeout of \<open>start_response_and_wait\<close>. It may come at any time, also with the
  acknowledgement already in the receiver's buffer, which tokio would deliver first as long as the
  task has budget for it.
\<close>

fun call_expired :: "call_pc \<Rightarrow> call_pc" where
  "call_expired (Awaiting g n) = Call_done (Err (Timeout ''response.start acknowledgement''))"
| "call_expired c = c"

text \<open>The message a step puts on the channel, and whether a step starts a response.\<close>

fun emitted :: "'c pond_channel \<Rightarrow> call_pc \<Rightarrow> 'c VoxRtcControlSession \<Rightarrow> (string \<times> EventData) list" where
  "emitted P (Sending e p k) self = (if is_err (fst (send_control P e p self)) then [] else [(e, p)])"
| "emitted P _ self = []"

fun starting :: "call_pc \<Rightarrow> bool" where
  "starting (Called (Call_start _ _)) = True"
| "starting (Called (Call_start_and_wait _ _)) = True"
| "starting (Called (Call_text _ _ _ cancel_first)) = (\<not> cancel_first)"
| "starting _ = False"

section \<open>Interleaving\<close>

text \<open>
  The clones of a session: what they share, the calls made on them in the order they were made
  and where each of them is. For the statements there is also a history: the messages the channel
  has accepted with the call that sent each, and the calls that started a response in the order
  they held the lock.
\<close>

record 'c clones =
  shared :: "'c VoxRtcControlSession"
  invoked :: "session_call list"
  call_pcs :: "call_pc list"
  sent :: "(nat \<times> string \<times> EventData) list"
  started :: "nat list"

datatype 'c clones_event =
    Invoke session_call
  | Run_call nat
  | Expire_call nat
  | Mirror_event ChannelEvent
  | Channel_moved 'c

definition clones_new :: "'c VoxRtcControlSession \<Rightarrow> 'c clones" where
  "clones_new self = \<lparr>shared = self, invoked = [], call_pcs = [], sent = [], started = []\<rparr>"

definition on_channel ::
  "('c RawSocketChannel \<Rightarrow> 'c RawSocketChannel) \<Rightarrow> 'c VoxRtcControlSession \<Rightarrow> 'c VoxRtcControlSession" where
  "on_channel f self = self\<lparr>sess_channel := f (sess_channel self)\<rparr>"

fun clones_step :: "'c pond_channel \<Rightarrow> recv_lib \<Rightarrow> 'c clones \<Rightarrow> 'c clones_event \<Rightarrow> 'c clones" where
  "clones_step P B s (Invoke c) = s\<lparr>invoked := invoked s @ [c], call_pcs := call_pcs s @ [Called c]\<rparr>"
| "clones_step P B s (Run_call i) =
     (if i < length (call_pcs s) then
        let (c, self) = call_step P B (call_pcs s ! i) (shared s)
        in s\<lparr>shared := self, call_pcs := (call_pcs s)[i := c],
             sent := sent s @ map (Pair i) (emitted P (call_pcs s ! i) (shared s)),
             started := started s @ (if starting (call_pcs s ! i) then [i] else [])\<rparr>
      else s)"
| "clones_step P B s (Expire_call i) =
     (if i < length (call_pcs s) then s\<lparr>call_pcs := (call_pcs s)[i := call_expired (call_pcs s ! i)]\<rparr> else s)"
| "clones_step P B s (Mirror_event e) = s\<lparr>shared := on_channel (mirror_message_loop [Received e]) (shared s)\<rparr>"
| "clones_step P B s (Channel_moved c) = s\<lparr>shared := on_channel (\<lambda>ch. ch\<lparr>channel := c\<rparr>) (shared s)\<rparr>"

definition clones_run :: "'c pond_channel \<Rightarrow> recv_lib \<Rightarrow> 'c clones_event list \<Rightarrow> 'c clones \<Rightarrow> 'c clones" where
  "clones_run P B es s = foldl (clones_step P B) s es"

section \<open>A call on its own\<close>

fun as_command :: "session_call \<Rightarrow> session_command" where
  "as_command (Call_send e p) = Cmd_control e p"
| "as_command (Call_start u options) = Cmd_start u options"
| "as_command (Call_start_and_wait u options) = Cmd_start_and_wait u options []"
| "as_command (Call_append body options) = Cmd_append body options"
| "as_command (Call_commit options) = Cmd_commit options"
| "as_command (Call_cancel options) = Cmd_cancel options"
| "as_command (Call_replace body options) = Cmd_replace body options"
| "as_command (Call_text u body options cancel_first) = Cmd_text u body options cancel_first"

fun call_steps ::
  "'c pond_channel \<Rightarrow> recv_lib \<Rightarrow> nat \<Rightarrow> call_pc \<Rightarrow> 'c VoxRtcControlSession \<Rightarrow> call_pc \<times> 'c VoxRtcControlSession" where
  "call_steps P B 0 c self = (c, self)"
| "call_steps P B (Suc n) c self = (let (c', self') = call_step P B c self in call_steps P B n c' self')"

text \<open>What the caller gets from a call that has returned.\<close>

fun call_answer :: "call_pc \<Rightarrow> unit Result option" where
  "call_answer (Call_done r) = Some (map_sum id (\<lambda>_. ()) r)"
| "call_answer _ = None"


lemma call_steps_done [simp]: "call_steps P B n (Call_done r) self = (Call_done r, self)"
  by (induction n) simp_all

fun alone_steps :: "session_call \<Rightarrow> nat" where
  "alone_steps (Call_start_and_wait _ _) = 3"
| "alone_steps (Call_cancel _) = 3"
| "alone_steps (Call_text _ _ _ cancel_first) = (if cancel_first then 2 else 6)"
| "alone_steps _ = 2"

lemmas response_command_defs =
  start_response_def start_response_and_wait_def append_response_text_def commit_response_def
  cancel_response_def replace_response_text_def send_text_response_def delta_of_def replace_of_def

lemma alone_text:
  "map_prod (call_answer \<circ> call_expired) id (call_steps P B 6 (Called (Call_text u body options False)) self) =
     map_prod Some id (send_text_response P u body options False self)"
proof -
  let ?delta = "put ''delta'' (String body) (response_options_payload options)"
  obtain g p self0 where 0: "start_payload u options self = (g, p, self0)" by (cases "start_payload u options self")
  obtain r1 self1 where 1: "send_control P ''response.start'' p self0 = (r1, self1)" by fastforce
  obtain r2 self2 where 2: "send_control P ''response.delta''
      (thread_generation self1 ?delta (explicit_generation options)) self1 = (r2, self2)" by fastforce
  obtain r3 self3 where 3: "send_control P ''response.commit''
      (thread_generation self2 fmempty (explicit_generation options)) self2 = (r3, self3)" by fastforce
  show ?thesis
    by (cases r1; cases r2; cases r3)
      (simp_all add: eval_nat_numeral response_command_defs 0 1 2 3)
qed

lemma alone_exec:
  "map_prod (call_answer \<circ> call_expired) id (call_steps P B (alone_steps c) (Called c) self) =
     map_prod Some id (exec_command P (as_command c) self)"
proof (cases c)
  case (Call_text u body options cancel_first)
  show ?thesis
  proof (cases cancel_first)
    case True
    then show ?thesis
      by (simp add: Call_text eval_nat_numeral response_command_defs Let_def split: prod.splits sum.splits)
  qed (simp add: Call_text alone_text)
qed (simp_all add: eval_nat_numeral forget_ack_def response_command_defs Let_def split: prod.splits sum.splits)

lemma closed_answer: "call_answer (call_expired c) = Some (Err ChannelClosed) \<Longrightarrow> c = Call_done (Err ChannelClosed)"
proof (cases c)
  case (Call_done r)
  then show "call_answer (call_expired c) = Some (Err ChannelClosed) \<Longrightarrow> c = Call_done (Err ChannelClosed)"
    by (cases r) simp_all
qed simp_all

text \<open>
  What a closed channel leaves of a list of messages: those before the first it refuses.
\<close>

fun accepted_by :: "'c pond_channel \<Rightarrow> (string \<times> EventData) list \<Rightarrow> 'c RawSocketChannel \<Rightarrow> (string \<times> EventData) list" where
  "accepted_by P [] ch = []"
| "accepted_by P ((e, p) # ms) ch =
     (if closed_error P ch = None
      then (e, p) # accepted_by P ms (ch\<lparr>channel := pond_send_message P e (Some p) (channel ch)\<rparr>) else [])"

lemma accepted_prefix: "prefix (accepted_by P ms ch) ms"
  by (induction P ms ch rule: accepted_by.induct) simp_all

lemma send_seq_accepted:
  "send_seq (raw_send_message P) ms ch =
     (if accepted_by P ms ch = ms then Ok () else Err ChannelClosed,
      ch\<lparr>channel := sent_on P (accepted_by P ms ch) (channel ch)\<rparr>)"
proof (induction P ms ch rule: accepted_by.induct)
  case (2 P e p ms ch)
  then show ?case by (cases "closed_error P ch") (simp_all add: sent_on_def)
qed (simp add: sent_on_def)

lemma accepted_stopped:
  "accepted_by P ms ch \<noteq> ms \<Longrightarrow>
   closed_error P (ch\<lparr>channel := sent_on P (accepted_by P ms ch) (channel ch)\<rparr>) \<noteq> None"
  by (induction P ms ch rule: accepted_by.induct) (auto simp: sent_on_def split: if_splits)

text \<open>What a call puts on the channel in its first steps.\<close>

fun call_sends ::
  "'c pond_channel \<Rightarrow> recv_lib \<Rightarrow> nat \<Rightarrow> call_pc \<Rightarrow> 'c VoxRtcControlSession \<Rightarrow> (string \<times> EventData) list" where
  "call_sends P B 0 c self = []"
| "call_sends P B (Suc n) c self =
     (let (c', self') = call_step P B c self in emitted P c self @ call_sends P B n c' self')"

lemma call_sends_done [simp]: "call_sends P B n (Call_done r) self = []"
  by (induction n) simp_all

lemma send_control_if:
  "send_control P e p self =
     (if closed_error P (sess_channel self) = None
      then (Ok (), self\<lparr>sess_channel := (sess_channel self)\<lparr>channel :=
              pond_send_message P e (Some p) (channel (sess_channel self))\<rparr>\<rparr>)
      else (Err ChannelClosed, self))"
  by (cases "closed_error P (sess_channel self)") (simp_all add: send_control_eq)

lemmas call_plan =
  start_payload_plan delta_of_def replace_of_def thread_with_id start_message_def delta_message_def
  commit_message_def replace_message_def with_id_def clear_response_generation_def Let_def

lemma alone_sends:
  "call_sends P B (alone_steps c) (Called c) self =
     accepted_by P (fst (plan (as_command c) (response_generation self))) (sess_channel self)"
proof (cases c)
  case (Call_text u body options cancel_first)
  show ?thesis
    by (cases cancel_first)
      (simp_all add: Call_text eval_nat_numeral send_control_if call_plan cong: if_cong split: option.split)
qed (simp_all add: eval_nat_numeral send_control_if call_plan cong: if_cong split: option.split)

section \<open>Calls that do not depend on each other\<close>

text \<open>
  A call is isolated when nothing it sends depends on the tracked generation: it only sends, it
  replaces the response, or its options name the generation.
\<close>

fun isolated :: "session_call \<Rightarrow> bool" where
  "isolated (Call_send _ _) = True"
| "isolated (Call_start _ options) = (explicit_generation options \<noteq> None)"
| "isolated (Call_start_and_wait _ options) = (explicit_generation options \<noteq> None)"
| "isolated (Call_append _ options) = (explicit_generation options \<noteq> None)"
| "isolated (Call_commit options) = (explicit_generation options \<noteq> None)"
| "isolated (Call_cancel options) = (explicit_generation options \<noteq> None)"
| "isolated (Call_replace _ _) = True"
| "isolated (Call_text _ _ options cancel_first) = (cancel_first \<or> explicit_generation options \<noteq> None)"

fun isolated_after :: "after_send \<Rightarrow> bool" where
  "isolated_after (Then_delta _ options) = (explicit_generation options \<noteq> None)"
| "isolated_after (Then_commit options) = (explicit_generation options \<noteq> None)"
| "isolated_after _ = True"

fun isolated_pc :: "call_pc \<Rightarrow> bool" where
  "isolated_pc (Called c) = isolated c"
| "isolated_pc (Delta _ options) = (explicit_generation options \<noteq> None)"
| "isolated_pc (Sending _ _ k) = isolated_after k"
| "isolated_pc _ = True"

text \<open>What a call has still to send, were the tracked generation \<open>g\<close>.\<close>

fun todo_after :: "ResponseGeneration \<Rightarrow> after_send \<Rightarrow> (string \<times> EventData) list" where
  "todo_after g (Then_delta body options) = [delta_message body options g, commit_message options g]"
| "todo_after g (Then_commit options) = [commit_message options g]"
| "todo_after g _ = []"

fun todo :: "ResponseGeneration \<Rightarrow> call_pc \<Rightarrow> (string \<times> EventData) list" where
  "todo g (Called c) = fst (plan (as_command c) g)"
| "todo g (Subscribing i p) = [(''response.start'', p)]"
| "todo g (Clearing p) = [(''response.cancel'', p)]"
| "todo g (Delta body options) = [delta_message body options g, commit_message options g]"
| "todo g (Sending e p k) = (e, p) # todo_after g k"
| "todo g _ = []"

fun failed :: "call_pc \<Rightarrow> bool" where
  "failed (Call_done r) = is_err r"
| "failed _ = False"

lemma todo_resume [simp]: "todo g (resume k) = todo_after g k"
  by (cases k) simp_all

lemma resume_shape [simp]: "isolated_pc (resume k) = isolated_after k" "\<not> failed (resume k)"
  by (cases k; simp)+

lemma effective_explicit:
  "explicit_generation options = Some i \<Longrightarrow> effective_id options g = Some i"
  by (simp add: effective_id_def)

lemma plan_id_explicit: "explicit_generation options = Some i \<Longrightarrow> plan_id u options g = i"
  by (simp add: plan_id_def)

lemmas message_defs = start_message_def delta_message_def commit_message_def replace_message_def with_id_def

lemma await_shape:
  "todo g (await_step B i n ms) = []" "isolated_pc (await_step B i n ms)"
  by (auto simp: await_step_def split: option.splits prod.splits ControlFlow.splits sum.splits)

lemma call_step_isolated:
  assumes "isolated_pc c" and "call_step P B c self = (c', self')"
  shows "isolated_pc c' \<and>
    (if failed c' then emitted P c self = [] else emitted P c self @ todo g c' = todo g c)"
proof (cases c)
  case (Called call)
  with assms show ?thesis
    by (cases call)
      (auto simp: start_payload_plan message_defs delta_of_def replace_of_def thread_with_id
        effective_explicit plan_id_explicit Let_def split: if_splits option.splits)
next
  case (Sending e p k)
  with assms show ?thesis
    by (cases "closed_error P (sess_channel self)") (auto simp: send_control_eq is_err_def)
next
  case (Awaiting i n)
  with assms show ?thesis by (auto simp: await_shape)
qed (use assms in \<open>auto simp: delta_of_def message_defs thread_with_id effective_explicit\<close>)

text \<open>What call \<open>i\<close> has sent, and the relation of that to its plan.\<close>

definition sent_by :: "nat \<Rightarrow> 'c clones \<Rightarrow> (string \<times> EventData) list" where
  "sent_by i s = map snd (filter (\<lambda>m. fst m = i) (sent s))"

definition follows :: "ResponseGeneration \<Rightarrow> session_call \<Rightarrow> call_pc \<Rightarrow> (string \<times> EventData) list \<Rightarrow> bool" where
  "follows g call c ms \<longleftrightarrow> isolated call \<longrightarrow>
     isolated_pc c \<and>
     (if failed c then prefix ms (todo g (Called call)) else ms @ todo g c = todo g (Called call))"

definition isolation_inv :: "ResponseGeneration \<Rightarrow> 'c clones \<Rightarrow> bool" where
  "isolation_inv g s \<longleftrightarrow> length (invoked s) = length (call_pcs s) \<and>
     (\<forall>m \<in> set (sent s). fst m < length (call_pcs s)) \<and>
     (\<forall>i < length (call_pcs s). follows g (invoked s ! i) (call_pcs s ! i) (sent_by i s))"

lemma append_eq_prefix: "xs @ ys = zs \<Longrightarrow> prefix xs zs"
  by auto

lemma follows_called: "follows g call (Called call) []"
  by (simp add: follows_def)

lemma follows_step:
  assumes f: "follows g call c ms" and step: "call_step P B c self = (c', self')"
  shows "follows g call c' (ms @ emitted P c self)"
proof -
  have "failed c \<Longrightarrow> c' = c \<and> emitted P c self = []" using step by (cases c) auto
  with f call_step_isolated [OF _ step, of g] show ?thesis
    by (auto simp: follows_def intro: append_eq_prefix split: if_splits)
qed

lemma follows_expired: "follows g call c ms \<Longrightarrow> follows g call (call_expired c) ms"
  by (cases c) (auto simp: follows_def intro: append_eq_prefix)

lemma sent_by_update [simp]:
  "sent_by j (s\<lparr>shared := self\<rparr>) = sent_by j s"
  "sent_by j (s\<lparr>call_pcs := cs\<rparr>) = sent_by j s"
  "sent_by j (s\<lparr>invoked := is\<rparr>) = sent_by j s"
  "sent_by j (s\<lparr>started := st\<rparr>) = sent_by j s"
  "sent_by j (s\<lparr>sent := sent t @ map (Pair i) ms\<rparr>) = sent_by j t @ (if i = j then ms else [])"
  by (simp_all add: sent_by_def filter_map o_def)

lemma sent_by_new: "\<forall>m \<in> set (sent s). fst m < n \<Longrightarrow> sent_by n s = []"
  by (auto simp: sent_by_def filter_empty_conv)

lemma clones_step_isolation:
  assumes inv: "isolation_inv g s"
  shows "isolation_inv g (clones_step P B s e)"
proof (cases e)
  case (Invoke c)
  with inv show ?thesis
    by (auto simp: isolation_inv_def nth_append sent_by_new less_Suc_eq follows_called)
next
  case (Run_call i)
  obtain c self where step: "call_step P B (call_pcs s ! i) (shared s) = (c, self)" by fastforce
  with inv Run_call show ?thesis
    by (auto simp: isolation_inv_def nth_list_update intro: follows_step)
next
  case (Expire_call i)
  with inv show ?thesis
    by (auto simp: isolation_inv_def nth_list_update intro: follows_expired)
qed (use inv in \<open>auto simp: isolation_inv_def\<close>)

interpretation isolation: step_invariant "clones_step P B" "isolation_inv g" for P B g
  by unfold_locales (rule clones_step_isolation)

lemma clones_run_isolation: "isolation_inv g (clones_run P B es (clones_new self))"
  unfolding clones_run_def
  by (rule isolation.run_inv) (simp add: isolation_inv_def clones_new_def)

section \<open>Identifiers of concurrent starts\<close>

text \<open>The random part of the identifier a call draws, if it draws one.\<close>

fun draws :: "session_call \<Rightarrow> string option" where
  "draws (Call_start u options) = (if explicit_generation options = None then Some u else None)"
| "draws (Call_start_and_wait u options) = (if explicit_generation options = None then Some u else None)"
| "draws (Call_text u _ options cancel_first) =
     (if \<not> cancel_first \<and> explicit_generation options = None then Some u else None)"
| "draws _ = None"

text \<open>
  The identifier of a call that draws \<open>u\<close>: it is numbered by its place among the call_pcs that
  started a response, \<open>st\<close>, on a session whose counter was \<open>n\<close>. A call that has it carries it in
  the start it is about to send.
\<close>

definition id_at :: "u64 \<Rightarrow> nat list \<Rightarrow> nat \<Rightarrow> string \<Rightarrow> string \<Rightarrow> bool" where
  "id_at n st i u x \<longleftrightarrow> (\<exists>k < length st. st ! k = i \<and> x = format_generation (n + of_nat (Suc k)) u)"

fun carries :: "string \<Rightarrow> call_pc \<Rightarrow> bool" where
  "carries x (Called c) = (case c of Call_commit _ \<Rightarrow> True | _ \<Rightarrow> False)"
| "carries x (Subscribing g p) = (get p ''generation_id'' = Some (String x))"
| "carries x (Sending e p k) = (e = ''response.start'' \<longrightarrow> get p ''generation_id'' = Some (String x))"
| "carries x _ = True"

definition starts_carry :: "string \<Rightarrow> (string \<times> EventData) list \<Rightarrow> bool" where
  "starts_carry x ms \<longleftrightarrow> (\<forall>p. (''response.start'', p) \<in> set ms \<longrightarrow> get p ''generation_id'' = Some (String x))"

definition numbered :: "u64 \<Rightarrow> nat list \<Rightarrow> nat \<Rightarrow> session_call \<Rightarrow> call_pc \<Rightarrow> (string \<times> EventData) list \<Rightarrow> bool" where
  "numbered n st i call c ms \<longleftrightarrow>
     (if starting c then c = Called call \<and> i \<notin> set st \<and> ms = []
      else \<forall>u. draws call = Some u \<longrightarrow> (\<exists>x. id_at n st i u x \<and> carries x c \<and> starts_carry x ms))"

definition numbering_inv :: "u64 \<Rightarrow> 'c clones \<Rightarrow> bool" where
  "numbering_inv n s \<longleftrightarrow> length (invoked s) = length (call_pcs s) \<and>
     (\<forall>m \<in> set (sent s). fst m < length (call_pcs s)) \<and>
     distinct (started s) \<and> set (started s) \<subseteq> {..<length (call_pcs s)} \<and>
     counter (response_generation (shared s)) = n + of_nat (length (started s)) \<and>
     (\<forall>i < length (call_pcs s). numbered n (started s) i (invoked s ! i) (call_pcs s ! i) (sent_by i s))"

lemma of_nat_u64_inject: "k < 2 ^ 64 \<Longrightarrow> l < 2 ^ 64 \<Longrightarrow> (of_nat k :: u64) = of_nat l \<longleftrightarrow> k = l"
  by (simp add: word_of_nat_eq_iff take_bit_nat_eq_self)

lemma id_at_append: "id_at n st i u x \<Longrightarrow> id_at n (st @ st') i u x"
  unfolding id_at_def by (metis length_append nth_append trans_less_add1)

lemma numbered_append: "numbered n st i call c ms \<Longrightarrow> i \<notin> set st' \<Longrightarrow> numbered n (st @ st') i call c ms"
  using id_at_append [of n st i _ _ st'] by (fastforce simp: numbered_def)

lemma draws_starting: "draws call = Some u \<Longrightarrow> starting (Called call)"
  by (cases call) (auto split: if_splits)

lemma numbered_called: "i \<notin> set st \<Longrightarrow> numbered n st i call (Called call) []"
  using draws_starting [of call] by (auto simp: numbered_def)

lemma call_step_counter:
  "counter (response_generation (snd (call_step P B c self))) =
     counter (response_generation self) + (if starting c then 1 else 0)"
  by (cases "(P, B, c, self)" rule: call_step.cases)
    (auto simp: start_payload_plan plan_started_def clear_response_generation_def send_control_eq Let_def
      split: prod.splits sum.splits)

lemma resume_carries [simp]: "\<not> starting (resume k)" "carries x (resume k)"
  by (cases k; simp)+

lemma await_carries: "carries x (await_step B i n ms)" "\<not> starting (await_step B i n ms)"
  by (auto simp: await_step_def split: option.splits prod.splits ControlFlow.splits sum.splits)

lemma call_step_not_starting:
  "call_step P B c self = (c', self') \<Longrightarrow> \<not> starting c'"
  by (cases "(P, B, c, self)" rule: call_step.cases)
    (auto simp: delta_of_def replace_of_def await_carries Let_def split: prod.splits sum.splits if_splits)

lemma call_step_carries:
  "call_step P B c self = (c', self') \<Longrightarrow> \<not> starting c \<Longrightarrow> carries x c \<Longrightarrow> carries x c' \<and> starts_carry x (emitted P c self)"
  by (cases "(P, B, c, self)" rule: call_step.cases)
    (auto simp: delta_of_def replace_of_def await_carries starts_carry_def Let_def
      split: prod.splits sum.splits if_splits)

lemma call_step_draws:
  assumes "draws call = Some u" and "call_step P B (Called call) self = (c', self')"
  shows "carries (format_generation (counter (response_generation self) + 1) u) c'"
  using assms
  by (cases call) (auto simp: start_payload_plan start_message_def with_id_def plan_id_def split: if_splits)

lemma numbered_step:
  assumes num: "numbered n st i call c ms" and step: "call_step P B c self = (c', self')"
    and count: "counter (response_generation self) = n + of_nat (length st)"
  shows "numbered n (st @ (if starting c then [i] else [])) i call c' (ms @ emitted P c self)"
proof (cases "starting c")
  case True
  with num have c: "c = Called call" "ms = []" by (auto simp: numbered_def)
  have "id_at n (st @ [i]) i u (format_generation (counter (response_generation self) + 1) u)" for u
    unfolding id_at_def by (rule exI [of _ "length st"]) (simp add: count ac_simps)
  moreover have "carries (format_generation (counter (response_generation self) + 1) u) c'"
    if "draws call = Some u" for u
    using that step c(1) call_step_draws by blast
  ultimately show ?thesis
    using True c call_step_not_starting [OF step] by (auto simp: numbered_def starts_carry_def)
next
  case False
  with num have "\<exists>x. id_at n st i u x \<and> carries x c \<and> starts_carry x ms" if "draws call = Some u" for u
    using that by (simp add: numbered_def)
  then have "\<exists>x. id_at n st i u x \<and> carries x c' \<and> starts_carry x (ms @ emitted P c self)"
    if "draws call = Some u" for u
    using that call_step_carries [OF step False] by (fastforce simp: starts_carry_def)
  with False call_step_not_starting [OF step] show ?thesis by (simp add: numbered_def)
qed

lemma numbered_expired: "numbered n st i call c ms \<Longrightarrow> numbered n st i call (call_expired c) ms"
  by (cases c) (auto simp: numbered_def)

lemma run_call_numbering:
  assumes inv: "numbering_inv n s" and i: "i < length (call_pcs s)"
  shows "numbering_inv n (clones_step P B s (Run_call i))"
proof -
  obtain c self where step: "call_step P B (call_pcs s ! i) (shared s) = (c, self)" by fastforce
  let ?st = "if starting (call_pcs s ! i) then [i] else []"
  have fresh: "starting (call_pcs s ! i) \<Longrightarrow> i \<notin> set (started s)"
    using inv i by (auto simp: numbering_inv_def numbered_def)
  have count: "counter (response_generation (shared s)) = n + of_nat (length (started s))"
    using inv by (simp add: numbering_inv_def)
  have own: "numbered n (started s @ ?st) i (invoked s ! i) c (sent_by i s @ emitted P (call_pcs s ! i) (shared s))"
    using inv i numbered_step [OF _ step count] by (auto simp: numbering_inv_def)
  have other: "numbered n (started s @ ?st) j (invoked s ! j) (call_pcs s ! j) (sent_by j s)"
    if "j < length (call_pcs s)" "j \<noteq> i" for j
    using inv that by (auto simp: numbering_inv_def intro: numbered_append)
  have "counter (response_generation self) = n + of_nat (length (started s @ ?st))"
    using call_step_counter [of P B "call_pcs s ! i" "shared s"] step count by simp
  with inv i fresh own other step show ?thesis
    by (auto simp: numbering_inv_def nth_list_update)
qed

lemma clones_step_numbering:
  assumes inv: "numbering_inv n s"
  shows "numbering_inv n (clones_step P B s e)"
proof (cases e)
  case (Invoke c)
  have "length (call_pcs s) \<notin> set (started s)" using inv by (auto simp: numbering_inv_def)
  with inv Invoke show ?thesis
    by (auto simp: numbering_inv_def nth_append sent_by_new less_Suc_eq numbered_called)
next
  case (Run_call i)
  with inv show ?thesis by (cases "i < length (call_pcs s)") (auto dest: run_call_numbering)
next
  case (Expire_call i)
  with inv show ?thesis
    by (auto simp: numbering_inv_def nth_list_update intro: numbered_expired)
qed (use inv in \<open>auto simp: numbering_inv_def on_channel_def\<close>)

interpretation numbering: step_invariant "clones_step P B" "numbering_inv n" for P B n
  by unfold_locales (rule clones_step_numbering)

lemma clones_run_numbering:
  "numbering_inv (counter (response_generation self)) (clones_run P B es (clones_new self))"
  unfolding clones_run_def
  by (rule numbering.run_inv) (simp add: numbering_inv_def clones_new_def)

section \<open>Acknowledgements\<close>

text \<open>
  What is documented of a broadcast receiver while there is a sender: it delivers the messages one
  by one in the order they were sent and waits when there is none. It may lag instead, but only
  onto messages that have at least as many newer ones as the capacity.
\<close>

definition documented_recv :: "'m receiver \<Rightarrow> bool" where
  "documented_recv B \<longleftrightarrow>
     (\<forall>cap n ms. n \<le> length ms \<longrightarrow>
        (if n = length ms then B cap n ms = None
         else B cap n ms = Some (Received (ms ! n), Suc n) \<or>
           (\<exists>k r. B cap n ms = Some (Lagged k, r) \<and> n < r \<and> r + cap \<le> length ms)))"

lemma documented_recv_cases:
  assumes "documented_recv B" and "n \<le> length ms"
  obtains (waits) "n = length ms" "B cap n ms = None"
  | (received) "n < length ms" "B cap n ms = Some (Received (ms ! n), Suc n)"
  | (lagged) k r where "B cap n ms = Some (Lagged k, r)" "n < r" "r + cap \<le> length ms"
  using assms unfolding documented_recv_def by (metis le_neq_implies_less)

lemma documented_recv_within:
  assumes "documented_recv B" and "n \<le> length ms" and "length ms \<le> n + cap"
  shows "B cap n ms = (if n < length ms then Some (Received (ms ! n), Suc n) else None)"
  using assms(1,2) by (cases rule: documented_recv_cases [where cap = cap]) (use assms(3) in auto)

abbreviation broadcasts :: "'c clones \<Rightarrow> (string \<times> EventData) list" where
  "broadcasts s \<equiv> message_tx (sess_channel (shared s))"

text \<open>The messages among which the first that answers the start of \<open>g\<close> decides.\<close>

definition ack_among :: "string \<Rightarrow> (string \<times> EventData) list \<Rightarrow> StartAck option" where
  "ack_among g ms = (case ack_loop g (map Received ms) of Inr a \<Rightarrow> Some a | Inl _ \<Rightarrow> None)"

lemma ack_among_Nil [simp]: "ack_among g [] = None"
  by (simp add: ack_among_def)

lemma ack_among_Cons: "ack_among g (m # ms) = (case ack_among g [m] of Some a \<Rightarrow> Some a | None \<Rightarrow> ack_among g ms)"
  by (cases m) (simp add: ack_among_def)

lemma ack_among_append:
  "ack_among g (ms @ ms') = (case ack_among g ms of Some a \<Rightarrow> Some a | None \<Rightarrow> ack_among g ms')"
proof (induction ms)
  case (Cons m ms)
  then show ?case
    using ack_among_Cons [of g m "ms @ ms'"] ack_among_Cons [of g m ms] by (simp split: option.splits)
qed simp

lemma await_within:
  assumes "documented_recv B" and "n \<le> length ms" and "length ms \<le> n + MESSAGE_CAPACITY"
  shows "await_step B g n ms =
    (if n < length ms
     then case ack_among g [ms ! n] of Some a \<Rightarrow> Call_done (Ok (Some a)) | None \<Rightarrow> Awaiting g (Suc n)
     else Awaiting g n)"
  using documented_recv_within [OF assms] by (simp add: await_step_def ack_among_def split: sum.splits)

lemma await_answered:
  assumes B: "documented_recv B"
  shows "n \<le> length ms \<Longrightarrow> length ms \<le> n + MESSAGE_CAPACITY \<Longrightarrow> message_tx (sess_channel self) = ms \<Longrightarrow>
    ack_among g (drop n ms) = Some a \<Longrightarrow>
    \<exists>k \<le> length ms - n. call_steps P B k (Awaiting g n) self = (Call_done (Ok (Some a)), self)"
proof (induction "length ms - n" arbitrary: n)
  case (Suc d)
  then have n: "n < length ms" by simp
  then have drop: "drop n ms = ms ! n # drop (Suc n) ms" by (rule Cons_nth_drop_Suc [symmetric])
  show ?case
  proof (cases "ack_among g [ms ! n]")
    case None
    then have "ack_among g (drop (Suc n) ms) = Some a"
      using Suc.prems ack_among_Cons [of g "ms ! n" "drop (Suc n) ms"] drop by simp
    moreover have "d = length ms - Suc n" using Suc.hyps(2) by simp
    ultimately obtain k where "k \<le> length ms - Suc n"
      "call_steps P B k (Awaiting g (Suc n)) self = (Call_done (Ok (Some a)), self)"
      using Suc.hyps(1) [of "Suc n"] Suc.prems n by auto
    with None n Suc.prems B show ?thesis
      by (intro exI [of _ "Suc k"]) (simp add: await_within)
  next
    case (Some b)
    then have "b = a" using Suc.prems ack_among_Cons [of g "ms ! n" "drop (Suc n) ms"] drop by simp
    with Some n Suc.prems B show ?thesis
      by (intro exI [of _ 1]) (simp add: await_within)
  qed
qed simp

text \<open>The steps of one call alone, as a part of a run.\<close>

lemma clones_run_simps [simp]:
  "clones_run P B [] s = s"
  "clones_run P B (e # es) s = clones_run P B es (clones_step P B s e)"
  by (simp_all add: clones_run_def)

lemma clones_run_alone:
  assumes "i < length (call_pcs s)"
  shows "shared (clones_run P B (replicate k (Run_call i)) s) = snd (call_steps P B k (call_pcs s ! i) (shared s)) \<and>
    call_pcs (clones_run P B (replicate k (Run_call i)) s) ! i = fst (call_steps P B k (call_pcs s ! i) (shared s))"
  using assms
proof (induction k arbitrary: s)
  case (Suc k)
  obtain c self where step: "call_step P B (call_pcs s ! i) (shared s) = (c, self)" by fastforce
  with Suc show ?case by (simp add: Suc.IH)
qed simp

lemma clones_run_sends:
  assumes "i < length (call_pcs s)"
  shows "sent (clones_run P B (replicate k (Run_call i)) s) =
    sent s @ map (Pair i) (call_sends P B k (call_pcs s ! i) (shared s))"
  using assms
proof (induction k arbitrary: s)
  case (Suc k)
  obtain c self where step: "call_step P B (call_pcs s ! i) (shared s) = (c, self)" by fastforce
  with Suc show ?case by (simp add: Suc.IH)
qed simp

text \<open>
  A call \<open>i\<close> that subscribed at \<open>n\<close> for the start of \<open>g\<close>: as long as it is within the capacity, what
  it has received does not answer the start, or it has returned with the first answer; it fails only
  when its send fails, and is then \<open>quiet\<close>, or when its timeout has \<open>expired\<close>.
\<close>

fun ack_pending :: "string \<Rightarrow> nat \<Rightarrow> bool \<Rightarrow> bool \<Rightarrow> (string \<times> EventData) list \<Rightarrow> call_pc \<Rightarrow> bool" where
  "ack_pending g n quiet expired ms (Sending e p k) = (quiet \<and> k = Then_await g n)"
| "ack_pending g n quiet expired ms (Awaiting g' n') =
     (g' = g \<and> n \<le> n' \<and> n' \<le> length ms \<and> ack_among g (take (n' - n) (drop n ms)) = None)"
| "ack_pending g n quiet expired ms (Call_done (Inr a)) = (a \<noteq> None \<and> a = ack_among g (drop n ms))"
| "ack_pending g n quiet expired ms (Call_done (Inl e)) =
     (quiet \<and> e = ChannelClosed \<or> expired \<and> e = Timeout ''response.start acknowledgement'')"
| "ack_pending g n quiet expired ms _ = False"

definition ack_inv ::
  "nat \<Rightarrow> string \<Rightarrow> nat \<Rightarrow> (string \<times> EventData) list \<Rightarrow> bool \<Rightarrow> 'c clones \<Rightarrow> bool" where
  "ack_inv i g n before expired s \<longleftrightarrow> i < length (call_pcs s) \<and> n \<le> length (broadcasts s) \<and>
     (length (broadcasts s) \<le> n + MESSAGE_CAPACITY \<longrightarrow>
        ack_pending g n (sent_by i s = before) expired (broadcasts s) (call_pcs s ! i))"

lemma call_step_broadcasts [simp]: "message_tx (sess_channel (snd (call_step P B c self))) = message_tx (sess_channel self)"
  by (cases "(P, B, c, self)" rule: call_step.cases)
    (auto simp: start_payload_plan clear_response_generation_def send_control_eq raw_send_message_def Let_def
      split: prod.splits sum.splits option.splits)

lemma clones_step_broadcasts: "\<exists>ms. broadcasts (clones_step P B s e) = broadcasts s @ ms"
proof (cases e)
  case (Run_call i)
  obtain c self where "call_step P B (call_pcs s ! i) (shared s) = (c, self)" by fastforce
  with Run_call call_step_broadcasts [of P B "call_pcs s ! i" "shared s"] show ?thesis by simp
qed (auto simp: on_channel_def split: option.splits)

lemma ack_pending_more:
  assumes "ack_pending g n q x ms c" and "n \<le> length ms"
  shows "ack_pending g n q x (ms @ ms') c"
proof -
  have "ack_among g (drop n ms @ ms') = Some a" if "ack_among g (drop n ms) = Some a" for a
    using that by (simp add: ack_among_append)
  with assms show ?thesis
    by (cases "(g, n, q, x, ms, c)" rule: ack_pending.cases) auto
qed

lemma ack_pending_expired: "ack_pending g n q x ms c \<Longrightarrow> ack_pending g n q True ms (call_expired c)"
  by (cases "(g, n, q, x, ms, c)" rule: ack_pending.cases) auto

lemma ack_pending_later: "ack_pending g n q x ms c \<Longrightarrow> ack_pending g n q (x \<or> y) ms c"
  by (cases "(g, n, q, x, ms, c)" rule: ack_pending.cases) auto

lemma take_drop_Suc: "n \<le> n' \<Longrightarrow> n' < length ms \<Longrightarrow> take (Suc n' - n) (drop n ms) = take (n' - n) (drop n ms) @ [ms ! n']"
  by (simp add: Suc_diff_le take_Suc_conv_app_nth)

lemma ack_pending_step:
  assumes B: "documented_recv B" and bound: "length ms \<le> n + MESSAGE_CAPACITY" "n \<le> length ms"
    and ms: "message_tx (sess_channel self) = ms" and c: "ack_pending g n (out = before) x ms c"
  shows "ack_pending g n (out @ emitted P c self = before) x ms (fst (call_step P B c self))"
proof (cases c)
  case (Sending e p k)
  with c bound show ?thesis
    by (cases "closed_error P (sess_channel self)") (simp_all add: send_control_eq)
next
  case (Call_done r)
  with c show ?thesis by simp
next
  case (Awaiting g' n')
  with c have n': "g' = g" "n \<le> n'" "n' \<le> length ms" and none: "ack_among g (take (n' - n) (drop n ms)) = None"
    by auto
  have step: "fst (call_step P B c self) = await_step B g n' ms" using Awaiting n' ms by simp
  show ?thesis
  proof (cases "n' < length ms")
    case True
    let ?seen = "take (n' - n) (drop n ms)"
    have drop: "drop n ms = ?seen @ ms ! n' # drop (Suc n') ms"
      using True n' append_take_drop_id [of "n' - n" "drop n ms"]
      by (simp add: Cons_nth_drop_Suc)
    have "ack_among g (?seen @ ms ! n' # drop (Suc n') ms) =
        (case ack_among g [ms ! n'] of Some a \<Rightarrow> Some a | None \<Rightarrow> ack_among g (drop (Suc n') ms))"
      using none ack_among_Cons [of g "ms ! n'" "drop (Suc n') ms"] by (simp add: ack_among_append)
    then have "ack_among g (drop n ms) =
        (case ack_among g [ms ! n'] of Some a \<Rightarrow> Some a | None \<Rightarrow> ack_among g (drop (Suc n') ms))"
      by (simp only: drop [symmetric])
    moreover have "ack_among g (take (Suc n' - n) (drop n ms)) = ack_among g [ms ! n']"
      using True n' none by (simp add: take_drop_Suc ack_among_append)
    ultimately show ?thesis
      using True n' bound await_within [OF B, of n' ms g] unfolding step
      by (auto split: option.splits)
  next
    case False
    with n' none bound show ?thesis unfolding step by (simp add: await_within [OF B])
  qed
qed (use c in auto)

lemma clones_step_ack:
  assumes B: "documented_recv B" and inv: "ack_inv i g n before x s"
  shows "ack_inv i g n before (x \<or> e = Expire_call i) (clones_step P B s e)"
proof -
  let ?s = "clones_step P B s e" and ?x = "x \<or> e = Expire_call i"
  obtain ms where ms: "broadcasts ?s = broadcasts s @ ms" using clones_step_broadcasts by blast
  have "ack_pending g n (sent_by i ?s = before) ?x (broadcasts s) (call_pcs ?s ! i)"
    if "length (broadcasts s) \<le> n + MESSAGE_CAPACITY"
  proof -
    from inv that have i: "i < length (call_pcs s)" and n: "n \<le> length (broadcasts s)"
      and c: "ack_pending g n (sent_by i s = before) x (broadcasts s) (call_pcs s ! i)"
      by (auto simp: ack_inv_def)
    show ?thesis
    proof (cases e)
      case (Run_call j)
      with i c ack_pending_step [OF B that n refl c, of P] show ?thesis
        by (cases "j = i") (auto split: prod.splits)
    next
      case (Expire_call j)
      with i c show ?thesis by (auto simp: nth_list_update intro: ack_pending_expired)
    qed (use i c in \<open>auto simp: nth_append\<close>)
  qed
  moreover have "length (call_pcs s) \<le> length (call_pcs ?s)"
    by (cases e) (auto split: prod.splits)
  ultimately show ?thesis
    using inv ms ack_pending_more by (fastforce simp: ack_inv_def)
qed

lemma clones_run_ack:
  "documented_recv B \<Longrightarrow> ack_inv i g n before x s \<Longrightarrow>
   ack_inv i g n before (x \<or> Expire_call i \<in> set es) (clones_run P B es s)"
proof (induction es arbitrary: x s)
  case (Cons e es)
  from Cons.IH [OF Cons.prems(1) clones_step_ack [OF Cons.prems, of e P]] show ?case
    by (simp add: disj_assoc eq_commute [of e])
qed simp

text \<open>The evaluation of a run on a channel that is open.\<close>

lemmas call_eval =
  clones_new_def start_payload_plan start_message_def plan_id_def plan_started_def with_id_def delta_of_def
  thread_generation_def add_response_generation_def clear_response_generation_def explicit_generation_def
  send_control_open

text \<open>
  Two schedules: a text response that starts while another one is between its start and its delta,
  and a start while a cancellation is between its two sections under the lock.
\<close>

definition mix_events :: "string \<Rightarrow> string \<Rightarrow> string \<Rightarrow> string \<Rightarrow> 'c clones_event list" where
  "mix_events u a v b = [Invoke (Call_text u a None False), Invoke (Call_text v b None False),
     Run_call 0, Run_call 0, Run_call 1, Run_call 1, Run_call 0, Run_call 0, Run_call 0, Run_call 0,
     Run_call 1, Run_call 1, Run_call 1, Run_call 1]"

definition cancel_race_events :: "string \<Rightarrow> string \<Rightarrow> string \<Rightarrow> 'c clones_event list" where
  "cancel_race_events u v a =
     [Invoke (Call_start u None), Run_call 0, Run_call 0, Invoke (Call_cancel None), Run_call 1,
      Invoke (Call_start v None), Run_call 2, Run_call 2, Run_call 1, Run_call 1,
      Invoke (Call_append a None), Run_call 3, Run_call 3]"

lemma no_options_payload [simp]: "response_options_payload None = fmempty"
  by (simp add: response_options_payload_def)

lemma mix_eval:
  assumes "\<And>ch. closed_error P ch = None"
    and "i = String (format_generation (counter (response_generation self) + 1) u)"
    and "j = String (format_generation (counter (response_generation self) + 2) v)"
  shows "invoked (clones_run P B (mix_events u a v b) (clones_new self)) =
      [Call_text u a None False, Call_text v b None False]"
    and "call_pcs (clones_run P B (mix_events u a v b) (clones_new self)) = [Call_done (Ok None), Call_done (Ok None)]"
    and "sent (clones_run P B (mix_events u a v b) (clones_new self)) =
      [(0, ''response.start'', put ''generation_id'' i fmempty), (1, ''response.start'', put ''generation_id'' j fmempty),
       (0, ''response.delta'', put ''generation_id'' j (put ''delta'' (String a) fmempty)),
       (0, ''response.commit'', put ''generation_id'' j fmempty),
       (1, ''response.delta'', put ''generation_id'' j (put ''delta'' (String b) fmempty)),
       (1, ''response.commit'', put ''generation_id'' j fmempty)]"
  by (simp_all add: mix_events_def call_eval assms add.commute)

lemma cancel_race_eval:
  assumes "\<And>ch. closed_error P ch = None"
    and "i = String (format_generation (counter (response_generation self) + 1) u)"
    and "j = String (format_generation (counter (response_generation self) + 2) v)"
  shows "invoked (clones_run P B (cancel_race_events u v a) (clones_new self)) =
      [Call_start u None, Call_cancel None, Call_start v None, Call_append a None]"
    and "call_pcs (clones_run P B (cancel_race_events u v a) (clones_new self)) = replicate 4 (Call_done (Ok None))"
    and "sent (clones_run P B (cancel_race_events u v a) (clones_new self)) =
      [(0, ''response.start'', put ''generation_id'' i fmempty), (2, ''response.start'', put ''generation_id'' j fmempty),
       (1, ''response.cancel'', put ''generation_id'' i fmempty),
       (3, ''response.delta'', put ''delta'' (String a) fmempty)]"
  by (simp_all add: cancel_race_events_def call_eval assms add.commute eval_nat_numeral)

section \<open>Properties\<close>

text \<open>
  C9. A call that is not interrupted is atomic and does what is planned for its command: made in any
  state and run alone, it has returned after at most six shared operations (a start that waits for
  its acknowledgement when its timeout expires). It has put the planned messages on the channel, in
  order and under its own number, has left the planned generation and nothing else, and returns the
  planned answer; on a channel that closes it has sent the messages before that, and returns
  \<open>ChannelClosed\<close>.
\<close>

theorem uninterrupted_call:
  "\<exists>k \<le> 6. \<exists>s' ms. s' = clones_run P B (Invoke c # replicate k (Run_call (length (call_pcs s)))) s \<and>
     sent s' = sent s @ map (Pair (length (call_pcs s))) ms \<and>
     shared s' = (shared s)\<lparr>sess_channel := (sess_channel (shared s))\<lparr>channel :=
         sent_on P ms (channel (sess_channel (shared s)))\<rparr>,
       response_generation := snd (plan (as_command c) (response_generation (shared s)))\<rparr> \<and>
     (if ms = fst (plan (as_command c) (response_generation (shared s)))
      then call_answer (call_expired (call_pcs s' ! length (call_pcs s))) =
        Some (plan_answer (as_command c) (response_generation (shared s')))
      else strict_prefix ms (fst (plan (as_command c) (response_generation (shared s)))) \<and>
        closed_error P (sess_channel (shared s')) \<noteq> None \<and>
        call_pcs s' ! length (call_pcs s) = Call_done (Err ChannelClosed))"
proof -
  let ?s = "clones_step P B s (Invoke c)" and ?k = "alone_steps c" and ?i = "length (call_pcs s)"
  let ?s' = "clones_run P B (replicate ?k (Run_call ?i)) ?s"
  let ?plan = "plan (as_command c) (response_generation (shared s))"
  let ?ms = "accepted_by P (fst ?plan) (sess_channel (shared s))"
  have start: "call_pcs ?s ! ?i = Called c" "shared ?s = shared s" "?i < length (call_pcs ?s)" "sent ?s = sent s"
    by (simp_all add: nth_append)
  note ran = clones_run_alone [OF start(3), of P B ?k, unfolded start]
  have sent: "sent ?s' = sent s @ map (Pair ?i) ?ms"
    using clones_run_sends [OF start(3), of P B ?k] by (simp only: start alone_sends)
  have alone: "map_prod (call_answer \<circ> call_expired) id (call_steps P B ?k (Called c) (shared s)) =
      map_prod Some id (refined P (as_command c) (shared s))"
    by (simp only: alone_exec exec_refined)
  have shared: "shared ?s' = (shared s)\<lparr>sess_channel := (sess_channel (shared s))\<lparr>channel :=
      sent_on P ?ms (channel (sess_channel (shared s)))\<rparr>, response_generation := snd ?plan\<rparr>"
    using ran alone by (simp add: refined_def send_seq_accepted map_prod_def case_prod_beta Let_def)
  have answer: "call_answer (call_expired (call_pcs ?s' ! ?i)) =
      Some (if ?ms = fst ?plan then plan_answer (as_command c) (snd ?plan) else Err ChannelClosed)"
    using ran alone by (simp add: refined_def send_seq_accepted map_prod_def case_prod_beta Let_def split: if_splits)
  have failed: "call_pcs ?s' ! ?i = Call_done (Err ChannelClosed)" if "?ms \<noteq> fst ?plan"
    using answer that by (intro closed_answer) simp
  show ?thesis
  proof (rule exI [of _ ?k], intro conjI exI)
    show "?k \<le> 6" by (cases c) simp_all
    show "?s' = clones_run P B (Invoke c # replicate ?k (Run_call ?i)) s" by simp
    have "closed_error P (sess_channel (shared ?s')) \<noteq> None" if "?ms \<noteq> fst ?plan"
      using accepted_stopped [OF that] unfolding shared by simp
    moreover have "strict_prefix ?ms (fst ?plan)" if "?ms \<noteq> fst ?plan"
      using accepted_prefix [of P "fst ?plan" "sess_channel (shared s)"] that by (simp add: strict_prefix_def)
    moreover have "response_generation (shared ?s') = snd ?plan" unfolding shared by simp
    ultimately show "if ?ms = fst ?plan
      then call_answer (call_expired (call_pcs ?s' ! ?i)) = Some (plan_answer (as_command c) (response_generation (shared ?s')))
      else strict_prefix ?ms (fst ?plan) \<and> closed_error P (sess_channel (shared ?s')) \<noteq> None \<and>
        call_pcs ?s' ! ?i = Call_done (Err ChannelClosed)"
      using answer failed by simp
  qed (use sent shared in simp_all)
qed

text \<open>
  C8. Calls that name their generation do not disturb each other: in every interleaving of call_pcs on
  the clones of a session, what such a call (or one that only sends, or a replacement) has put on
  the channel is a first part of what it sends on its own, and all of it once it has returned
  without error.
\<close>

theorem calls_isolated:
  assumes "s = clones_run P B es (clones_new self)" and "i < length (call_pcs s)" and "isolated (invoked s ! i)"
  shows "prefix (sent_by i s) (fst (plan (as_command (invoked s ! i)) g)) \<and>
    (call_pcs s ! i = Call_done (Ok a) \<longrightarrow> sent_by i s = fst (plan (as_command (invoked s ! i)) g))"
proof -
  have "follows g (invoked s ! i) (call_pcs s ! i) (sent_by i s)"
    using clones_run_isolation [of g P B es self] assms by (simp add: isolation_inv_def)
  with assms(3) show ?thesis by (auto simp: follows_def intro: append_eq_prefix split: if_splits)
qed

text \<open>
  C11. Starts that leave the identifier to the session never share one, also when they run at the same
  time on several clones: in every interleaving of at most \<open>2 ^ 64\<close> call_pcs, the start messages of
  two calls carry different identifiers, even if the random parts are equal.
\<close>

theorem concurrent_ids_distinct:
  assumes "s = clones_run P B es (clones_new self)" and "length (call_pcs s) \<le> 2 ^ 64"
    and "draws (invoked s ! i) \<noteq> None" and "draws (invoked s ! j) \<noteq> None" and "i \<noteq> j"
    and "(i, ''response.start'', p) \<in> set (sent s)" and "(j, ''response.start'', q) \<in> set (sent s)"
  shows "get p ''generation_id'' \<noteq> get q ''generation_id''"
proof -
  let ?n = "counter (response_generation self)"
  have inv: "numbering_inv ?n s" using clones_run_numbering assms(1) by metis
  then have size: "length (started s) \<le> 2 ^ 64"
    using assms(2) card_mono [of "{..<length (call_pcs s)}" "set (started s)"]
    by (auto simp: numbering_inv_def distinct_card)
  have id: "\<exists>k u. k < length (started s) \<and> started s ! k = m \<and>
      get r ''generation_id'' = Some (String (format_generation (?n + of_nat (Suc k)) u))"
    if "draws (invoked s ! m) \<noteq> None" "(m, ''response.start'', r) \<in> set (sent s)" for m r
  proof -
    from inv that have m: "m < length (call_pcs s)" by (auto simp: numbering_inv_def)
    have "(''response.start'', r) \<in> set (sent_by m s)"
      using that(2) by (force simp: sent_by_def)
    with inv m that(1) show ?thesis
      by (fastforce simp: numbering_inv_def numbered_def id_at_def starts_carry_def split: if_splits)
  qed
  from id [OF assms(3,6)] id [OF assms(4,7)] obtain k u l v where
    k: "k < length (started s)" "started s ! k = i"
      "get p ''generation_id'' = Some (String (format_generation (?n + of_nat (Suc k)) u))" and
    l: "l < length (started s)" "started s ! l = j"
      "get q ''generation_id'' = Some (String (format_generation (?n + of_nat (Suc l)) v))"
    by blast
  from k l assms(5) have "k \<noteq> l" by auto
  moreover have "(of_nat k :: u64) \<noteq> of_nat l"
    using k(1) l(1) size \<open>k \<noteq> l\<close> by (simp add: of_nat_u64_inject)
  ultimately show ?thesis using k(3) l(3) by (simp add: format_generation_inject)
qed

text \<open>
  C14. The acknowledgement of a start is not missed: the call subscribes before it sends, so whatever is
  broadcast from then on, also before the send has returned, is seen. While at most 1024 messages
  have come, among them one that answers its generation, the call is sending, or is waiting and
  returns with the first such message as soon as it has received it, or has returned: with that
  acknowledgement, or with \<open>ChannelClosed\<close> and nothing sent, or with \<open>Timeout\<close> after the expiry of its
  timeout.
\<close>

theorem start_ack_seen:
  assumes "documented_recv B" and "i < length (call_pcs s)" and "call_pcs s ! i = Subscribing g p"
    and "s' = clones_run P B (Run_call i # es) s"
    and "broadcasts s' = broadcasts s @ new" and "length new \<le> 1024" and "ack_among g new = Some a"
  shows "(case call_pcs s' ! i of
      Sending _ _ _ \<Rightarrow> sent_by i s' = sent_by i s
    | Awaiting _ _ \<Rightarrow>
        \<exists>k \<le> 1024. call_pcs (clones_run P B (replicate k (Run_call i)) s') ! i = Call_done (Ok (Some a))
    | Call_done r \<Rightarrow> r = Ok (Some a) \<or> r = Err ChannelClosed \<and> sent_by i s' = sent_by i s \<or>
        r = Err (Timeout ''response.start acknowledgement'') \<and> Expire_call i \<in> set es
    | _ \<Rightarrow> False)"
proof -
  let ?n = "length (broadcasts s)" and ?x = "Expire_call i \<in> set es"
  have "ack_inv i g ?n (sent_by i s) False (clones_step P B s (Run_call i))"
    using assms(2,3) by (simp add: ack_inv_def raw_subscribe_messages_def)
  then have inv: "ack_inv i g ?n (sent_by i s) ?x s'"
    using clones_run_ack [OF assms(1), of i g ?n "sent_by i s" False _ es P] assms(4)
    by (simp only: clones_run_simps) simp
  then have i: "i < length (call_pcs s')" by (simp add: ack_inv_def)
  have bound: "length (broadcasts s') \<le> ?n + MESSAGE_CAPACITY"
    using assms(5,6) by (simp add: MESSAGE_CAPACITY_def)
  with inv have pending: "ack_pending g ?n (sent_by i s' = sent_by i s) ?x (broadcasts s') (call_pcs s' ! i)"
    by (simp add: ack_inv_def)
  have new: "drop ?n (broadcasts s') = new" using assms(5) by simp
  have "\<exists>k \<le> 1024. call_pcs (clones_run P B (replicate k (Run_call i)) s') ! i = Call_done (Ok (Some a))"
    if "call_pcs s' ! i = Awaiting g' n" for g' n
  proof -
    from pending that have n: "g' = g" "?n \<le> n" "n \<le> length (broadcasts s')"
      and none: "ack_among g (take (n - ?n) new) = None"
      using new by auto
    have "new = take (n - ?n) new @ drop n (broadcasts s')"
      using n new append_take_drop_id [of "n - ?n" new] by (metis drop_drop le_add_diff_inverse2)
    then have "ack_among g (drop n (broadcasts s')) = Some a"
      using assms(7) none ack_among_append [of g "take (n - ?n) new" "drop n (broadcasts s')"] by simp
    from await_answered [OF assms(1) n(3) _ refl this, of P] bound n obtain k where
      k: "k \<le> length (broadcasts s') - n"
        "call_steps P B k (Awaiting g n) (shared s') = (Call_done (Ok (Some a)), shared s')"
      by auto
    have "k \<le> 1024" using k(1) n(2) assms(5,6) by simp
    with k(2) that n(1) clones_run_alone [OF i, of P B k] show ?thesis by auto
  qed
  with pending new assms(7) show ?thesis by (auto split: call_pc.split sum.splits elim: ack_pending.elims)
qed

text \<open>
  C31. Two text responses that leave their identifiers to the session can mix: when the second starts
  between the start and the delta of the first, the text of the first is sent as a delta of the
  second, and both of them return without error.
\<close>

theorem text_responses_mix:
  assumes "\<And>ch. closed_error P ch = None"
  shows "\<exists>es s p q q'. s = clones_run P B es (clones_new self) \<and>
    invoked s = [Call_text u a None False, Call_text v b None False] \<and>
    call_pcs s = [Call_done (Ok None), Call_done (Ok None)] \<and>
    (0, ''response.start'', q') \<in> set (sent s) \<and> (0, ''response.delta'', p) \<in> set (sent s) \<and>
    (1, ''response.start'', q) \<in> set (sent s) \<and> get p ''delta'' = Some (String a) \<and>
    get p ''generation_id'' = get q ''generation_id'' \<and>
    get p ''generation_id'' \<noteq> get q' ''generation_id''"
proof -
  let ?id = "\<lambda>x. put ''generation_id'' (String x)"
  let ?i = "format_generation (counter (response_generation self) + 1) u"
  let ?j = "format_generation (counter (response_generation self) + 2) v"
  have "?i \<noteq> ?j" by (simp add: format_generation_inject)
  then show ?thesis
    by (intro exI [of _ "mix_events u a v b"] exI [of _ "clones_run P B (mix_events u a v b) (clones_new self)"]
        exI [of _ "?id ?j (put ''delta'' (String a) fmempty)"] exI [of _ "?id ?j fmempty"]
        exI [of _ "?id ?i fmempty"]) (simp add: mix_eval [OF assms refl refl])
qed

text \<open>
  C32. A cancellation reads and clears the tracked identifier in two sections under the lock, and a start
  fits between them: the cancellation of the first response makes the session forget the second,
  so that a delta for it, sent when every call before has returned, carries no identifier.
\<close>

theorem cancel_forgets_concurrent_start:
  assumes "\<And>ch. closed_error P ch = None"
  shows "\<exists>es s p q r. s = clones_run P B es (clones_new self) \<and>
    invoked s = [Call_start u None, Call_cancel None, Call_start v None, Call_append a None] \<and>
    call_pcs s = replicate 4 (Call_done (Ok None)) \<and>
    sent s = [(0, ''response.start'', p), (2, ''response.start'', q), (1, ''response.cancel'', r),
      (3, ''response.delta'', put ''delta'' (String a) fmempty)] \<and>
    get r ''generation_id'' = get p ''generation_id'' \<and> get r ''generation_id'' \<noteq> get q ''generation_id''"
proof -
  let ?id = "\<lambda>x. put ''generation_id'' (String x)"
  let ?i = "format_generation (counter (response_generation self) + 1) u"
  let ?j = "format_generation (counter (response_generation self) + 2) v"
  have "?i \<noteq> ?j" by (simp add: format_generation_inject)
  then show ?thesis
    by (intro exI [of _ "cancel_race_events u v a"]
        exI [of _ "clones_run P B (cancel_race_events u v a) (clones_new self)"]
        exI [of _ "?id ?i fmempty"] exI [of _ "?id ?j fmempty"] exI [of _ "?id ?i fmempty"])
      (simp add: cancel_race_eval [OF assms refl refl])
qed

section \<open>Witnesses\<close>

text \<open>A receiver that keeps the last messages up to the capacity.\<close>

definition plain_recv :: "'m receiver" where
  "plain_recv cap n ms =
     (if length ms \<le> n + cap then (if n < length ms then Some (Received (ms ! n), Suc n) else None)
      else Some (Lagged (of_nat (length ms - cap - n)), length ms - cap))"

lemma plain_recv_documented: "documented_recv plain_recv"
  by (auto simp: documented_recv_def plain_recv_def)

lemma open_log_open: "closed_error open_log ch = None"
  by (simp add: closed_error_eq open_log_def)

definition named_start :: session_call where
  "named_start = Call_start ''u'' (Some (default_response_options\<lparr>opt_generation_id := Some ''mine''\<rparr>))"

definition mixed_run :: "(PondChannelState \<times> (string \<times> EventData option) list) clones_event list" where
  "mixed_run = [Invoke named_start, Invoke (Call_start ''u'' None), Invoke (Call_start ''u'' None),
     Run_call 1, Run_call 0, Run_call 2, Run_call 2, Run_call 0, Run_call 1]"

definition mixed_clones :: "(PondChannelState \<times> (string \<times> EventData option) list) clones" where
  "mixed_clones = clones_run open_log plain_recv mixed_run (clones_new (log_session PondJoined))"

lemma mixed_clones_eval:
  "call_pcs mixed_clones = replicate 3 (Call_done (Ok None))"
  "invoked mixed_clones = [named_start, Call_start ''u'' None, Call_start ''u'' None]"
  "sent mixed_clones =
    [(2, ''response.start'', put ''generation_id'' (String (format_generation 3 ''u'')) fmempty),
     (0, ''response.start'', put ''generation_id'' (String ''mine'') fmempty),
     (1, ''response.start'', put ''generation_id'' (String (format_generation 1 ''u'')) fmempty)]"
  by (simp_all add: mixed_clones_def mixed_run_def named_start_def call_eval open_log_open eval_nat_numeral
      response_options_payload_def insert_opt_def default_response_options_def log_session_def control_session_new_def)

lemma calls_isolated_witness:
  "sent_by 0 mixed_clones = fst (plan (as_command named_start) \<lparr>counter = 7, current_id = None\<rparr>)"
proof -
  have "isolated (invoked mixed_clones ! 0)" and "0 < length (call_pcs mixed_clones)"
    by (simp_all add: mixed_clones_eval named_start_def explicit_generation_def)
  from calls_isolated [OF mixed_clones_def this(2,1)] show ?thesis by (simp add: mixed_clones_eval)
qed

lemma concurrent_ids_distinct_witness: "format_generation 1 ''u'' \<noteq> format_generation 3 ''u''"
proof -
  have "get (put ''generation_id'' (String (format_generation 1 ''u'')) fmempty) ''generation_id'' \<noteq>
      get (put ''generation_id'' (String (format_generation 3 ''u'')) fmempty) ''generation_id''"
    by (rule concurrent_ids_distinct [OF mixed_clones_def, of 1 2])
      (simp_all add: mixed_clones_eval explicit_generation_def)
  then show ?thesis by simp
qed

text \<open>A start whose acknowledgement arrives before its send has returned, after another message.\<close>

definition subscribing :: "(PondChannelState \<times> (string \<times> EventData option) list) clones" where
  "subscribing = (clones_new (log_session PondJoined))\<lparr>call_pcs := [Subscribing ''g'' fmempty]\<rparr>"

definition ack_messages :: "(string \<times> EventData) list" where
  "ack_messages = [(EVENT_RESPONSE_CREATED, fmempty),
     (EVENT_RESPONSE_CREATED, put ''generation_id'' (String ''g'') fmempty)]"

definition early_ack :: "(PondChannelState \<times> (string \<times> EventData option) list) clones_event list" where
  "early_ack = map (\<lambda>(e, p). Mirror_event (ChannelMessage e p)) ack_messages @ [Run_call 0]"

lemma start_ack_seen_witness:
  "\<exists>k a. call_pcs (clones_run open_log plain_recv (replicate k (Run_call 0))
      (clones_run open_log plain_recv (Run_call 0 # early_ack) subscribing)) ! 0 = Call_done (Ok (Some a)) \<and> accepted a"
proof -
  define s where "s = clones_run open_log plain_recv (Run_call 0 # early_ack) subscribing"
  obtain a where a: "ack_among ''g'' ack_messages = Some a" "accepted a"
    by (simp add: ack_among_def ack_messages_def optional_nonempty_string_def)
  have waiting: "call_pcs s ! 0 = Awaiting ''g'' 0" and all: "broadcasts s = broadcasts subscribing @ ack_messages"
    by (simp_all add: s_def early_ack_def ack_messages_def subscribing_def call_eval open_log_open on_channel_def
        raw_subscribe_messages_def log_session_def control_session_new_def raw_channel_new_def)
  have sub: "0 < length (call_pcs subscribing)" "call_pcs subscribing ! 0 = Subscribing ''g'' fmempty"
    and short: "length ack_messages \<le> 1024"
    by (simp_all add: subscribing_def ack_messages_def)
  from start_ack_seen [OF plain_recv_documented sub s_def all short a(1)] waiting obtain k where
    "call_pcs (clones_run open_log plain_recv (replicate k (Run_call 0)) s) ! 0 = Call_done (Ok (Some a))" by auto
  with a(2) show ?thesis unfolding s_def by blast
qed

lemma text_responses_mix_witness:
  "\<exists>es s p. s = clones_run open_log plain_recv es (clones_new (log_session PondJoined)) \<and>
    (0, ''response.delta'', p) \<in> set (sent s) \<and> get p ''delta'' = Some (String ''hello'')"
  using text_responses_mix [where u = "''u''" and v = "''v''" and b = "''bye''" and B = plain_recv and
      self = "log_session PondJoined", OF open_log_open, of "''hello''"] by blast

lemma cancel_forgets_concurrent_start_witness:
  "\<exists>es s. s = clones_run open_log plain_recv es (clones_new (log_session PondJoined)) \<and>
    (3, ''response.delta'', put ''delta'' (String ''hello'') fmempty) \<in> set (sent s)"
proof -
  obtain es s p q r where s: "s = clones_run open_log plain_recv es (clones_new (log_session PondJoined))"
    "sent s = [(0, ''response.start'', p), (2, ''response.start'', q), (1, ''response.cancel'', r),
      (3, ''response.delta'', put ''delta'' (String ''hello'') fmempty)]"
    using cancel_forgets_concurrent_start [where u = "''u''" and v = "''v''" and B = plain_recv and
        self = "log_session PondJoined", OF open_log_open, of "''hello''"] by blast
  then show ?thesis by (intro exI [of _ es] exI [of _ s]) simp
qed

end
