(* ===== verification/Vox_Client.thy ===== *)
theory Vox_Client
  imports Vox_Session
begin

text \<open>
  The server client, \<open>src/rust/rtcserver/src/client.rs\<close>: its options and their normalisation,
  the connection with its wait, the creation of a session over HTTP and the attachment of a
  control session to its channel.

  What comes from outside is an argument: the PondSocket client (\<open>K\<close>, \<open>P\<close>), the HTTP client
  (\<open>H\<close>), the value of the environment variable, the decoding of the session bootstrap, and what
  the awaited channels deliver.
\<close>

section \<open>Options\<close>

record VoxRtcServerClientOptions =
  co_http_base :: string
  co_api_key :: "string option"
  co_socket_base :: "string option"
  co_socket_params :: EventData
  co_connection_timeout :: duration
  co_max_reconnect_delay :: duration
  co_request_timeout :: duration
  co_join_timeout :: duration

definition client_options_new :: "string \<Rightarrow> VoxRtcServerClientOptions" where
  "client_options_new base =
     \<lparr>co_http_base = base, co_api_key = None, co_socket_base = None, co_socket_params = fmempty,
      co_connection_timeout = from_secs 10, co_max_reconnect_delay = from_secs 30,
      co_request_timeout = from_secs 15, co_join_timeout = from_secs 10\<rparr>"

record SessionOptions =
  so_join_timeout :: "duration option"

definition normalize_base :: "string \<Rightarrow> string" where
  "normalize_base base = trim_end_matches (CHR ''/'') base"

definition default_socket_base :: "string \<Rightarrow> string" where
  "default_socket_base base = normalize_base base @ ''/v1/socket''"

definition socket_params_with_api_key :: "EventData \<Rightarrow> string option \<Rightarrow> EventData" where
  "socket_params_with_api_key ps key =
     (case key of Some k \<Rightarrow> put ''api_key'' (String k) ps | None \<Rightarrow> ps)"

section \<open>The HTTP client as seen from here\<close>

text \<open>
  \<open>http_build\<close> makes a client with a timeout; \<open>http_post\<close> sends a JSON body to a URL with an
  optional bearer token and gives the status and the outcome of reading the body. Errors are
  their text.
\<close>

record 'h http_client =
  http_build :: "duration \<Rightarrow> ('h, string) result"
  http_post :: "'h \<Rightarrow> string \<Rightarrow> Value \<Rightarrow> string option \<Rightarrow> (nat \<times> (string, string) result, string) result"

text \<open>\<open>StatusCode::is_success\<close>: 200 to 299.\<close>

definition is_success :: "nat \<Rightarrow> bool" where
  "is_success n \<longleftrightarrow> 200 \<le> n \<and> n < 300"

section \<open>The client\<close>

record ('k, 'h) VoxRtcServerClient =
  http_base :: string
  api_key :: "string option"
  socket_base :: string
  http :: 'h
  socket :: "'k RawSocketClient"
  connection_timeout :: duration
  join_timeout :: duration

record 'c ControlledSession =
  bootstrap :: SessionBootstrap
  controlled_session :: "'c VoxRtcControlSession"

definition resolve_api_key :: "string option \<Rightarrow> string option \<Rightarrow> string option" where
  "resolve_api_key given env =
     opt_filter (\<lambda>v. v \<noteq> []) (map_option trim (case given of Some k \<Rightarrow> Some k | None \<Rightarrow> env))"

definition with_options ::
  "('k, 'c) pond_client \<Rightarrow> 'h http_client \<Rightarrow> string option \<Rightarrow> VoxRtcServerClientOptions
     \<Rightarrow> ('k, 'h) VoxRtcServerClient Result" where
  "with_options K H env options =
     (let base = normalize_base (co_http_base options);
          key = resolve_api_key (co_api_key options) env;
          sbase = (case co_socket_base options of
                     Some b \<Rightarrow> normalize_base b
                   | None \<Rightarrow> default_socket_base base);
          ps = socket_params_with_api_key (co_socket_params options) key
      in case http_build H (co_request_timeout options) of
           Inl e \<Rightarrow> Err (Http e)
         | Inr h \<Rightarrow>
             (case raw_client_new K sbase ps (co_connection_timeout options) (co_max_reconnect_delay options) of
                Inl e \<Rightarrow> Err e
              | Inr s \<Rightarrow> Ok
                  \<lparr>http_base = base, api_key = key, socket_base = sbase, http = h, socket = s,
                   connection_timeout = co_connection_timeout options,
                   join_timeout = co_join_timeout options\<rparr>))"

definition client_new ::
  "('k, 'c) pond_client \<Rightarrow> 'h http_client \<Rightarrow> string option \<Rightarrow> string
     \<Rightarrow> ('k, 'h) VoxRtcServerClient Result" where
  "client_new K H env base = with_options K H env (client_options_new base)"

definition client_connection_state ::
  "('k, 'c) pond_client \<Rightarrow> ('k, 'h) VoxRtcServerClient \<Rightarrow> ConnectionState" where
  "client_connection_state K self = raw_state K (socket self)"

text \<open>The wait for the connection, inside its timeout.\<close>

fun connect_loop :: "ConnectionState \<Rightarrow> ConnectionState watch_wait list \<Rightarrow> unit Result" where
  "connect_loop st ws =
     (if st = Connected then Ok ()
      else case ws of
             [] \<Rightarrow> Err (Timeout ''PondSocket connection'')
           | Changed st' # ws' \<Rightarrow> connect_loop st' ws'
           | Sender_dropped # _ \<Rightarrow> Err DisconnectedError
           | Deadline # _ \<Rightarrow> Err (Timeout ''PondSocket connection''))"

declare connect_loop.simps [simp del]

definition client_connect ::
  "('k, 'c) pond_client \<Rightarrow> ConnectionState watch_wait list \<Rightarrow> ('k, 'h) VoxRtcServerClient
     \<Rightarrow> unit Result \<times> ('k, 'h) VoxRtcServerClient" where
  "client_connect K ws self =
     (if raw_state K (socket self) = Connected then (Ok (), self)
      else case raw_connect K (socket self) of
             (Inl e, s) \<Rightarrow> (Err e, self\<lparr>socket := s\<rparr>)
           | (Inr _, s) \<Rightarrow> (connect_loop (conn_tx s) ws, self\<lparr>socket := s\<rparr>))"

definition client_disconnect ::
  "('k, 'c) pond_client \<Rightarrow> ('k, 'h) VoxRtcServerClient \<Rightarrow> ('k, 'h) VoxRtcServerClient" where
  "client_disconnect K self = self\<lparr>socket := raw_disconnect K (socket self)\<rparr>"

definition create_session ::
  "'h http_client \<Rightarrow> (string \<Rightarrow> (SessionBootstrap, string) result) \<Rightarrow> ('k, 'h) VoxRtcServerClient
     \<Rightarrow> SessionBootstrap Result" where
  "create_session H from_str self =
     (case http_post H (http self) (http_base self @ ''/v1/rtc/sessions'') (json []) (api_key self) of
        Inl e \<Rightarrow> Err (Http e)
      | Inr (code, Inl e) \<Rightarrow> Err (Http e)
      | Inr (code, Inr body) \<Rightarrow>
          (if \<not> is_success code then Err (CreateSessionFailed code body)
           else case from_str body of
                  Inl e \<Rightarrow> Err (Json e)
                | Inr b \<Rightarrow> Ok b))"

definition resolve_join_timeout :: "('k, 'h) VoxRtcServerClient \<Rightarrow> SessionOptions \<Rightarrow> duration" where
  "resolve_join_timeout self options = unwrap_or (join_timeout self) (so_join_timeout options)"

text \<open>What the awaits of an attachment deliver: the connection's, then the join's.\<close>

record attach_waits =
  connection_waits :: "ConnectionState watch_wait list"
  declined_with :: "EventData option"
  first_state :: ChannelState
  join_waits :: "ChannelState watch_wait list"

definition attach_session_with_options ::
  "('k, 'c) pond_client \<Rightarrow> 'c pond_channel \<Rightarrow> (Value \<Rightarrow> string) \<Rightarrow> attach_waits \<Rightarrow> string \<Rightarrow> SessionOptions
     \<Rightarrow> ('k, 'h) VoxRtcServerClient \<Rightarrow> 'c VoxRtcControlSession Result \<times> ('k, 'h) VoxRtcServerClient" where
  "attach_session_with_options K P to_string aw sid options self =
     (case client_connect K (connection_waits aw) self of
        (Inl e, self1) \<Rightarrow> (Err e, self1)
      | (Inr _, self1) \<Rightarrow>
          (let (ch, s) = raw_create_channel K P (''/rtc/'' @ sid) fmempty (socket self1);
               self2 = self1\<lparr>socket := s\<rparr>;
               sess = control_session_new ch sid (resolve_join_timeout self2 options)
           in case session_join P to_string (declined_with aw) (first_state aw) (join_waits aw) sess of
                (Inl e, _) \<Rightarrow> (Err e, self2)
              | (Inr _, sess') \<Rightarrow> (Ok sess', self2)))"

definition attach_session ::
  "('k, 'c) pond_client \<Rightarrow> 'c pond_channel \<Rightarrow> (Value \<Rightarrow> string) \<Rightarrow> attach_waits \<Rightarrow> string
     \<Rightarrow> ('k, 'h) VoxRtcServerClient \<Rightarrow> 'c VoxRtcControlSession Result \<times> ('k, 'h) VoxRtcServerClient" where
  "attach_session K P to_string aw sid self =
     attach_session_with_options K P to_string aw sid \<lparr>so_join_timeout = None\<rparr> self"

definition create_controlled_session_with_options ::
  "('k, 'c) pond_client \<Rightarrow> 'c pond_channel \<Rightarrow> 'h http_client \<Rightarrow> (Value \<Rightarrow> string)
     \<Rightarrow> (string \<Rightarrow> (SessionBootstrap, string) result) \<Rightarrow> attach_waits \<Rightarrow> SessionOptions
     \<Rightarrow> ('k, 'h) VoxRtcServerClient \<Rightarrow> 'c ControlledSession Result \<times> ('k, 'h) VoxRtcServerClient" where
  "create_controlled_session_with_options K P H to_string from_str aw options self =
     (case create_session H from_str self of
        Inl e \<Rightarrow> (Err e, self)
      | Inr b \<Rightarrow>
          (case attach_session_with_options K P to_string aw (boot_session_id b) options self of
             (Inl e, self') \<Rightarrow> (Err e, self')
           | (Inr sess, self') \<Rightarrow> (Ok \<lparr>bootstrap = b, controlled_session = sess\<rparr>, self')))"

definition create_controlled_session ::
  "('k, 'c) pond_client \<Rightarrow> 'c pond_channel \<Rightarrow> 'h http_client \<Rightarrow> (Value \<Rightarrow> string)
     \<Rightarrow> (string \<Rightarrow> (SessionBootstrap, string) result) \<Rightarrow> attach_waits
     \<Rightarrow> ('k, 'h) VoxRtcServerClient \<Rightarrow> 'c ControlledSession Result \<times> ('k, 'h) VoxRtcServerClient" where
  "create_controlled_session K P H to_string from_str aw self =
     create_controlled_session_with_options K P H to_string from_str aw \<lparr>so_join_timeout = None\<rparr> self"

section \<open>Lemmas\<close>

lemma normalize_base_last: "normalize_base b \<noteq> [] \<Longrightarrow> last (normalize_base b) \<noteq> CHR ''/''"
  unfolding normalize_base_def by (rule trim_end_matches_last)

lemma resolve_api_key_Some:
  "resolve_api_key given env = Some k \<longleftrightarrow>
     (\<exists>raw. (given = Some raw \<or> given = None \<and> env = Some raw) \<and> k = trim raw) \<and> k \<noteq> []"
  by (cases given; cases env) (auto simp: resolve_api_key_def)

lemma connect_loop_Ok: "connect_loop st ws = Ok () \<Longrightarrow> st = Connected \<or> Changed Connected \<in> set ws"
proof (induction st ws rule: connect_loop.induct)
  case (1 st ws)
  then show ?case
    by (cases ws) (auto simp: connect_loop.simps [of st] split: if_splits watch_wait.splits)
qed

lemma session_join_Ok_fields:
  "session_join P ts d st ws self = (r, self') \<Longrightarrow>
     sess_id self' = sess_id self \<and> sess_channel_name self' = sess_channel_name self \<and>
     sess_join_timeout self' = sess_join_timeout self \<and>
     response_generation self' = response_generation self"
  by (auto simp: session_join_def split: prod.splits sum.splits)

lemma controlled_identity:
  assumes "create_controlled_session_with_options K P H ts from_str aw options self = (Ok cs, self')"
  shows "create_session H from_str self = Ok (bootstrap cs) \<and>
    sess_id (controlled_session cs) = boot_session_id (bootstrap cs) \<and>
    sess_channel_name (controlled_session cs) = ''/rtc/'' @ boot_session_id (bootstrap cs) \<and>
    sess_join_timeout (controlled_session cs) =
      (case so_join_timeout options of Some d \<Rightarrow> d | None \<Rightarrow> join_timeout self) \<and>
    response_generation (controlled_session cs) = \<lparr>counter = 0, current_id = None\<rparr>"
proof -
  obtain b where b: "create_session H from_str self = Ok b"
    and at: "attach_session_with_options K P ts aw (boot_session_id b) options self =
      (Ok (controlled_session cs), self')" and bs: "bootstrap cs = b"
    using assms by (auto simp: create_controlled_session_with_options_def split: sum.splits prod.splits)
  from at obtain self1 s ch where conn: "client_connect K (connection_waits aw) self = (Ok (), self1)"
    and j: "session_join P ts (declined_with aw) (first_state aw) (join_waits aw)
      (control_session_new ch (boot_session_id b) (resolve_join_timeout (self1\<lparr>socket := s\<rparr>) options)) =
      (Ok (), controlled_session cs)"
    by (auto simp: attach_session_with_options_def Let_def split: sum.splits prod.splits)
  have "join_timeout self1 = join_timeout self"
    using conn by (auto simp: client_connect_def split: if_splits prod.splits sum.splits)
  with session_join_Ok_fields [OF j] b bs show ?thesis
    by (simp add: control_session_new_def resolve_join_timeout_def unwrap_or_def split: option.splits)
qed

text \<open>Joining over the channel states that PondSocket reports, as the mirror publishes them.\<close>

lemma join_loop_mirrored:
  assumes "st \<in> {Idle, Joining}" and "set qs \<subseteq> {PondIdle, PondJoining, PondStalled}"
  shows "join_loop own name why st (map (Changed \<circ> map_channel_state) (qs @ [q])) =
    join_loop own name why (map_channel_state q) []"
proof -
  have sub: "set (map map_channel_state qs) \<subseteq> {Idle, Joining}" using assms(2) by auto
  obtain st' where st': "st' \<in> {Idle, Joining}" and pending:
    "\<forall>ws. join_loop own name why st (map Changed (map map_channel_state qs) @ ws) = join_loop own name why st' ws"
    by (rule bexE [OF join_loop_pending [OF assms(1) sub, of own name why]])
  have "join_loop own name why st (map (Changed \<circ> map_channel_state) (qs @ [q])) =
      join_loop own name why st (map Changed (map map_channel_state qs) @ [Changed (map_channel_state q)])"
    by simp
  also have "\<dots> = join_loop own name why st' [Changed (map_channel_state q)]"
    by (rule spec [OF pending])
  also have "\<dots> = join_loop own name why (map_channel_state q) []"
    by (rule join_loop_simps(4) [OF st'])
  finally show ?thesis .
qed

lemma session_join_mirrored:
  assumes "closed_error P ch = None" and "st \<in> {Idle, Joining}"
    and "set qs \<subseteq> {PondIdle, PondJoining, PondStalled}"
  shows "session_join P ts declined st (map (Changed \<circ> map_channel_state) (qs @ [q])) (control_session_new ch sid t) =
    (join_loop (''/rtc/'' @ sid) (pond_name P (pond_join P (channel ch))) (join_decline_reason ts declined)
       (map_channel_state q) [],
     (control_session_new ch sid t)\<lparr>sess_channel := ch\<lparr>channel := pond_join P (channel ch)\<rparr>\<rparr>)"
  unfolding session_join_def
  by (simp add: raw_join_def raw_name_def control_session_new_def assms(1) join_loop_mirrored [OF assms(2,3)]
      del: map_append)

section \<open>Properties\<close>

text \<open>
  A base URL is normalised by removing exactly its trailing slashes: what remains does not end
  in a slash, normalising again changes nothing, and so the session URL and the default socket
  URL have exactly one slash after the base.
\<close>

theorem normalize_base_exact:
  "(\<exists>n. base = normalize_base base @ replicate n (CHR ''/'')) \<and>
   (normalize_base base = [] \<or> last (normalize_base base) \<noteq> CHR ''/'') \<and>
   normalize_base (normalize_base base) = normalize_base base \<and>
   default_socket_base (normalize_base base) = normalize_base base @ ''/v1/socket''"
  using trim_end_matches_decomp [of base "CHR ''/''"] normalize_base_last [of base]
  by (auto simp: default_socket_base_def normalize_base_def)

text \<open>
  The API key a client works with is the given one, or else the environment's, trimmed and not
  empty, or none; it is exactly what the socket parameters carry, in place of a caller's entry
  of that name, and without a key the caller's parameters are sent unchanged.
\<close>

theorem with_options_api_key:
  assumes "with_options K H env options = Ok self"
  shows "api_key self = resolve_api_key (co_api_key options) env \<and>
    (\<forall>k. api_key self = Some k \<longrightarrow> k \<noteq> [] \<and> trim k = k \<and>
       get (socket_params_with_api_key (co_socket_params options) (api_key self)) ''api_key'' = Some (String k)) \<and>
    (api_key self = None \<longrightarrow>
       socket_params_with_api_key (co_socket_params options) (api_key self) = co_socket_params options) \<and>
    (\<exists>k. pond_with_options K (socket_base self)
           (Some (socket_params_with_api_key (co_socket_params options) (api_key self)))
           (co_connection_timeout options) = Ok k \<and> client (socket self) = k)"
proof -
  have key: "api_key self = resolve_api_key (co_api_key options) env"
    using assms by (auto simp: with_options_def Let_def split: sum.splits)
  have trimmed: "k \<noteq> [] \<and> trim k = k" if "api_key self = Some k" for k
    using that unfolding key by (auto simp: resolve_api_key_Some)
  have pond: "\<exists>k. pond_with_options K (socket_base self)
           (Some (socket_params_with_api_key (co_socket_params options) (api_key self)))
           (co_connection_timeout options) = Ok k \<and> client (socket self) = k"
    using assms by (auto simp: with_options_def raw_client_new_def Let_def split: sum.splits)
  show ?thesis using key trimmed pond by (simp add: socket_params_with_api_key_def)
qed

text \<open>
  Connecting returns successfully only when the client was seen connected: it was connected
  already, and then nothing is touched, or the socket connected and the published state was or
  became \<open>Connected\<close> before the deadline.
\<close>

theorem client_connect_outcome:
  "(raw_state K (socket self) = Connected \<longrightarrow> client_connect K ws self = (Ok (), self)) \<and>
   (fst (client_connect K ws self) = Ok () \<and> raw_state K (socket self) \<noteq> Connected \<longrightarrow>
      fst (raw_connect K (socket self)) = Ok () \<and>
      (conn_tx (snd (raw_connect K (socket self))) = Connected \<or> Changed Connected \<in> set ws))"
  by (auto simp: client_connect_def split: prod.splits sum.splits dest: connect_loop_Ok)

text \<open>
  A controlled session is what it says: when the creation succeeds, the control session has
  the identifier of the bootstrap the server returned, its channel name is \<open>/rtc/\<close> followed by
  that identifier, its join timeout is the option's or else the client's, and it tracks no
  response generation yet.
\<close>

theorem create_controlled_session_identity:
  assumes "create_controlled_session_with_options K P H ts from_str aw options self = (Ok cs, self')"
  shows "create_session H from_str self = Ok (bootstrap cs) \<and>
    sess_id (controlled_session cs) = boot_session_id (bootstrap cs) \<and>
    sess_channel_name (controlled_session cs) = ''/rtc/'' @ boot_session_id (bootstrap cs) \<and>
    sess_join_timeout (controlled_session cs) =
      (case so_join_timeout options of Some d \<Rightarrow> d | None \<Rightarrow> join_timeout self) \<and>
    response_generation (controlled_session cs) = \<lparr>counter = 0, current_id = None\<rparr>"
  using assms by (rule controlled_identity)

text \<open>
  Attaching fails early: when the connection fails, no channel is created and the client's
  connection is left as the failed connect left it.
\<close>

theorem attach_needs_connection:
  assumes "fst (client_connect K (connection_waits aw) self) = Err e"
  shows "attach_session_with_options K P ts aw sid options self =
    (Err e, snd (client_connect K (connection_waits aw) self))"
  using assms by (cases "client_connect K (connection_waits aw) self") (simp add: attach_session_with_options_def)

text \<open>
  C24. Attaching follows the channel: once the client is connected and the new channel is open, the
  outcome is decided by the first state PondSocket reports that is not idle, joining or stalled.
  Joined gives a session on the channel of that identifier; closed or declined gives a join error
  that names the channel and the state and carries the reason of the refusal.
\<close>

theorem attach_follows_channel:
  assumes "client_connect K (connection_waits aw) self = (Ok (), self1)"
    and "raw_create_channel K P (''/rtc/'' @ sid) fmempty (socket self1) = (ch, s)"
    and "closed_error P ch = None" and "first_state aw \<in> {Idle, Joining}"
    and "join_waits aw = map (Changed \<circ> map_channel_state) (qs @ [q])"
    and "set qs \<subseteq> {PondIdle, PondJoining, PondStalled}"
  shows "(q = PondJoined \<longrightarrow> (\<exists>sess.
      attach_session_with_options K P ts aw sid options self = (Ok sess, self1\<lparr>socket := s\<rparr>) \<and>
      sess_id sess = sid \<and> sess_channel_name sess = ''/rtc/'' @ sid \<and>
      channel (sess_channel sess) = pond_join P (channel ch))) \<and>
    (q \<in> {PondClosed, PondDeclined} \<longrightarrow>
      attach_session_with_options K P ts aw sid options self =
        (Err (JoinFailed (pond_name P (pond_join P (channel ch))) (debug_channel_state (map_channel_state q))
           (join_decline_reason ts (declined_with aw))), self1\<lparr>socket := s\<rparr>))"
proof -
  have "attach_session_with_options K P ts aw sid options self =
      (case (join_loop (''/rtc/'' @ sid) (pond_name P (pond_join P (channel ch))) (join_decline_reason ts (declined_with aw))
               (map_channel_state q) [],
             (control_session_new ch sid (resolve_join_timeout (self1\<lparr>socket := s\<rparr>) options))
               \<lparr>sess_channel := ch\<lparr>channel := pond_join P (channel ch)\<rparr>\<rparr>) of
         (Inl e, _) \<Rightarrow> (Err e, self1\<lparr>socket := s\<rparr>)
       | (Inr _, sess') \<Rightarrow> (Ok sess', self1\<lparr>socket := s\<rparr>))"
    unfolding attach_session_with_options_def assms(1) assms(5)
    by (simp only: prod.case sum.case Let_def assms(2) session_join_mirrored [OF assms(3,4,6)])
  then show ?thesis by (auto simp: join_loop_simps control_session_new_def)
qed

section \<open>Witnesses\<close>

text \<open>What evaluates a connection and an attachment on a concrete client.\<close>

lemmas connect_eval [vox_defs] =
  client_connect_def raw_state_def raw_connect_def raw_connect_end_def publish_state_def
  ensure_supervisor_def spawn_reconnect_supervisor_def connect_loop.simps Let_def

lemmas attach_eval [vox_defs] =
  create_controlled_session_def create_controlled_session_with_options_def create_session_def is_success_def
  attach_session_with_options_def raw_create_channel_def session_join_def raw_join_def closed_error_def
  raw_channel_new_def control_session_new_def join_loop_simps

text \<open>A client that connects at once, and an HTTP client with one fixed answer.\<close>

definition online_client ::
  "(PondConnectionState, PondChannelState \<times> (string \<times> EventData option) list) pond_client" where
  "online_client =
     \<lparr>pond_with_options = (\<lambda>_ _ _. Ok PondDisconnected), pond_connection_state = (\<lambda>k. k),
      pond_connect = (\<lambda>_. (Ok (), PondConnected)), pond_disconnect = (\<lambda>_. PondDisconnected),
      pond_create_channel = (\<lambda>_ _ k. ((PondIdle, []), k))\<rparr>"

definition fixed_http :: "nat \<Rightarrow> string \<Rightarrow> unit http_client" where
  "fixed_http code body =
     \<lparr>http_build = (\<lambda>_. Ok ()), http_post = (\<lambda>_ _ _ _. Ok (code, Ok body))\<rparr>"

definition sample_client :: "(PondConnectionState, unit) VoxRtcServerClient" where
  "sample_client =
     \<lparr>http_base = ''https://vox'', api_key = Some ''secret'', socket_base = ''https://vox/v1/socket'',
      http = (), socket = \<lparr>client = PondDisconnected, conn_tx = Disconnected, active = False,
        supervisor = None, tasks = [], max_reconnect_delay = from_secs 30\<rparr>,
      connection_timeout = from_secs 10, join_timeout = from_secs 10\<rparr>"

definition sample_bootstrap :: SessionBootstrap where
  "sample_bootstrap = \<lparr>boot_session_id = ''s1'', expires_at = ''later'', attach_ttl_seconds = 60, ice_servers = []\<rparr>"

lemma trim_secret: "trim ''secret'' = ''secret''"
  by (rule trim_fix) (simp_all add: utf8_white_space_def)

lemma with_options_api_key_witness:
  "with_options online_client (fixed_http 200 []) (Some ''secret'') (client_options_new ''https://vox/'') =
     Ok sample_client \<and> api_key sample_client = resolve_api_key None (Some ''secret'')"
proof -
  have ok: "with_options online_client (fixed_http 200 []) (Some ''secret'') (client_options_new ''https://vox/'') =
      Ok sample_client"
    by (simp add: with_options_def client_options_new_def fixed_http_def raw_client_new_def online_client_def
        sample_client_def normalize_base_def default_socket_base_def trim_end_matches_def
        resolve_api_key_def trim_secret Let_def)
  from with_options_api_key [OF ok] ok show ?thesis by (simp add: client_options_new_def)
qed

lemma client_connect_outcome_witness:
  "fst (client_connect online_client [] sample_client) = Ok () \<and>
   conn_tx (snd (raw_connect online_client (socket sample_client))) = Connected"
proof -
  have "fst (client_connect online_client [] sample_client) = Ok ()"
    and "raw_state online_client (socket sample_client) \<noteq> Connected"
    by (simp_all add: vox_defs online_client_def sample_client_def)
  then show ?thesis using client_connect_outcome [of online_client sample_client "[]"] by simp
qed

definition sample_waits :: attach_waits where
  "sample_waits = \<lparr>connection_waits = [], declined_with = None, first_state = Joining,
     join_waits = [Changed Joined]\<rparr>"

lemma create_controlled_session_identity_witness:
  "\<exists>cs self'. create_controlled_session_with_options online_client log_channel (fixed_http 201 ''{}'')
     (\<lambda>_. []) (\<lambda>_. Ok sample_bootstrap) sample_waits \<lparr>so_join_timeout = Some 5\<rparr> sample_client = (Ok cs, self') \<and>
     sess_channel_name (controlled_session cs) = ''/rtc/s1'' \<and> sess_join_timeout (controlled_session cs) = 5"
proof -
  have "\<exists>cs self'. create_controlled_session_with_options online_client log_channel (fixed_http 201 ''{}'')
      (\<lambda>_. []) (\<lambda>_. Ok sample_bootstrap) sample_waits \<lparr>so_join_timeout = Some 5\<rparr> sample_client = (Ok cs, self')"
    by (simp add: vox_defs fixed_http_def online_client_def sample_client_def log_channel_def sample_waits_def)
  then obtain cs self' where cs: "create_controlled_session_with_options online_client log_channel
      (fixed_http 201 ''{}'') (\<lambda>_. []) (\<lambda>_. Ok sample_bootstrap) sample_waits \<lparr>so_join_timeout = Some 5\<rparr>
      sample_client = (Ok cs, self')" by blast
  have created: "create_session (fixed_http 201 ''{}'') (\<lambda>_. Ok sample_bootstrap) sample_client = Ok sample_bootstrap"
    by (simp add: create_session_def fixed_http_def is_success_def)
  note id = create_controlled_session_identity [OF cs]
  from id created have "bootstrap cs = sample_bootstrap" by simp
  then have "boot_session_id (bootstrap cs) = ''s1''" by (simp add: sample_bootstrap_def)
  with id cs show ?thesis by auto
qed

definition offline_log_client ::
  "(PondConnectionState, PondChannelState \<times> (string \<times> EventData option) list) pond_client" where
  "offline_log_client = online_client\<lparr>pond_connect := (\<lambda>k. (Err ClientNotConnected, k))\<rparr>"

lemma attach_needs_connection_witness:
  "fst (attach_session_with_options offline_log_client log_channel (\<lambda>_. []) sample_waits ''s1''
     \<lparr>so_join_timeout = None\<rparr> sample_client) = Err NotConnected"
proof -
  have "fst (client_connect offline_log_client (connection_waits sample_waits) sample_client) = Err NotConnected"
    by (simp add: vox_defs offline_log_client_def online_client_def sample_client_def)
  from attach_needs_connection [OF this] show ?thesis by simp
qed

definition stalled_waits :: attach_waits where
  "stalled_waits = sample_waits\<lparr>join_waits := map (Changed \<circ> map_channel_state) ([PondJoining, PondStalled] @ [PondJoined])\<rparr>"

lemma attach_follows_channel_witness:
  "\<exists>sess self'. attach_session_with_options online_client log_channel (\<lambda>_. []) stalled_waits ''s1''
     \<lparr>so_join_timeout = None\<rparr> sample_client = (Ok sess, self') \<and> sess_channel_name sess = ''/rtc/s1''"
proof -
  obtain self1 where conn: "client_connect online_client (connection_waits stalled_waits) sample_client = (Ok (), self1)"
    by (simp add: vox_defs online_client_def sample_client_def)
  obtain ch s where ch: "raw_create_channel online_client log_channel (''/rtc/'' @ ''s1'') fmempty (socket self1) = (ch, s)"
    by fastforce
  then have "closed_error log_channel ch = None"
    by (auto simp: raw_create_channel_def online_client_def raw_channel_new_def closed_error_eq log_channel_def)
  from attach_follows_channel [OF conn ch this, where qs = "[PondJoining, PondStalled]" and q = PondJoined
      and ts = "\<lambda>_. []" and options = "\<lparr>so_join_timeout = None\<rparr>"] show ?thesis
    by (auto simp: stalled_waits_def sample_waits_def)
qed

end
