(* ===== verification/Vox_Gateway.thy ===== *)
theory Vox_Gateway
  imports Vox_Client
begin

text \<open>
  The browser gateway, \<open>src/rust/rtcserver/src/gateway.rs\<close>: the validation of what a browser
  sends (\<open>parse_message\<close>, \<open>generation\<close>, \<open>offer\<close>, \<open>candidate\<close>), the commands it becomes
  (\<open>handle_message\<close>), the frames sent back, the cleanup of a session, and \<open>serve\<close>, the life of
  one browser connection from the creation of its session to the cleanup. The connections of a
  gateway together, and its shutdown, are in the theory \<open>Vox_Lifecycle\<close>.

  The parsing and printing of JSON text (\<open>from_str\<close>, \<open>to_string\<close>), the sink of the web
  socket (\<open>send\<close>, which returns the sink after the call) and the hooks are arguments. What
  \<open>tokio::select!\<close> picks in each round of the loop is the list of inputs the loop runs over.
\<close>

section \<open>Options, contexts and errors\<close>

definition DEFAULT_PATH :: string where
  "DEFAULT_PATH = ''/api/vox/rtc''"

definition MAX_SAFE_INTEGER :: u64 where
  "MAX_SAFE_INTEGER = 9007199254740991"

record ('hd, 'c) GatewaySessionContext =
  created_headers :: 'hd
  created_session :: "'c VoxRtcControlSession"

record ('hd, 'c) GatewayClosedContext =
  closed_headers :: 'hd
  closed_session :: "'c VoxRtcControlSession"
  closed_reason :: string

text \<open>
  A hook gets its context and gives its outcome and the session after it: the session in the
  context shares its state with the gateway's.
\<close>

record ('hd, 'c) GatewayOptions =
  vox_http_base :: string
  go_api_key :: "string option"
  go_path :: string
  go_on_session_created ::
    "(('hd, 'c) GatewaySessionContext \<Rightarrow> (unit, string) result \<times> 'c VoxRtcControlSession) option"
  go_on_session_closed ::
    "(('hd, 'c) GatewayClosedContext \<Rightarrow> (unit, string) result \<times> 'c VoxRtcControlSession) option"
  go_on_error :: "(string \<Rightarrow> unit) option"

definition gateway_options_new :: "string \<Rightarrow> ('hd, 'c) GatewayOptions" where
  "gateway_options_new base =
     \<lparr>vox_http_base = base, go_api_key = None, go_path = DEFAULT_PATH,
      go_on_session_created = None, go_on_session_closed = None, go_on_error = None\<rparr>"

record ClientMessage =
  cm_id :: string
  cm_kind :: string
  cm_data :: EventData

record CommandError =
  ce_message :: string
  ce_typed :: bool

definition plain :: "string \<Rightarrow> CommandError" where
  "plain m = \<lparr>ce_message = m, ce_typed = False\<rparr>"

definition invalid :: "string \<Rightarrow> CommandError" where
  "invalid m = \<lparr>ce_message = m, ce_typed = True\<rparr>"

definition normalize_path :: "string \<Rightarrow> string" where
  "normalize_path p =
     (let trimmed = trim_matches (CHR ''/'') (trim p)
      in if trimmed = [] then ''/'' else ''/'' @ trimmed)"

section \<open>Validation of browser messages\<close>

definition parse_message ::
  "(string \<Rightarrow> (Value, string) result) \<Rightarrow> string \<Rightarrow> (ClientMessage, CommandError) result" where
  "parse_message from_str txt =
     (case from_str txt of
        Inl _ \<Rightarrow> Err (plain ''RTC gateway message must be valid JSON'')
      | Inr v \<Rightarrow>
          (case as_object v of
             None \<Rightarrow> Err (plain ''RTC gateway message must be an object'')
           | Some obj \<Rightarrow>
               (let i = opt_filter (\<lambda>x. x \<noteq> []) (map_option trim (Option.bind (get obj ''id'') as_str));
                    k = opt_filter (\<lambda>x. x \<noteq> []) (map_option trim (Option.bind (get obj ''type'') as_str));
                    d = Option.bind (get obj ''data'') as_object
                in case (i, k, d) of
                     (Some i, Some k, Some d) \<Rightarrow> Ok \<lparr>cm_id = i, cm_kind = k, cm_data = d\<rparr>
                   | _ \<Rightarrow> Err (plain ''RTC gateway message requires id, type, and object data''))))"

definition generation :: "EventData \<Rightarrow> string \<Rightarrow> bool \<Rightarrow> (u64 option, CommandError) result" where
  "generation m command required =
     (case get m ''generation'' of
        None \<Rightarrow>
          (if required
           then Err (invalid (command @ '' requires generation for a generated RTC negotiation''))
           else Ok None)
      | Some v \<Rightarrow>
          (case opt_filter (\<lambda>n. n > 0 \<and> n \<le> MAX_SAFE_INTEGER) (as_u64 v) of
             None \<Rightarrow> Err (invalid (command @ '' generation must be a positive safe integer''))
           | Some n \<Rightarrow> Ok (Some n)))"

definition offer :: "Value option \<Rightarrow> (Value, CommandError) result" where
  "offer v =
     (case Option.bind v as_object of
        None \<Rightarrow> Err (plain ''rtc.offer requires a non-empty SDP offer'')
      | Some obj \<Rightarrow>
          (if Option.bind (get obj ''type'') as_str \<noteq> Some ''offer'' \<or>
              unwrap_or [] (map_option trim (Option.bind (get obj ''sdp'') as_str)) = []
           then Err (plain ''rtc.offer requires a non-empty SDP offer'')
           else Ok (json [(''type'', String ''offer''), (''sdp'', unwrap_or Null (get obj ''sdp''))])))"

definition candidate :: "Value option \<Rightarrow> (Value option, CommandError) result" where
  "candidate v =
     (case v of
        None \<Rightarrow> Ok None
      | Some v \<Rightarrow>
          if is_null v then Ok None
          else case as_object v of
                 None \<Rightarrow> Err (plain ''rtc.ice_candidate requires a candidate object or null'')
               | Some obj \<Rightarrow>
                   (case Option.bind (get obj ''candidate'') as_str of
                      None \<Rightarrow> Err (plain ''rtc.ice_candidate requires a candidate object or null'')
                    | Some txt \<Rightarrow> Ok (Some (json
                        [(''candidate'', String txt),
                         (''sdpMid'', unwrap_or Null (get obj ''sdpMid'')),
                         (''sdpMLineIndex'', unwrap_or Null (get obj ''sdpMLineIndex'')),
                         (''usernameFragment'', unwrap_or Null (get obj ''usernameFragment''))]))))"

section \<open>Frames to the browser\<close>

datatype Message =
    Text string
  | Binary "u8 list"
  | Ping "u8 list"
  | Pong "u8 list"
  | CloseFrame "(nat \<times> string) option"

type_synonym 'w sink = "Message \<Rightarrow> 'w \<Rightarrow> (unit, unit) result \<times> 'w"

text \<open>
  The code outside the crate that a connection uses: the PondSocket client and its channels, the
  HTTP client, the text of an HTTP status, the printing and parsing of JSON, and the sink of the
  web socket.
\<close>

record ('k, 'c, 'h, 'w) gateway_env =
  env_client :: "('k, 'c) pond_client"
  env_channel :: "'c pond_channel"
  env_http :: "'h http_client"
  env_show_status :: "nat \<Rightarrow> string"
  env_to_string :: "Value \<Rightarrow> string"
  env_from_str :: "string \<Rightarrow> (Value, string) result"
  env_bootstrap_from_str :: "string \<Rightarrow> (SessionBootstrap, string) result"
  env_send :: "'w sink"

definition ice_server_json :: "RtcIceServer \<Rightarrow> Value" where
  "ice_server_json s =
     Object (insert_opt ''credential'' (credential s)
       (insert_opt ''username'' (username s) (put ''urls'' (urls s) fmempty)))"

definition bootstrap_json :: "'c ControlledSession \<Rightarrow> Value" where
  "bootstrap_json controlled =
     (let b = bootstrap controlled
      in json [(''session'', json
           [(''sessionId'', String (boot_session_id b)),
            (''expiresAt'', String (expires_at b)),
            (''attachTtlSeconds'', Number (PosInt (attach_ttl_seconds b))),
            (''iceServers'', Array (map ice_server_json (ice_servers b)))])])"

definition event_reason :: "WireEvent \<Rightarrow> string option" where
  "event_reason e = Option.bind (get (data e) ''reason'') as_str"

definition frame_json :: "string option \<Rightarrow> string \<Rightarrow> Value \<Rightarrow> Value" where
  "frame_json i kind d =
     (let payload = object_of [(''type'', String kind), (''data'', d)]
      in Object (case i of Some x \<Rightarrow> put ''id'' (String x) payload | None \<Rightarrow> payload))"

definition send_json ::
  "('k, 'c, 'h, 'w) gateway_env \<Rightarrow> string option \<Rightarrow> string \<Rightarrow> Value \<Rightarrow> 'w \<Rightarrow> (unit, unit) result \<times> 'w" where
  "send_json E i kind d w = env_send E (Text (env_to_string E (frame_json i kind d))) w"

definition error_json :: "CommandError \<Rightarrow> Value" where
  "error_json e =
     (let d = object_of [(''message'', String (ce_message e))]
      in Object (if ce_typed e then put ''code'' (String ''command_invalid'') d else d))"

definition send_error ::
  "('k, 'c, 'h, 'w) gateway_env \<Rightarrow> string option \<Rightarrow> CommandError \<Rightarrow> 'w \<Rightarrow> (unit, unit) result \<times> 'w" where
  "send_error E i e w = send_json E i ''gateway.error'' (error_json e) w"

section \<open>One connection\<close>

text \<open>
  The state of \<open>serve\<close> after its setup: the session, the sink, the local variables, and the
  hooks called so far, oldest first.
\<close>

datatype ('hd, 'c) hook_call =
    Created_hook "('hd, 'c) GatewaySessionContext"
  | Closed_hook "('hd, 'c) GatewayClosedContext"
  | Error_hook string

record ('hd, 'c, 'w) Connection =
  conn_headers :: 'hd
  conn_session :: "'c VoxRtcControlSession"
  sender :: 'w
  calls :: "('hd, 'c) hook_call list"
  pending_offer_id :: "string option"
  generated_offer :: bool
  rtc_close_requested :: bool
  close_reason :: string

type_synonym ('hd, 'c, 'w) flow = "(('hd, 'c, 'w) Connection, ('hd, 'c, 'w) Connection) ControlFlow"

definition report ::
  "('hd, 'c) GatewayOptions \<Rightarrow> string \<Rightarrow> ('hd, 'c) hook_call list \<Rightarrow> ('hd, 'c) hook_call list" where
  "report opts e cs = (case go_on_error opts of Some _ \<Rightarrow> cs @ [Error_hook e] | None \<Rightarrow> cs)"

text \<open>\<open>.map_err(|error| CommandError::plain(error.to_string()))\<close>\<close>

definition map_command_error :: "('k, 'c, 'h, 'w) gateway_env \<Rightarrow> unit Result \<Rightarrow> (unit, CommandError) result" where
  "map_command_error E r = (case r of Inl e \<Rightarrow> Err (plain (error_to_string (env_show_status E) e)) | Inr u \<Rightarrow> Ok u)"

definition handle_offer ::
  "('k, 'c, 'h, 'w) gateway_env \<Rightarrow> ClientMessage \<Rightarrow> ('hd, 'c, 'w) Connection
     \<Rightarrow> (unit, CommandError) result \<times> ('hd, 'c, 'w) Connection" where
  "handle_offer E m c =
     (if pending_offer_id c \<noteq> None then (Err (plain ''An RTC offer is already pending''), c)
      else case generation (cm_data m) ''rtc.offer'' False of
             Inl e \<Rightarrow> (Err e, c)
           | Inr g \<Rightarrow>
               (case offer (get (cm_data m) ''offer'') of
                  Inl e \<Rightarrow> (Err e, c)
                | Inr off \<Rightarrow>
                    (let c1 = c\<lparr>pending_offer_id := Some (cm_id m)\<rparr>;
                         (r, s) = send_offer (env_channel E) off (get (cm_data m) ''restart'' = Some (Bool True)) g
                                    (conn_session c1);
                         c2 = c1\<lparr>conn_session := s\<rparr>
                     in case map_command_error E r of
                          Inl e \<Rightarrow> (Err e, c2)
                        | Inr _ \<Rightarrow> (Ok (), c2\<lparr>generated_offer := (g \<noteq> None)\<rparr>))))"

definition handle_candidate ::
  "('k, 'c, 'h, 'w) gateway_env \<Rightarrow> ClientMessage \<Rightarrow> ('hd, 'c, 'w) Connection
     \<Rightarrow> (unit, CommandError) result \<times> ('hd, 'c, 'w) Connection" where
  "handle_candidate E m c =
     (case generation (cm_data m) ''rtc.ice_candidate'' (generated_offer c) of
        Inl e \<Rightarrow> (Err e, c)
      | Inr g \<Rightarrow>
          (case candidate (get (cm_data m) ''candidate'') of
             Inl e \<Rightarrow> (Err e, c)
           | Inr cand \<Rightarrow>
               (let (r, s) = send_ice_candidate (env_channel E) cand g (conn_session c)
                in (map_command_error E r, c\<lparr>conn_session := s\<rparr>))))"

definition handle_close ::
  "('k, 'c, 'h, 'w) gateway_env \<Rightarrow> ClientMessage \<Rightarrow> ('hd, 'c, 'w) Connection
     \<Rightarrow> (unit, CommandError) result \<times> ('hd, 'c, 'w) Connection" where
  "handle_close E m c =
     (let c1 = c\<lparr>rtc_close_requested := True\<rparr>;
          rsn = unwrap_or ''client_closed'' (Option.bind (get (cm_data m) ''reason'') as_str);
          (r, s) = close_rtc (env_channel E) rsn (conn_session c1)
      in (map_command_error E r, c1\<lparr>conn_session := s\<rparr>))"

definition handle_message ::
  "('k, 'c, 'h, 'w) gateway_env \<Rightarrow> ClientMessage \<Rightarrow> ('hd, 'c, 'w) Connection
     \<Rightarrow> (unit, CommandError) result \<times> ('hd, 'c, 'w) Connection" where
  "handle_message E m c =
     (if cm_kind m = ''rtc.offer'' then handle_offer E m c
      else if cm_kind m = ''rtc.ice_candidate'' then handle_candidate E m c
      else if cm_kind m = ''rtc.close'' then handle_close E m c
      else (Err (plain (''Unsupported RTC gateway message type: '' @ cm_kind m)), c))"

definition cleanup ::
  "('k, 'c, 'h, 'w) gateway_env \<Rightarrow> ('hd, 'c) GatewayOptions \<Rightarrow> bool \<Rightarrow> string \<Rightarrow> ('hd, 'c, 'w) Connection
     \<Rightarrow> ('hd, 'c, 'w) Connection" where
  "cleanup E opts requested rsn c =
     (let c1 = (if requested then c
                else case close_rtc (env_channel E) rsn (conn_session c) of
                       (Inl e, s) \<Rightarrow> c\<lparr>conn_session := s, calls := report opts (error_to_string (env_show_status E) e) (calls c)\<rparr>
                     | (Inr _, s) \<Rightarrow> c\<lparr>conn_session := s\<rparr>);
          c2 = (case session_close (env_channel E) (conn_session c1) of
                  (Inl e, s) \<Rightarrow> c1\<lparr>conn_session := s, calls := report opts (error_to_string (env_show_status E) e) (calls c1)\<rparr>
                | (Inr _, s) \<Rightarrow> c1\<lparr>conn_session := s\<rparr>)
      in case go_on_session_closed opts of
           None \<Rightarrow> c2
         | Some hook \<Rightarrow>
             (let ctx = \<lparr>closed_headers = conn_headers c2, closed_session = conn_session c2, closed_reason = rsn\<rparr>;
                  called = calls c2 @ [Closed_hook ctx]
              in case hook ctx of
                   (Inl e, s) \<Rightarrow> c2\<lparr>conn_session := s, calls := report opts e called\<rparr>
                 | (Inr _, s) \<Rightarrow> c2\<lparr>conn_session := s, calls := called\<rparr>))"

section \<open>The loop of a connection\<close>

text \<open>
  What one round of the loop gets: a wake-up of the shutdown watch (the value it then holds, or
  the error of a dropped sender), an item of the browser's stream (a frame, an error or its
  end), or an item of the session's events (an event or the end of them).
\<close>

datatype gateway_input =
    Shutdown_changed "string option"
  | Shutdown_error
  | Browser_message Message
  | Browser_error
  | Browser_end
  | Session_event WireEvent
  | Session_events_end

text \<open>\<open>if send(\<dots>).await.is_err() { break; }\<close>\<close>

definition break_if_err ::
  "(unit, unit) result \<times> 'w \<Rightarrow> ('hd, 'c, 'w) Connection
     \<Rightarrow> ('hd, 'c, 'w) flow" where
  "break_if_err rw c =
     (let c' = c\<lparr>sender := snd rw\<rparr> in if is_err (fst rw) then Break c' else Continue c')"

definition browser_text ::
  "('k, 'c, 'h, 'w) gateway_env \<Rightarrow> string
     \<Rightarrow> ('hd, 'c, 'w) Connection \<Rightarrow> ('hd, 'c, 'w) flow" where
  "browser_text E txt c =
     (case parse_message (env_from_str E) txt of
        Inl e \<Rightarrow> break_if_err (send_error E None e (sender c)) c
      | Inr m \<Rightarrow>
          (case handle_message E m c of
             (Inr _, c1) \<Rightarrow> Continue c1
           | (Inl e, c1) \<Rightarrow>
               (let c2 = (if pending_offer_id c1 = Some (cm_id m) then c1\<lparr>pending_offer_id := None\<rparr> else c1)
                in break_if_err (send_error E (Some (cm_id m)) e (sender c2)) c2)))"

text \<open>The identifier an event is forwarded under: an answer or signalling error takes the pending one.\<close>

definition correlates :: "WireEvent \<Rightarrow> bool" where
  "correlates e \<longleftrightarrow> wire_type e = ''rtc.answer'' \<or> wire_type e = ''rtc.signaling_error''"

definition take_request_id ::
  "WireEvent \<Rightarrow> ('hd, 'c, 'w) Connection \<Rightarrow> string option \<times> ('hd, 'c, 'w) Connection" where
  "take_request_id e c =
     (if correlates e then (pending_offer_id c, c\<lparr>pending_offer_id := None\<rparr>) else (None, c))"

definition session_event ::
  "('k, 'c, 'h, 'w) gateway_env \<Rightarrow> WireEvent
     \<Rightarrow> ('hd, 'c, 'w) Connection \<Rightarrow> ('hd, 'c, 'w) flow" where
  "session_event E e c =
     (let (request_id, c1) = take_request_id e c;
          ended = (if wire_type e = ''rtc.session.closed'' then event_reason e else None);
          (r, w) = send_json E request_id (wire_type e) (Object (data e)) (sender c1);
          c2 = c1\<lparr>sender := w\<rparr>
      in if is_err r then Break c2
         else if wire_type e = ''rtc.session.closed'' then
           (let rsn = unwrap_or ''session_closed'' ended;
                (_, w') = env_send E (CloseFrame (Some (1000, rsn))) (sender c2)
            in Break (c2\<lparr>rtc_close_requested := True, close_reason := rsn, sender := w'\<rparr>))
         else Continue c2)"

fun serve_step ::
  "('k, 'c, 'h, 'w) gateway_env
     \<Rightarrow> ('hd, 'c, 'w) Connection \<Rightarrow> gateway_input
     \<Rightarrow> ('hd, 'c, 'w) flow" where
  "serve_step E c (Shutdown_changed (Some v)) = Break (c\<lparr>close_reason := v\<rparr>)"
| "serve_step E c (Shutdown_changed None) = Continue c"
| "serve_step E c Shutdown_error = Continue c"
| "serve_step E c (Browser_message (Text txt)) =
     browser_text E txt c"
| "serve_step E c (Browser_message (CloseFrame _)) = Break c"
| "serve_step E c Browser_error = Break c"
| "serve_step E c Browser_end = Break c"
| "serve_step E c (Browser_message _) =
     break_if_err (send_error E None (plain ''RTC gateway accepts text JSON only'') (sender c)) c"
| "serve_step E c (Session_event e) = session_event E e c"
| "serve_step E c Session_events_end = Break c"

lemmas session_event_defs = session_event_def take_request_id_def correlates_def

text \<open>One round; a loop that has been left stays left.\<close>

fun serve_round ::
  "('k, 'c, 'h, 'w) gateway_env
     \<Rightarrow> ('hd, 'c, 'w) flow \<Rightarrow> gateway_input
     \<Rightarrow> ('hd, 'c, 'w) flow" where
  "serve_round E (Break c) i = Break c"
| "serve_round E (Continue c) i = serve_step E c i"

definition serve_loop ::
  "('k, 'c, 'h, 'w) gateway_env
     \<Rightarrow> gateway_input list \<Rightarrow> ('hd, 'c, 'w) Connection
     \<Rightarrow> ('hd, 'c, 'w) flow" where
  "serve_loop E inputs c =
     foldl (serve_round E) (Continue c) inputs"

text \<open>
  \<open>serve\<close> once the session exists. \<open>shutdown_value\<close> is what the watch holds when the
  connection subscribes to it. A connection whose inputs end before its loop does is still
  being served.
\<close>

datatype 'x serving = Serving 'x | Served 'x

definition serve_ready ::
  "('k, 'c, 'h, 'w) gateway_env \<Rightarrow> ('hd, 'c) GatewayOptions \<Rightarrow> gateway_input list
     \<Rightarrow> 'c ControlledSession \<Rightarrow> ('hd, 'c, 'w) Connection \<Rightarrow> ('hd, 'c, 'w) Connection serving" where
  "serve_ready E opts inputs controlled c =
     (let (r, w) = send_json E None ''gateway.ready'' (bootstrap_json controlled) (sender c);
          c1 = c\<lparr>sender := w\<rparr>
      in if is_err r then Served (cleanup E opts False ''gateway_ready_failed'' c1)
         else case serve_loop E inputs c1 of
                Continue c2 \<Rightarrow> Serving c2
              | Break c2 \<Rightarrow> Served (cleanup E opts (rtc_close_requested c2) (close_reason c2) c2))"

definition serve_session ::
  "('k, 'c, 'h, 'w) gateway_env \<Rightarrow> ('hd, 'c) GatewayOptions \<Rightarrow> 'hd \<Rightarrow> 'w \<Rightarrow> string option
     \<Rightarrow> gateway_input list \<Rightarrow> 'c ControlledSession \<Rightarrow> ('hd, 'c, 'w) Connection serving" where
  "serve_session E opts hdrs w shutdown_value inputs controlled =
     (let c0 = \<lparr>conn_headers = hdrs, conn_session = controlled_session controlled, sender = w, calls = [],
                pending_offer_id = None, generated_offer = False, rtc_close_requested = False,
                close_reason = ''browser_disconnected''\<rparr>
      in case shutdown_value of
           Some rsn \<Rightarrow>
             (let c1 = cleanup E opts False rsn c0
              in Served (c1\<lparr>sender := snd (env_send E (CloseFrame (Some (1001, rsn))) (sender c1))\<rparr>))
         | None \<Rightarrow>
             (case go_on_session_created opts of
                None \<Rightarrow> serve_ready E opts inputs controlled c0
              | Some hook \<Rightarrow>
                  (let ctx = \<lparr>created_headers = hdrs, created_session = conn_session c0\<rparr>;
                       (r, s) = hook ctx;
                       c1 = c0\<lparr>conn_session := s, calls := [Created_hook ctx]\<rparr>
                   in case r of
                        Inr _ \<Rightarrow> serve_ready E opts inputs controlled c1
                      | Inl e \<Rightarrow>
                          (let c2 = c1\<lparr>calls := report opts e (calls c1),
                                       sender := snd (send_error E None (plain e) (sender c1))\<rparr>;
                               c3 = cleanup E opts False ''session_created_hook_failed'' c2
                           in Served (c3\<lparr>sender := snd (env_send E
                                (CloseFrame (Some (1011, ''RTC gateway setup failed''))) (sender c3))\<rparr>)))))"

text \<open>
  \<open>serve\<close>: without a session the connection only reports, otherwise it is served. The result
  is the hooks called, the connection when there is one, and the client afterwards.
\<close>

definition serve ::
  "('k, 'c, 'h, 'w) gateway_env \<Rightarrow> ('hd, 'c) GatewayOptions \<Rightarrow> attach_waits \<Rightarrow> 'hd \<Rightarrow> 'w \<Rightarrow> string option
     \<Rightarrow> gateway_input list \<Rightarrow> ('k, 'h) VoxRtcServerClient
     \<Rightarrow> (('hd, 'c, 'w) Connection serving, ('hd, 'c) hook_call list) result \<times> ('k, 'h) VoxRtcServerClient" where
  "serve E opts aw hdrs w shutdown_value inputs cl =
     (case create_controlled_session (env_client E) (env_channel E) (env_http E) (env_to_string E)
             (env_bootstrap_from_str E) aw cl of
        (Inl e, cl') \<Rightarrow> (Err (report opts (error_to_string (env_show_status E) e) []), cl')
      | (Inr controlled, cl') \<Rightarrow>
          (Ok (serve_session E opts hdrs w shutdown_value inputs controlled), cl'))"

section \<open>Specifications\<close>

text \<open>
  What a browser message asks of the session, as a pure function: \<open>pending\<close> says that an offer
  is pending, \<open>gen\<close> that the negotiation under way has a generation. The result is the event and
  the payload of the command.
\<close>

definition translate :: "bool \<Rightarrow> bool \<Rightarrow> ClientMessage \<Rightarrow> (string \<times> EventData, CommandError) result" where
  "translate pending gen m =
     (if cm_kind m = ''rtc.offer'' then
        (if pending then Err (plain ''An RTC offer is already pending'')
         else case generation (cm_data m) ''rtc.offer'' False of
                Inl e \<Rightarrow> Err e
              | Inr g \<Rightarrow>
                  (case offer (get (cm_data m) ''offer'') of
                     Inl e \<Rightarrow> Err e
                   | Inr off \<Rightarrow> Ok (''rtc.offer'', generation_payload g
                       (put ''restart'' (Bool (get (cm_data m) ''restart'' = Some (Bool True)))
                         (put ''offer'' off fmempty)))))
      else if cm_kind m = ''rtc.ice_candidate'' then
        (case generation (cm_data m) ''rtc.ice_candidate'' gen of
           Inl e \<Rightarrow> Err e
         | Inr g \<Rightarrow>
             (case candidate (get (cm_data m) ''candidate'') of
                Inl e \<Rightarrow> Err e
              | Inr cand \<Rightarrow> Ok (''rtc.ice_candidate'', generation_payload g
                  (put ''candidate'' (unwrap_or Null cand) fmempty))))
      else if cm_kind m = ''rtc.close'' then
        Ok (''rtc.close'', put ''reason'' (String (unwrap_or ''client_closed''
              (Option.bind (get (cm_data m) ''reason'') as_str))) fmempty)
      else Err (plain (''Unsupported RTC gateway message type: '' @ cm_kind m)))"

text \<open>What a connection keeps in mind of a command it has sent (\<open>sent\<close>) or failed to send.\<close>

definition remember ::
  "bool \<Rightarrow> string \<Rightarrow> string \<times> EventData \<Rightarrow> ('hd, 'c, 'w) Connection \<Rightarrow> ('hd, 'c, 'w) Connection" where
  "remember sent i cmd c =
     (if fst cmd = ''rtc.offer'' then
        c\<lparr>pending_offer_id := Some i,
          generated_offer := (if sent then get (snd cmd) ''generation'' \<noteq> None else generated_offer c)\<rparr>
      else if fst cmd = ''rtc.close'' then c\<lparr>rtc_close_requested := True\<rparr>
      else c)"

text \<open>The command an input makes the connection send on the control channel.\<close>

definition sent_command ::
  "('k, 'c, 'h, 'w) gateway_env \<Rightarrow> ('hd, 'c, 'w) Connection \<Rightarrow> gateway_input \<Rightarrow> (string \<times> EventData) list" where
  "sent_command E c i =
     (case i of
        Browser_message (Text txt) \<Rightarrow>
          (case parse_message (env_from_str E) txt of
             Inl _ \<Rightarrow> []
           | Inr m \<Rightarrow>
               (case translate (pending_offer_id c \<noteq> None) (generated_offer c) m of
                  Inl _ \<Rightarrow> []
                | Inr cmd \<Rightarrow>
                    if closed_error (env_channel E) (sess_channel (conn_session c)) = None then [cmd] else []))
      | _ \<Rightarrow> [])"

text \<open>
  What one round puts out: commands on the control channel, frames and close frames on the web
  socket; and what putting them out does to the session and the sink.
\<close>

datatype gateway_output = Command string EventData | Frame Value | Close_frame "(nat \<times> string) option"

fun do_output ::
  "('k, 'c, 'h, 'w) gateway_env \<Rightarrow> 'c VoxRtcControlSession \<times> 'w \<Rightarrow> gateway_output \<Rightarrow> 'c VoxRtcControlSession \<times> 'w" where
  "do_output E (s, w) (Command e p) = (snd (send_control (env_channel E) e p s), w)"
| "do_output E (s, w) (Frame v) = (s, snd (env_send E (Text (env_to_string E v)) w))"
| "do_output E (s, w) (Close_frame f) = (s, snd (env_send E (CloseFrame f) w))"

definition error_output :: "string option \<Rightarrow> CommandError \<Rightarrow> gateway_output" where
  "error_output i e = Frame (frame_json i ''gateway.error'' (error_json e))"

definition event_output ::
  "('k, 'c, 'h, 'w) gateway_env \<Rightarrow> ('hd, 'c, 'w) Connection \<Rightarrow> WireEvent \<Rightarrow> gateway_output list" where
  "event_output E c e =
     (let v = frame_json (if correlates e then pending_offer_id c else None) (wire_type e) (Object (data e))
      in Frame v #
         (if wire_type e = ''rtc.session.closed'' \<and> \<not> is_err (fst (env_send E (Text (env_to_string E v)) (sender c)))
          then [Close_frame (Some (1000, unwrap_or ''session_closed'' (event_reason e)))] else []))"

definition step_output ::
  "('k, 'c, 'h, 'w) gateway_env \<Rightarrow> ('hd, 'c, 'w) Connection \<Rightarrow> gateway_input \<Rightarrow> gateway_output list" where
  "step_output E c i =
     (case i of
        Browser_message (Text txt) \<Rightarrow>
          (case parse_message (env_from_str E) txt of
             Inl e \<Rightarrow> [error_output None e]
           | Inr m \<Rightarrow>
               map (\<lambda>(e, p). Command e p) (sent_command E c i) @
               (case fst (handle_message E m c) of Inl e \<Rightarrow> [error_output (Some (cm_id m)) e] | Inr _ \<Rightarrow> []))
      | Browser_message (CloseFrame _) \<Rightarrow> []
      | Browser_message _ \<Rightarrow> [error_output None (plain ''RTC gateway accepts text JSON only'')]
      | Session_event e \<Rightarrow> event_output E c e
      | _ \<Rightarrow> [])"

text \<open>The type and the data of a frame, and its request identifier.\<close>

definition frame_body :: "Value \<Rightarrow> (string \<times> EventData) option" where
  "frame_body v =
     Option.bind (as_object v) (\<lambda>m.
     Option.bind (Option.bind (get m ''type'') as_str) (\<lambda>k.
     Option.bind (Option.bind (get m ''data'') as_object) (\<lambda>d. Some (k, d))))"

definition frame_id :: "Value \<Rightarrow> string option" where
  "frame_id v = Option.bind (Option.bind (as_object v) (\<lambda>m. get m ''id'')) as_str"

text \<open>
  A message that is refused, with the identifier its answer carries: text that is no message has
  none, a command that is refused or that the control channel does not take has its own, a message
  that is not text has none.
\<close>

definition refusal ::
  "('k, 'c, 'h, 'w) gateway_env \<Rightarrow> ('hd, 'c, 'w) Connection \<Rightarrow> Message \<Rightarrow> (string option \<times> CommandError) option" where
  "refusal E c msg =
     (case msg of
        Text t \<Rightarrow>
          (case parse_message (env_from_str E) t of
             Inl e \<Rightarrow> Some (None, e)
           | Inr m \<Rightarrow>
               (case translate (pending_offer_id c \<noteq> None) (generated_offer c) m of
                  Inl e \<Rightarrow> Some (Some (cm_id m), e)
                | Inr _ \<Rightarrow>
                    map_option (\<lambda>e. (Some (cm_id m), plain (error_to_string (env_show_status E) e)))
                      (closed_error (env_channel E) (sess_channel (conn_session c)))))
      | CloseFrame _ \<Rightarrow> None
      | _ \<Rightarrow> Some (None, plain ''RTC gateway accepts text JSON only''))"

text \<open>The observations of a run, in order, until the loop is left.\<close>

fun observe ::
  "('k, 'c, 'h, 'w) gateway_env \<Rightarrow> (('hd, 'c, 'w) Connection \<Rightarrow> gateway_input \<Rightarrow> 'o list)
     \<Rightarrow> gateway_input list \<Rightarrow> ('hd, 'c, 'w) Connection \<Rightarrow> 'o list" where
  "observe E f [] c = []"
| "observe E f (i # is) c =
     f c i @ (case serve_step E c i of Break _ \<Rightarrow> [] | Continue c' \<Rightarrow> observe E f is c')"

text \<open>
  The order the commands of a negotiation have to keep: after an offer with a generation every
  candidate has one, until an offer without.
\<close>

fun negotiation_ok :: "bool \<Rightarrow> (string \<times> EventData) list \<Rightarrow> bool" where
  "negotiation_ok gen [] = True"
| "negotiation_ok gen ((e, p) # cmds) =
     (if e = ''rtc.offer'' then negotiation_ok (get p ''generation'' \<noteq> None) cmds
      else if e = ''rtc.ice_candidate'' then
        (if gen then get p ''generation'' \<noteq> None else True) \<and> negotiation_ok gen cmds
      else negotiation_ok gen cmds)"

text \<open>
  The discipline of offers, with the identifier of the offer that is open, over what each input
  puts out. An \<open>rtc.offer\<close> is passed on only when none is open, and opens the one of its message. An
  answer or signalling error is forwarded under the identifier of the open offer and closes it; every
  other event is forwarded without one. A message that is not passed on is answered by one frame
  under its own identifier, and that answer closes the offer it names; what is no message is
  answered without one.
\<close>

fun no_request :: "gateway_output \<Rightarrow> bool" where
  "no_request (Command _ _) = False"
| "no_request (Frame v) = (frame_id v = None)"
| "no_request (Close_frame _) = True"

fun exchange_ok ::
  "(string \<Rightarrow> (Value, string) result) \<Rightarrow> string option \<Rightarrow> (gateway_input \<times> gateway_output list) list \<Rightarrow> bool" where
  "exchange_ok F p [] = True"
| "exchange_ok F p ((Browser_message (Text t), out) # xs) =
     (case parse_message F t of
        Inl _ \<Rightarrow> list_all no_request out \<and> exchange_ok F p xs
      | Inr m \<Rightarrow>
          (case out of
             [Command e _] \<Rightarrow>
               if e = ''rtc.offer'' then p = None \<and> exchange_ok F (Some (cm_id m)) xs else exchange_ok F p xs
           | [Frame v] \<Rightarrow>
               frame_id v = Some (cm_id m) \<and> map_option fst (frame_body v) = Some ''gateway.error'' \<and>
               exchange_ok F (if p = Some (cm_id m) then None else p) xs
           | _ \<Rightarrow> False))"
| "exchange_ok F p ((Session_event e, out) # xs) =
     (case out of
        Frame v # rest \<Rightarrow>
          frame_body v = Some (wire_type e, data e) \<and> list_all no_request rest \<and>
          (if wire_type e \<in> {''rtc.answer'', ''rtc.signaling_error''}
           then frame_id v = p \<and> exchange_ok F None xs
           else frame_id v = None \<and> exchange_ok F p xs)
      | _ \<Rightarrow> False)"
| "exchange_ok F p ((_, out) # xs) = (list_all no_request out \<and> exchange_ok F p xs)"

text \<open>The shape of what reaches the control channel, whatever the browser sent.\<close>

definition safe_generation :: "EventData \<Rightarrow> bool" where
  "safe_generation p =
     (case get p ''generation'' of
        None \<Rightarrow> True
      | Some (Number (PosInt g)) \<Rightarrow> 0 < unat g \<and> unat g < 2 ^ 53
      | _ \<Rightarrow> False)"

definition clean_offer :: "Value option \<Rightarrow> bool" where
  "clean_offer v =
     (case v of
        Some (Object obj) \<Rightarrow> fmdom' obj = {''type'', ''sdp''} \<and> get obj ''type'' = Some (String ''offer'') \<and>
          (case get obj ''sdp'' of Some (String sdp) \<Rightarrow> trim sdp \<noteq> [] | _ \<Rightarrow> False)
      | _ \<Rightarrow> False)"

definition clean_candidate :: "Value option \<Rightarrow> bool" where
  "clean_candidate v =
     (case v of
        Some Null \<Rightarrow> True
      | Some (Object obj) \<Rightarrow>
          fmdom' obj = {''candidate'', ''sdpMid'', ''sdpMLineIndex'', ''usernameFragment''} \<and>
          (case get obj ''candidate'' of Some (String _) \<Rightarrow> True | _ \<Rightarrow> False)
      | _ \<Rightarrow> False)"

definition clean_command :: "string \<times> EventData \<Rightarrow> bool" where
  "clean_command cmd =
     (let (e, p) = cmd in
      e = ''rtc.offer'' \<and> fmdom' p \<subseteq> {''offer'', ''restart'', ''generation''} \<and>
        clean_offer (get p ''offer'') \<and> safe_generation p \<and> get p ''restart'' \<in> {Some (Bool True), Some (Bool False)} \<or>
      e = ''rtc.ice_candidate'' \<and> fmdom' p \<subseteq> {''candidate'', ''generation''} \<and>
        clean_candidate (get p ''candidate'') \<and> safe_generation p \<or>
      e = ''rtc.close'' \<and> fmdom' p = {''reason''} \<and> Option.bind (get p ''reason'') as_str \<noteq> None)"

section \<open>Lemmas\<close>

lemma MAX_SAFE_INTEGER_unat: "unat MAX_SAFE_INTEGER = 2 ^ 53 - 1"
  by (simp add: MAX_SAFE_INTEGER_def)

lemma safe_range: "(0 < n \<and> n \<le> MAX_SAFE_INTEGER) \<longleftrightarrow> (0 < unat n \<and> unat n < 2 ^ 53)"
  by (auto simp: word_le_nat_alt word_less_nat_alt MAX_SAFE_INTEGER_unat)

lemma generation_Ok_Some:
  "generation m command req = Ok (Some g) \<longleftrightarrow>
     get m ''generation'' = Some (Number (PosInt g)) \<and> 0 < unat g \<and> unat g < 2 ^ 53"
proof -
  have "generation m command req = Ok (Some g) \<longleftrightarrow>
      get m ''generation'' = Some (Number (PosInt g)) \<and> (0 < g \<and> g \<le> MAX_SAFE_INTEGER)"
    by (auto simp: generation_def split: option.splits if_splits)
  then show ?thesis by (simp only: safe_range)
qed

lemma generation_Ok_None:
  "generation m command req = Ok None \<longleftrightarrow> get m ''generation'' = None \<and> \<not> req"
  by (auto simp: generation_def split: option.splits)

lemma generation_Err_typed: "generation m command req = Err e \<Longrightarrow> ce_typed e"
  by (auto simp: generation_def invalid_def split: option.splits if_splits)

lemma trimmed_text:
  "unwrap_or [] (map_option trim (Option.bind x as_str)) \<noteq> [] \<longleftrightarrow> (\<exists>s. x = Some (String s) \<and> trim s \<noteq> [])"
proof (cases x)
  case (Some v)
  then show ?thesis by (cases v) auto
qed simp

lemma offer_Ok:
  "offer v = Ok off \<longleftrightarrow>
     (\<exists>obj sdp. v = Some (Object obj) \<and> get obj ''type'' = Some (String ''offer'') \<and>
        get obj ''sdp'' = Some (String sdp) \<and> trim sdp \<noteq> [] \<and>
        off = json [(''type'', String ''offer''), (''sdp'', String sdp)])"
  by (auto simp: offer_def trimmed_text bind_eq_Some_conv bind_eq_None_conv split: option.splits if_splits)

lemma candidate_Ok:
  "candidate v = Ok cand \<longleftrightarrow>
     (v = None \<or> v = Some Null) \<and> cand = None \<or>
     (\<exists>obj txt. v = Some (Object obj) \<and> get obj ''candidate'' = Some (String txt) \<and>
        cand = Some (json [(''candidate'', String txt),
          (''sdpMid'', unwrap_or Null (get obj ''sdpMid'')),
          (''sdpMLineIndex'', unwrap_or Null (get obj ''sdpMLineIndex'')),
          (''usernameFragment'', unwrap_or Null (get obj ''usernameFragment''))]))"
  by (auto simp: candidate_def bind_eq_Some_conv split: option.splits if_splits)

lemma get_generation_payload:
  "get (generation_payload g p) k =
     (if k = ''generation'' \<and> g \<noteq> None then Some (Number (PosInt (the g))) else get p k)"
  by (cases g) (auto simp: generation_payload_def)

lemma map_command_error_simps [simp]:
  "map_command_error E (Ok ()) = Ok ()"
  "map_command_error E (Err x) = Err (plain (error_to_string (env_show_status E) x))"
  by (simp_all add: map_command_error_def)

text \<open>The handlers do what the translation says, and nothing else.\<close>

lemma handle_offer_sends:
  assumes "pending_offer_id c = None" and "generation (cm_data m) ''rtc.offer'' False = Ok g"
    and "offer (get (cm_data m) ''offer'') = Ok off"
  shows "handle_offer E m c =
    (let p = generation_payload g (put ''restart'' (Bool (get (cm_data m) ''restart'' = Some (Bool True)))
           (put ''offer'' off fmempty));
         (r, s) = send_control (env_channel E) ''rtc.offer'' p (conn_session c)
     in (map_command_error E r,
         remember (r = Ok ()) (cm_id m) (''rtc.offer'', p) (c\<lparr>conn_session := s\<rparr>)))"
proof -
  let ?p = "generation_payload g (put ''restart'' (Bool (get (cm_data m) ''restart'' = Some (Bool True)))
           (put ''offer'' off fmempty))"
  obtain r s where rs: "send_control (env_channel E) ''rtc.offer'' ?p (conn_session c) = (r, s)"
    by fastforce
  have "get ?p ''generation'' = map_option (\<lambda>n. Number (PosInt n)) g"
    by (cases g) (simp_all add: get_generation_payload)
  then show ?thesis
    by (cases r) (simp_all add: handle_offer_def assms send_offer_def rs remember_def Let_def del: fmupd_lookup)
qed

lemma handle_message_translate:
  "handle_message E m c =
     (case translate (pending_offer_id c \<noteq> None) (generated_offer c) m of
        Inl e \<Rightarrow> (Err e, c)
      | Inr cmd \<Rightarrow>
          (let (r, s) = send_control (env_channel E) (fst cmd) (snd cmd) (conn_session c)
           in (map_command_error E r,
               remember (r = Ok ()) (cm_id m) cmd (c\<lparr>conn_session := s\<rparr>))))"
proof -
  consider "cm_kind m = ''rtc.offer''" | "cm_kind m = ''rtc.ice_candidate''" | "cm_kind m = ''rtc.close''"
    | "cm_kind m \<notin> {''rtc.offer'', ''rtc.ice_candidate'', ''rtc.close''}" by blast
  then show ?thesis
  proof cases
    case 1
    show ?thesis
    proof (cases "pending_offer_id c = None")
      case None: True
      show ?thesis
        by (cases "generation (cm_data m) ''rtc.offer'' False"; cases "offer (get (cm_data m) ''offer'')")
          (simp_all add: 1 None handle_message_def translate_def handle_offer_sends Let_def,
            simp_all add: handle_offer_def None)
    qed (simp add: 1 handle_message_def handle_offer_def translate_def)
  next
    case 2
    then show ?thesis
      by (cases "generation (cm_data m) ''rtc.ice_candidate'' (generated_offer c)";
          cases "candidate (get (cm_data m) ''candidate'')")
        (simp_all add: handle_message_def handle_candidate_def translate_def remember_def send_ice_candidate_def)
  next
    case 3
    then show ?thesis
      by (simp add: handle_message_def handle_close_def translate_def remember_def close_rtc_def
          Let_def split: prod.splits)
  qed (simp add: handle_message_def translate_def)
qed

lemma remember_fields [simp]:
  "conn_headers (remember b i cmd c) = conn_headers c"
  "conn_session (remember b i cmd c) = conn_session c"
  "sender (remember b i cmd c) = sender c"
  "calls (remember b i cmd c) = calls c"
  "close_reason (remember b i cmd c) = close_reason c"
  "rtc_close_requested (remember b i cmd c) \<longleftrightarrow> rtc_close_requested c \<or> fst cmd = ''rtc.close''"
  by (auto simp: remember_def)

lemma translate_Ok_kind: "translate pnd gen m = Ok cmd \<Longrightarrow> fst cmd = cm_kind m"
  by (auto simp: translate_def split: if_splits sum.splits)

lemma translate_Ok_offer: "translate pnd gen m = Ok cmd \<Longrightarrow> cm_kind m = ''rtc.offer'' \<Longrightarrow> \<not> pnd"
  by (auto simp: translate_def split: if_splits)

text \<open>What handling a message can change, in the three cases it has.\<close>

lemma handle_message_cases:
  obtains (refused) e where "translate (pending_offer_id c \<noteq> None) (generated_offer c) m = Err e"
    and "handle_message E m c = (Err e, c)"
  | (failed) cmd e where "translate (pending_offer_id c \<noteq> None) (generated_offer c) m = Ok cmd"
    and "closed_error (env_channel E) (sess_channel (conn_session c)) \<noteq> None"
    and "handle_message E m c = (Err e, remember False (cm_id m) cmd c)"
  | (sent) cmd where "translate (pending_offer_id c \<noteq> None) (generated_offer c) m = Ok cmd"
    and "closed_error (env_channel E) (sess_channel (conn_session c)) = None"
    and "handle_message E m c = (Ok (), remember True (cm_id m) cmd
      (c\<lparr>conn_session := snd (send_control (env_channel E) (fst cmd) (snd cmd) (conn_session c))\<rparr>))"
proof (cases "translate (pending_offer_id c \<noteq> None) (generated_offer c) m")
  case (Inl e)
  with refused show thesis by (simp add: handle_message_translate)
next
  case (Inr cmd)
  show thesis
  proof (cases "closed_error (env_channel E) (sess_channel (conn_session c)) = None")
    case True
    with Inr sent show thesis by (simp add: handle_message_translate send_control_open)
  next
    case False
    with Inr failed show thesis by (simp add: handle_message_translate send_control_closed)
  qed
qed

subsection \<open>Runs of the loop\<close>

fun flow_conn :: "('hd, 'c, 'w) flow \<Rightarrow> ('hd, 'c, 'w) Connection" where
  "flow_conn (Break c) = c"
| "flow_conn (Continue c) = c"

lemma foldl_serve_round_Break [simp]: "foldl (serve_round E) (Break c) is = Break c"
  by (induction "is") auto

lemma serve_loop_simps [simp]:
  "serve_loop E [] c = Continue c"
  "serve_loop E (i # is) c =
     (case serve_step E c i of Break c' \<Rightarrow> Break c' | Continue c' \<Rightarrow> serve_loop E is c')"
  by (simp_all add: serve_loop_def split: ControlFlow.splits)

lemma serve_loop_append:
  "serve_loop E (is @ js) c =
     (case serve_loop E is c of Break c' \<Rightarrow> Break c' | Continue c' \<Rightarrow> serve_loop E js c')"
  by (simp add: serve_loop_def split: ControlFlow.splits)

lemma break_if_err_conn [simp]:
  "flow_conn (break_if_err rw c) = c\<lparr>sender := snd rw\<rparr>"
  by (simp add: break_if_err_def Let_def)

text \<open>
  The loop calls no hook and leaves the identity of the session and its generation alone; a
  close that was requested stays requested.
\<close>

definition loop_inv :: "('hd, 'c, 'w) Connection \<Rightarrow> ('hd, 'c, 'w) flow \<Rightarrow> bool" where
  "loop_inv c0 f \<longleftrightarrow> (let c = flow_conn f in
     calls c = calls c0 \<and> conn_headers c = conn_headers c0 \<and>
     response_generation (conn_session c) = response_generation (conn_session c0) \<and>
     sess_id (conn_session c) = sess_id (conn_session c0) \<and>
     sess_channel_name (conn_session c) = sess_channel_name (conn_session c0) \<and>
     (rtc_close_requested c0 \<longrightarrow> rtc_close_requested c))"

lemma browser_text_conn:
  obtains "flow_conn (browser_text E txt c) =
      c\<lparr>sender := sender (flow_conn (browser_text E txt c))\<rparr>"
  | m where "parse_message (env_from_str E) txt = Ok m"
    and "flow_conn (browser_text E txt c) = (snd (handle_message E m c))
      \<lparr>pending_offer_id := pending_offer_id (flow_conn (browser_text E txt c)),
       sender := sender (flow_conn (browser_text E txt c))\<rparr>"
proof (cases "parse_message (env_from_str E) txt")
  case (Inl e)
  then show thesis using that(1) by (simp add: browser_text_def)
next
  case (Inr m)
  then show thesis using that(2) [OF Inr]
    by (auto simp: browser_text_def Let_def split: sum.splits prod.splits)
qed

lemma handle_message_frame:
  "loop_inv c (Continue (snd (handle_message E m c)))"
  by (cases rule: handle_message_cases [of c m E]) (auto simp: loop_inv_def send_control_eq)

lemma serve_step_frame: "loop_inv c (serve_step E c i)"
proof (cases "\<exists>txt. i = Browser_message (Text txt)")
  case True
  then obtain t where i: "i = Browser_message (Text t)" by blast
  show ?thesis
  proof (rule browser_text_conn [of E t c], goal_cases)
    case 1
    have "f = c\<lparr>sender := w\<rparr> \<Longrightarrow> calls f = calls c \<and> conn_headers f = conn_headers c \<and>
        conn_session f = conn_session c \<and> rtc_close_requested f = rtc_close_requested c" for f w
      by simp
    from this [OF 1] show ?case by (simp add: loop_inv_def i)
  next
    case (2 m)
    have "f = h\<lparr>pending_offer_id := q, sender := w\<rparr> \<Longrightarrow> calls f = calls h \<and> conn_headers f = conn_headers h \<and>
        conn_session f = conn_session h \<and> rtc_close_requested f = rtc_close_requested h" for f h q w
      by simp
    from this [OF 2(2)] handle_message_frame [of c E m] show ?case
      by (simp add: loop_inv_def i Let_def)
  qed
next
  case False
  then show ?thesis
    by (cases "(E, c, i)" rule: serve_step.cases)
      (auto simp: loop_inv_def session_event_defs Let_def split: prod.splits)
qed

lemma serve_round_inv: "loop_inv c0 f \<Longrightarrow> loop_inv c0 (serve_round E f i)"
proof (cases f)
  case (Continue c)
  assume "loop_inv c0 f"
  with serve_step_frame [of c E i] Continue show ?thesis by (auto simp: loop_inv_def Let_def)
qed simp

interpretation conn: step_invariant "serve_round E" "loop_inv c0" for E c0
  by unfold_locales (rule serve_round_inv)

lemma serve_loop_frame: "loop_inv c (serve_loop E is c)"
  unfolding serve_loop_def by (rule conn.run_inv) (simp add: loop_inv_def)

subsection \<open>What is sent to the control channel\<close>

lemma fmdom'_object_of: "fmdom' (object_of kvs) = fst ` set kvs"
proof (rule set_eqI)
  fix k
  have "k \<in> fmdom' (object_of kvs) \<longleftrightarrow> map_of (rev kvs) k \<noteq> None"
    by (simp add: fmlookup_dom'_iff get_object_of)
  then show "k \<in> fmdom' (object_of kvs) \<longleftrightarrow> k \<in> fst ` set kvs"
    by (simp add: map_of_eq_None_iff)
qed

lemma fmdom'_generation_payload: "fmdom' (generation_payload g p) \<subseteq> insert ''generation'' (fmdom' p)"
  by (cases g) (auto simp: generation_payload_def)

lemma safe_generation_payload:
  assumes "generation m command req = Ok g" and "get p ''generation'' = None"
  shows "safe_generation (generation_payload g p)"
proof (cases g)
  case None
  with assms(2) show ?thesis by (simp add: safe_generation_def generation_payload_def)
next
  case (Some n)
  with assms(1) have "0 < unat n \<and> unat n < 2 ^ 53" by (simp add: generation_Ok_Some)
  with Some show ?thesis by (simp add: safe_generation_def generation_payload_def)
qed

lemma offer_clean: "offer v = Ok off \<Longrightarrow> clean_offer (Some off)"
  by (auto simp: offer_Ok clean_offer_def json_def fmdom'_object_of get_object_of)

lemma candidate_clean: "candidate v = Ok cand \<Longrightarrow> clean_candidate (Some (unwrap_or Null cand))"
  by (auto simp: candidate_Ok clean_candidate_def json_def fmdom'_object_of get_object_of)

lemma translate_clean:
  assumes "translate pnd gen m = Ok cmd"
  shows "clean_command cmd"
proof -
  from assms consider
    (offer) g off b where "generation (cm_data m) ''rtc.offer'' False = Ok g" "offer (get (cm_data m) ''offer'') = Ok off"
      "cmd = (''rtc.offer'', generation_payload g (put ''restart'' (Bool b) (put ''offer'' off fmempty)))"
  | (candidate) g cand where "generation (cm_data m) ''rtc.ice_candidate'' gen = Ok g"
      "candidate (get (cm_data m) ''candidate'') = Ok cand"
      "cmd = (''rtc.ice_candidate'', generation_payload g (put ''candidate'' (unwrap_or Null cand) fmempty))"
  | (close) r where "cmd = (''rtc.close'', put ''reason'' (String r) fmempty)"
    by (auto simp: translate_def split: if_splits sum.splits)
  then show ?thesis
  proof cases
    case offer
    have "fmdom' (snd cmd) \<subseteq> {''offer'', ''restart'', ''generation''}"
      using fmdom'_generation_payload [of g "put ''restart'' (Bool b) (put ''offer'' off fmempty)"]
      by (auto simp: offer(3))
    moreover have "safe_generation (snd cmd)"
      using safe_generation_payload [OF offer(1), of "put ''restart'' (Bool b) (put ''offer'' off fmempty)"]
      by (simp add: offer(3))
    ultimately show ?thesis
      using offer_clean [OF offer(2)] by (simp add: clean_command_def offer(3) get_generation_payload)
  next
    case candidate
    have "fmdom' (snd cmd) \<subseteq> {''candidate'', ''generation''}"
      using fmdom'_generation_payload [of g "put ''candidate'' (unwrap_or Null cand) fmempty"]
      by (auto simp: candidate(3))
    moreover have "safe_generation (snd cmd)"
      using safe_generation_payload [OF candidate(1), of "put ''candidate'' (unwrap_or Null cand) fmempty"]
      by (simp add: candidate(3))
    ultimately show ?thesis
      using candidate_clean [OF candidate(2)] by (simp add: clean_command_def candidate(3) get_generation_payload)
  qed (simp add: clean_command_def)
qed

lemma sent_command_translate:
  "cmd \<in> set (sent_command E c i) \<Longrightarrow> \<exists>m. translate (pending_offer_id c \<noteq> None) (generated_offer c) m = Ok cmd"
  by (auto simp: sent_command_def split: gateway_input.splits Message.splits sum.splits if_splits)

lemma observe_all:
  assumes "\<And>c i. list_all p (f c i)"
  shows "list_all p (observe E f is c)"
  using assms by (induction "is" arbitrary: c) (auto split: ControlFlow.splits)

lemma generation_required: "generation m command True = Ok g \<Longrightarrow> \<exists>n. g = Some n"
  by (cases g) (auto simp: generation_Ok_None)

lemma translate_candidate_generation:
  "translate pnd True m = Ok (''rtc.ice_candidate'', p) \<Longrightarrow> get p ''generation'' \<noteq> None"
  by (auto simp: translate_def get_generation_payload dest!: generation_required split: if_splits sum.splits)

text \<open>How one round changes the two facts the specifications follow.\<close>

lemma step_generated_offer:
  "generated_offer (flow_conn (serve_step E c i)) =
     (case sent_command E c i of
        [(e, p)] \<Rightarrow> if e = ''rtc.offer'' then get p ''generation'' \<noteq> None else generated_offer c
      | _ \<Rightarrow> generated_offer c)"
proof (cases "\<exists>t. i = Browser_message (Text t)")
  case True
  then obtain t where i: "i = Browser_message (Text t)" by blast
  show ?thesis
  proof (cases "parse_message (env_from_str E) t")
    case (Inl e)
    then show ?thesis by (simp add: i browser_text_def sent_command_def)
  next
    case (Inr m)
    show ?thesis
      by (cases rule: handle_message_cases [of c m E])
        (auto simp: i Inr browser_text_def sent_command_def remember_def Let_def split: prod.splits)
  qed
next
  case False
  then have "sent_command E c i = []"
    by (auto simp: sent_command_def split: gateway_input.splits Message.splits)
  with False show ?thesis
    by (cases "(E, c, i)" rule: serve_step.cases)
      (auto simp: session_event_defs Let_def split: prod.splits)
qed

lemma sent_command_short: "sent_command E c i = [] \<or> (\<exists>e p. sent_command E c i = [(e, p)])"
  by (auto simp: sent_command_def split: gateway_input.splits Message.splits sum.splits if_splits)

lemma frame_json_parts [simp]:
  "frame_body (frame_json i k (Object d)) = Some (k, d)"
  "frame_id (frame_json i k v) = i"
  by (cases i; simp add: frame_body_def frame_id_def frame_json_def get_object_of Let_def)+

lemma error_output_parts [simp]:
  "no_request (error_output i e) \<longleftrightarrow> i = None"
  "\<exists>v. error_output i e = Frame v \<and> frame_id v = i \<and> map_option fst (frame_body v) = Some ''gateway.error''"
  by (simp_all add: error_output_def error_json_def Let_def)

lemma step_exchange:
  assumes "exchange_ok (env_from_str E) (pending_offer_id (flow_conn (serve_step E c i))) xs"
  shows "exchange_ok (env_from_str E) (pending_offer_id c) ((i, step_output E c i) # xs)"
proof (cases "\<exists>t. i = Browser_message (Text t)")
  case True
  then obtain t where i: "i = Browser_message (Text t)" by blast
  show ?thesis
  proof (cases "parse_message (env_from_str E) t")
    case (Inl e)
    with assms show ?thesis by (simp add: i browser_text_def step_output_def)
  next
    case (Inr m)
    show ?thesis
    proof (cases rule: handle_message_cases [of c m E])
      case (refused e)
      obtain v where "error_output (Some (cm_id m)) e = Frame v" "frame_id v = Some (cm_id m)"
        "map_option fst (frame_body v) = Some ''gateway.error''" using error_output_parts(2) by blast
      with refused assms show ?thesis
        by (simp add: i Inr browser_text_def step_output_def sent_command_def Let_def split: if_splits)
    next
      case (failed cmd e)
      obtain v where "error_output (Some (cm_id m)) e = Frame v" "frame_id v = Some (cm_id m)"
        "map_option fst (frame_body v) = Some ''gateway.error''" using error_output_parts(2) by blast
      with failed assms translate_Ok_offer [OF failed(1)] translate_Ok_kind [OF failed(1)] show ?thesis
        by (auto simp: i Inr browser_text_def step_output_def sent_command_def remember_def Let_def split: if_splits)
    next
      case (sent cmd)
      with assms translate_Ok_offer [OF sent(1)] translate_Ok_kind [OF sent(1)] show ?thesis
        by (auto simp: i Inr browser_text_def step_output_def sent_command_def remember_def case_prod_beta split: if_splits)
    qed
  qed
next
  case False
  with assms show ?thesis
    by (cases "(E, c, i)" rule: serve_step.cases)
      (auto simp: step_output_def event_output_def session_event_defs Let_def split: prod.splits if_splits)
qed

lemma step_effects:
  "(conn_session (flow_conn (serve_step E c i)), sender (flow_conn (serve_step E c i))) =
     foldl (do_output E) (conn_session c, sender c) (step_output E c i)"
proof (cases "\<exists>t. i = Browser_message (Text t)")
  case True
  then obtain t where i: "i = Browser_message (Text t)" by blast
  show ?thesis
  proof (cases "parse_message (env_from_str E) t")
    case (Inl e)
    then show ?thesis by (simp add: i browser_text_def step_output_def error_output_def send_error_def send_json_def)
  next
    case (Inr m)
    show ?thesis
      by (cases rule: handle_message_cases [of c m E])
        (auto simp: i Inr browser_text_def step_output_def sent_command_def error_output_def send_error_def
          send_json_def case_prod_beta Let_def)
  qed
next
  case False
  then show ?thesis
    by (cases "(E, c, i)" rule: serve_step.cases)
      (auto simp: step_output_def event_output_def error_output_def send_error_def send_json_def session_event_defs
        Let_def split: prod.splits)
qed

text \<open>What the inputs of a run put out, until the loop is left.\<close>

definition run_outputs ::
  "('k, 'c, 'h, 'w) gateway_env \<Rightarrow> gateway_input list \<Rightarrow> ('hd, 'c, 'w) Connection \<Rightarrow> (gateway_input \<times> gateway_output list) list" where
  "run_outputs E is c = observe E (\<lambda>c i. [(i, step_output E c i)]) is c"

lemma run_outputs_simps [simp]:
  "run_outputs E [] c = []"
  "run_outputs E (i # is) c =
     (i, step_output E c i) # (case serve_step E c i of Break _ \<Rightarrow> [] | Continue c' \<Rightarrow> run_outputs E is c')"
  by (simp_all add: run_outputs_def split: ControlFlow.split)

lemma run_exchange: "exchange_ok (env_from_str E) (pending_offer_id c) (run_outputs E is c)"
proof (induction "is" arbitrary: c)
  case (Cons i "is")
  then show ?case
    by (cases "serve_step E c i") (use step_exchange [of E c i] step_exchange [of E c i "[]"] in auto)
qed simp

lemma run_inputs: "prefix (map fst (run_outputs E is c)) is"
  by (induction "is" arbitrary: c) (auto split: ControlFlow.split)

lemma run_effects:
  "(conn_session (flow_conn (serve_loop E is c)), sender (flow_conn (serve_loop E is c))) =
     foldl (do_output E) (conn_session c, sender c) (concat (map snd (run_outputs E is c)))"
proof (induction "is" arbitrary: c)
  case (Cons i "is")
  then show ?case by (cases "serve_step E c i") (use step_effects [of E c i] in \<open>auto simp: foldl_append\<close>)
qed simp

text \<open>A session after a list of commands has been sent on it.\<close>

definition after_sending ::
  "'c pond_channel \<Rightarrow> (string \<times> EventData) list \<Rightarrow> 'c VoxRtcControlSession \<Rightarrow> 'c VoxRtcControlSession" where
  "after_sending P cmds s = foldl (\<lambda>s (e, p). snd (send_control P e p s)) s cmds"

lemma after_sending_append: "after_sending P (xs @ ys) s = after_sending P ys (after_sending P xs s)"
  by (simp add: after_sending_def)

lemma step_session:
  "conn_session (flow_conn (serve_step E c i)) =
     after_sending (env_channel E) (sent_command E c i) (conn_session c)"
proof (cases "\<exists>t. i = Browser_message (Text t)")
  case True
  then obtain t where i: "i = Browser_message (Text t)" by blast
  show ?thesis
  proof (cases "parse_message (env_from_str E) t")
    case (Inl e)
    then show ?thesis by (simp add: i browser_text_def sent_command_def after_sending_def)
  next
    case (Inr m)
    show ?thesis
      by (cases rule: handle_message_cases [of c m E])
        (auto simp: i Inr browser_text_def sent_command_def after_sending_def Let_def split: prod.splits)
  qed
next
  case False
  then have "sent_command E c i = []"
    by (auto simp: sent_command_def split: gateway_input.splits Message.splits)
  with False show ?thesis
    by (cases "(E, c, i)" rule: serve_step.cases)
      (auto simp: session_event_defs after_sending_def Let_def split: prod.splits)
qed

subsection \<open>Cleanup\<close>

fun is_closed_call :: "('hd, 'c) hook_call \<Rightarrow> bool" where
  "is_closed_call (Closed_hook _) = True"
| "is_closed_call _ = False"

definition closed_calls :: "('hd, 'c) hook_call list \<Rightarrow> nat" where
  "closed_calls cs = length (filter is_closed_call cs)"

lemma closed_calls_simps [simp]:
  "closed_calls [] = 0"
  "closed_calls (cs @ [Closed_hook x]) = Suc (closed_calls cs)"
  "closed_calls [Created_hook y] = 0"
  "closed_calls (report opts e cs) = closed_calls cs"
  by (simp_all add: closed_calls_def report_def split: option.splits)

lemma cleanup_closed_calls:
  "closed_calls (calls (cleanup E opts req rsn c)) =
     closed_calls (calls c) + (if go_on_session_closed opts = None then 0 else 1)"
  by (auto simp: cleanup_def Let_def split: option.splits prod.splits sum.splits)

text \<open>The closed hook is called once when the connection ends, given the calls before.\<close>

fun called_once :: "('hd, 'c) GatewayOptions \<Rightarrow> nat \<Rightarrow> ('hd, 'c, 'w) Connection serving \<Rightarrow> bool" where
  "called_once opts n (Served c) = (closed_calls (calls c) = n + (if go_on_session_closed opts = None then 0 else 1))"
| "called_once opts n (Serving c) = (closed_calls (calls c) = n)"

lemma serve_ready_called_once:
  assumes n: "closed_calls (calls c) = n"
  shows "called_once opts n (serve_ready E opts is controlled c)"
proof -
  obtain r w where rw: "send_json E None ''gateway.ready'' (bootstrap_json controlled) (sender c) = (r, w)"
    by fastforce
  let ?c = "c\<lparr>sender := w\<rparr>"
  have frame: "calls (flow_conn (serve_loop E is ?c)) = calls c"
    using serve_loop_frame [of ?c E "is"] by (simp add: loop_inv_def Let_def)
  show ?thesis
  proof (cases "is_err r")
    case True
    then show ?thesis by (simp add: serve_ready_def rw cleanup_closed_calls n)
  next
    case False
    with frame show ?thesis
      by (cases "serve_loop E is ?c") (simp_all add: serve_ready_def rw cleanup_closed_calls n)
  qed
qed

text \<open>The session after its two closing commands.\<close>

definition released :: "'c pond_channel \<Rightarrow> bool \<Rightarrow> string \<Rightarrow> 'c VoxRtcControlSession \<Rightarrow> 'c VoxRtcControlSession" where
  "released P req rsn s = snd (session_close P (if req then s else snd (close_rtc P rsn s)))"

lemma cleanup_hook:
  "go_on_session_closed opts = Some hook \<Longrightarrow>
   Closed_hook \<lparr>closed_headers = conn_headers c,
     closed_session = released (env_channel E) req rsn (conn_session c), closed_reason = rsn\<rparr>
     \<in> set (calls (cleanup E opts req rsn c))"
  by (simp add: cleanup_def released_def report_def Let_def split: option.splits prod.splits sum.splits)

lemma released_open:
  assumes "closed_error P (sess_channel s) = None"
    and "closed_error P ((sess_channel s)\<lparr>channel := sent\<rparr>) = None"
    and "sent = (if req then channel (sess_channel s)
      else pond_send_message P ''rtc.close'' (Some (put ''reason'' (String rsn) fmempty)) (channel (sess_channel s)))"
  shows "released P req rsn s = s\<lparr>sess_channel := (sess_channel s)\<lparr>channel := pond_leave P sent\<rparr>\<rparr>"
  using assms by (cases req)
    (simp_all add: released_def session_close_def close_rtc_def send_control_open raw_leave_def)

subsection \<open>Paths\<close>

lemma trim_start_matches_decomp: "\<exists>n. s = replicate n c @ trim_start_matches c s"
proof -
  have "takeWhile (\<lambda>x. x = c) s = replicate (length (takeWhile (\<lambda>x. x = c) s)) c"
    by (rule replicate_eqI) (auto dest: set_takeWhileD)
  then show ?thesis
    unfolding trim_start_matches_def by (metis takeWhile_dropWhile_id)
qed

lemma trim_end_matches_hd: "trim_end_matches c s \<noteq> [] \<Longrightarrow> hd (trim_end_matches c s) = hd s"
  using trim_end_matches_decomp [of s c] by (metis hd_append2)

lemma trim_matches_decomp:
  obtains a b where "s = replicate a c @ trim_matches c s @ replicate b c"
    and "trim_matches c s = [] \<or> hd (trim_matches c s) \<noteq> c \<and> last (trim_matches c s) \<noteq> c"
proof -
  obtain a where a: "s = replicate a c @ trim_start_matches c s"
    using trim_start_matches_decomp by blast
  obtain b where b: "trim_start_matches c s = trim_matches c s @ replicate b c"
    unfolding trim_matches_def using trim_end_matches_decomp by blast
  have "hd (trim_start_matches c s) \<noteq> c" if "trim_start_matches c s \<noteq> []"
    using that hd_dropWhile [of "\<lambda>x. x = c" s] by (simp add: trim_start_matches_def)
  then have "trim_matches c s = [] \<or> hd (trim_matches c s) \<noteq> c \<and> last (trim_matches c s) \<noteq> c"
    using trim_end_matches_hd [of c "trim_start_matches c s"] trim_end_matches_last [of c "trim_start_matches c s"] b
    by (metis append_is_Nil_conv trim_matches_def)
  then show thesis using that a b by metis
qed

subsection \<open>Events\<close>

text \<open>What sending a list of frames does to the sink.\<close>

definition send_frames :: "('k, 'c, 'h, 'w) gateway_env \<Rightarrow> Value list \<Rightarrow> 'w \<Rightarrow> 'w" where
  "send_frames E vs w = foldl (\<lambda>w v. snd (env_send E (Text (env_to_string E v)) w)) w vs"

lemma session_event_ok:
  assumes "\<And>m w. fst (env_send E m w) = Ok ()" and "wire_type e \<noteq> ''rtc.session.closed''"
  shows "session_event E e c = Continue
    (c\<lparr>pending_offer_id := (if correlates e then None else pending_offer_id c),
       sender := send_frames E [frame_json (if correlates e then pending_offer_id c else None)
                                 (wire_type e) (Object (data e))] (sender c)\<rparr>)"
proof -
  have "env_send E m w = (Ok (), snd (env_send E m w))" for m w
    using assms(1) [of m w] by (cases "env_send E m w") auto
  then have send: "is_err (fst (env_send E m w)) = False" for m w by (metis fst_conv is_err_simps(2))
  show ?thesis
    using assms(2)
    by (auto simp: session_event_defs send_json_def send_frames_def case_prod_beta send Let_def)
qed

text \<open>What the commands of a run satisfy, and that they are all it does to its session.\<close>

lemma run_negotiation: "negotiation_ok (generated_offer c) (observe E (sent_command E) is c)"
proof (induction "is" arbitrary: c)
  case (Cons i "is")
  have head: "negotiation_ok (generated_offer c) (sent_command E c i @ xs)"
    if "negotiation_ok (generated_offer (flow_conn (serve_step E c i))) xs" for xs
    using sent_command_short [of E c i] that step_generated_offer [of E c i]
      sent_command_translate [of _ E c i] translate_candidate_generation
    by (auto split: if_splits)
  show ?case
    by (cases "serve_step E c i") (use head head [of "[]"] Cons.IH in auto)
qed simp

lemma run_clean: "list_all clean_command (observe E (sent_command E) is c)"
proof (rule observe_all)
  fix c :: "('e, 'b, 'd) Connection" and i
  show "list_all clean_command (sent_command E c i)"
    using sent_command_translate [of _ E c i] translate_clean by (fastforce simp: list_all_iff)
qed

lemma run_session:
  "conn_session (flow_conn (serve_loop E is c)) =
     after_sending (env_channel E) (observe E (sent_command E) is c) (conn_session c)"
proof (induction "is" arbitrary: c)
  case (Cons i "is")
  show ?case
    by (cases "serve_step E c i") (use step_session [of E c i] Cons.IH in \<open>auto simp: after_sending_append\<close>)
qed (simp add: after_sending_def)

subsection \<open>Forwarded events\<close>

text \<open>The session's events among the inputs of a loop, and the frames they became.\<close>

fun event_of :: "gateway_input \<Rightarrow> WireEvent list" where
  "event_of (Session_event e) = [e]"
| "event_of _ = []"

fun forwarded_of :: "gateway_input \<times> gateway_output list \<Rightarrow> Value list" where
  "forwarded_of (Session_event e, Frame v # _) = [v]"
| "forwarded_of _ = []"

definition session_events :: "gateway_input list \<Rightarrow> WireEvent list" where
  "session_events is = concat (map event_of is)"

definition forwarded :: "(gateway_input \<times> gateway_output list) list \<Rightarrow> Value list" where
  "forwarded xs = concat (map forwarded_of xs)"

lemma exchange_ok_Cons:
  "exchange_ok F p (x # xs) \<Longrightarrow>
   (\<exists>q. exchange_ok F q xs) \<and> map frame_body (forwarded_of x) = map (\<lambda>e. Some (wire_type e, data e)) (event_of (fst x))"
  by (cases "(F, p, x # xs)" rule: exchange_ok.cases)
    (auto simp: neq_Nil_conv split: sum.splits list.splits gateway_output.splits if_splits)

lemma exchange_forwarded:
  "exchange_ok F p xs \<Longrightarrow>
   map frame_body (forwarded xs) = map (\<lambda>e. Some (wire_type e, data e)) (session_events (map fst xs))"
proof (induction xs arbitrary: p)
  case (Cons x xs)
  with exchange_ok_Cons [OF Cons.prems] show ?case by (auto simp: forwarded_def session_events_def)
qed (simp add: forwarded_def session_events_def)

lemma session_events_prefix: "prefix is js \<Longrightarrow> prefix (session_events is) (session_events js)"
  by (auto simp: session_events_def elim!: prefixE)

lemma run_outputs_all: "serve_loop E is c = Continue c' \<Longrightarrow> map fst (run_outputs E is c) = is"
  by (induction "is" arbitrary: c) (auto split: ControlFlow.splits)

subsection \<open>The end of a loop\<close>

text \<open>The inputs that end a connection whose frames can be sent, and the reason they give.\<close>

definition announces_end :: "gateway_input \<Rightarrow> bool" where
  "announces_end i \<longleftrightarrow> (case i of Session_event e \<Rightarrow> wire_type e = ''rtc.session.closed'' | _ \<Rightarrow> False)"

definition exit_reason :: "gateway_input \<Rightarrow> string option" where
  "exit_reason i =
     (case i of
        Shutdown_changed v \<Rightarrow> v
      | Browser_message (CloseFrame _) \<Rightarrow> Some ''browser_disconnected''
      | Browser_error \<Rightarrow> Some ''browser_disconnected''
      | Browser_end \<Rightarrow> Some ''browser_disconnected''
      | Session_events_end \<Rightarrow> Some ''browser_disconnected''
      | Session_event e \<Rightarrow>
          (if wire_type e = ''rtc.session.closed''
           then Some (case get (data e) ''reason'' of Some (String r) \<Rightarrow> r | _ \<Rightarrow> ''session_closed'') else None)
      | _ \<Rightarrow> None)"

lemma event_reason_text:
  "unwrap_or d (event_reason e) = (case get (data e) ''reason'' of Some (String r) \<Rightarrow> r | _ \<Rightarrow> d)"
  by (cases "get (data e) ''reason''") (auto simp: event_reason_def split: Value.splits)

lemma step_goes_on:
  assumes "\<And>m w. fst (env_send E m w) = Ok ()" and "exit_reason i = None"
  shows "\<exists>c'. serve_step E c i = Continue c' \<and> close_reason c' = close_reason c"
proof (cases "\<exists>t. i = Browser_message (Text t)")
  case True
  then obtain t where i: "i = Browser_message (Text t)" by blast
  have send: "\<not> is_err (fst (env_send E m w))" for m w using assms(1) [of m w] by simp
  show ?thesis
  proof (cases "parse_message (env_from_str E) t")
    case (Inl e)
    then show ?thesis by (simp add: i browser_text_def break_if_err_def send_error_def send_json_def send Let_def)
  next
    case (Inr m)
    show ?thesis
      by (cases rule: handle_message_cases [of c m E])
        (auto simp: i Inr browser_text_def break_if_err_def send_error_def send_json_def send Let_def)
  qed
next
  case False
  then show ?thesis
    using assms by (cases "(E, c, i)" rule: serve_step.cases)
      (auto simp: exit_reason_def session_event_ok break_if_err_def send_error_def send_json_def Let_def split: if_splits)
qed

lemma loop_goes_on:
  assumes "\<And>m w. fst (env_send E m w) = Ok ()" and "list_all (\<lambda>i. exit_reason i = None) is"
  shows "\<exists>c'. serve_loop E is c = Continue c' \<and> close_reason c' = close_reason c"
  using assms(2)
proof (induction "is" arbitrary: c)
  case (Cons i "is")
  then obtain c1 where "serve_step E c i = Continue c1" "close_reason c1 = close_reason c"
    using step_goes_on [OF assms(1)] by fastforce
  with Cons.IH [of c1] Cons.prems show ?case by auto
qed simp

lemma step_exits:
  assumes "\<And>m w. fst (env_send E m w) = Ok ()" and "exit_reason i = Some r"
    and "close_reason c = ''browser_disconnected''"
  shows "\<exists>c'. serve_step E c i = Break c' \<and> close_reason c' = r \<and> conn_headers c' = conn_headers c \<and>
    conn_session c' = conn_session c \<and> (rtc_close_requested c' \<longleftrightarrow> rtc_close_requested c \<or> announces_end i)"
proof -
  have send: "\<not> is_err (fst (env_send E m w))" for m w using assms(1) [of m w] by simp
  show ?thesis
    using assms(2,3) by (cases "(E, c, i)" rule: serve_step.cases)
      (auto simp: exit_reason_def announces_end_def session_event_defs send_json_def case_prod_beta send
        event_reason_text Let_def split: if_splits)
qed

lemma serve_session_ready:
  assumes "\<forall>hook ctx. go_on_session_created opts = Some hook \<longrightarrow> fst (hook ctx) = Ok ()"
  obtains c0 where "conn_headers c0 = hdrs" and "close_reason c0 = ''browser_disconnected''"
    and "\<And>is. serve_session E opts hdrs w None is controlled = serve_ready E opts is controlled c0"
proof -
  let ?c0 = "\<lparr>conn_headers = hdrs, conn_session = controlled_session controlled, sender = w, calls = [],
       pending_offer_id = None, generated_offer = False, rtc_close_requested = False,
       close_reason = ''browser_disconnected''\<rparr>"
  let ?ctx = "\<lparr>created_headers = hdrs, created_session = controlled_session controlled\<rparr>"
  show thesis
  proof (cases "go_on_session_created opts")
    case None
    then show thesis using that [of ?c0] by (simp add: serve_session_def)
  next
    case (Some hook)
    with assms obtain s where "hook ?ctx = (Ok (), s)" by (metis prod.collapse)
    with Some show thesis
      using that [of "?c0\<lparr>conn_session := s, calls := [Created_hook ?ctx]\<rparr>"]
      by (simp add: serve_session_def Let_def)
  qed
qed

section \<open>Properties\<close>


text \<open>
  C3. The negotiation gate: a run does to its session what sending a list of commands does, and in
  that list every candidate that follows an offer with a generation has a generation itself,
  until an offer without one is sent.
\<close>

theorem negotiation_gate:
  "\<exists>cmds. conn_session (flow_conn (serve_loop E is c)) = after_sending (env_channel E) cmds (conn_session c) \<and>
     negotiation_ok (generated_offer c) cmds"
  using run_session run_negotiation by blast

text \<open>
  C5. Whatever a browser sends, only clean commands reach the control channel: the event is
  \<open>rtc.offer\<close>, \<open>rtc.ice_candidate\<close> or \<open>rtc.close\<close>, the payload has no other keys than the
  protocol's, an offer is an SDP offer with text, a candidate is null or has exactly its four
  fields, and a generation is a positive integer below \<open>2 ^ 53\<close>.
\<close>

theorem commands_clean:
  "\<exists>cmds. conn_session (flow_conn (serve_loop E is c)) = after_sending (env_channel E) cmds (conn_session c) \<and>
     list_all clean_command cmds"
  using run_session run_clean by blast

text \<open>
  C16. The message handler refines the pure translation of messages: a message the translation
  refuses is answered with its error and changes nothing, a message it accepts is sent as the one
  command it stands for, and the connection then remembers the pending offer, the kind of the
  negotiation and a requested close as the specification says.
\<close>

theorem handle_message_refines:
  "handle_message E m c =
     (case translate (pending_offer_id c \<noteq> None) (generated_offer c) m of
        Inl e \<Rightarrow> (Err e, c)
      | Inr cmd \<Rightarrow>
          (let (r, s) = send_control (env_channel E) (fst cmd) (snd cmd) (conn_session c)
           in (map_command_error E r,
               remember (r = Ok ()) (cm_id m) cmd (c\<lparr>conn_session := s\<rparr>))))"
  by (rule handle_message_translate)

text \<open>
  C33. A generation is accepted exactly when it is a positive integer that a browser's number
  represents exactly (at most \<open>2 ^ 53 - 1\<close>), it may be absent exactly when it is not
  required, and every refusal is a typed command error.
\<close>

theorem generation_accepts:
  "(generation m command req = Ok (Some g) \<longleftrightarrow>
      get m ''generation'' = Some (Number (PosInt g)) \<and> 0 < unat g \<and> unat g \<le> 2 ^ 53 - 1 \<and>
      number_as_f64 (PosInt g) = F64 (of_nat (unat g))) \<and>
   (generation m command req = Ok None \<longleftrightarrow> get m ''generation'' = None \<and> \<not> req) \<and>
   (\<nexists>e. generation m command req = Err e \<and> \<not> ce_typed e)"
proof -
  have "unat g \<le> 2 ^ 53 - 1 \<longleftrightarrow> unat g < 2 ^ 53" by auto
  then show ?thesis
    using f64_of_u64_exact [of g] generation_Err_typed [of m command req]
    by (auto simp: generation_Ok_Some generation_Ok_None)
qed

text \<open>
  A message is accepted exactly when it is a JSON object with a string \<open>id\<close> and a string
  \<open>type\<close> that are not blank and an object \<open>data\<close>; the identifier and the type are taken
  without surrounding white space, the data as it is.
\<close>

theorem parse_message_iff:
  "parse_message from_str t = Ok m \<longleftrightarrow>
     (\<exists>obj i k. from_str t = Ok (Object obj) \<and>
        get obj ''id'' = Some (String i) \<and> cm_id m = trim i \<and> cm_id m \<noteq> [] \<and>
        get obj ''type'' = Some (String k) \<and> cm_kind m = trim k \<and> cm_kind m \<noteq> [] \<and>
        get obj ''data'' = Some (Object (cm_data m)))"
  by (cases m) (auto simp: parse_message_def bind_eq_Some_conv split: sum.splits option.splits; fastforce)

text \<open>
  C10. Every ended connection is cleaned up exactly once, whichever way it ended (shutdown before
  the start, a failing hook, a failing first frame, the end of the loop): the closed hook, when
  there is one, was called exactly once; while the connection is served it was not called.
\<close>

theorem cleanup_once: "called_once opts 0 (serve_session E opts hdrs w sv is controlled)"
proof (cases sv)
  case (Some rsn)
  then show ?thesis by (simp add: serve_session_def cleanup_closed_calls Let_def)
next
  case None
  show ?thesis
  proof (cases "go_on_session_created opts")
    case None': None
    show ?thesis
      by (simp add: serve_session_def None None' serve_ready_called_once)
  next
    case (Some hook)
    obtain r s where "hook \<lparr>created_headers = hdrs, created_session = controlled_session controlled\<rparr> = (r, s)"
      by fastforce
    then show ?thesis
      by (cases r) (simp_all add: serve_session_def None Some cleanup_closed_calls serve_ready_called_once Let_def)
  qed
qed

text \<open>
  The cleanup of a session on an open channel announces the end and leaves: \<open>rtc.close\<close> with
  the reason, unless the end was requested or announced before, and then the leave; the closed
  hook is given the session after both, with the same reason and headers.
\<close>

theorem cleanup_releases:
  assumes "closed_error (env_channel E) (sess_channel (conn_session c)) = None"
    and "sent = (if req then channel (sess_channel (conn_session c))
      else pond_send_message (env_channel E) ''rtc.close'' (Some (put ''reason'' (String rsn) fmempty))
             (channel (sess_channel (conn_session c))))"
    and "closed_error (env_channel E) ((sess_channel (conn_session c))\<lparr>channel := sent\<rparr>) = None"
    and "go_on_session_closed opts = Some hook"
  shows "\<exists>s. Closed_hook \<lparr>closed_headers = conn_headers c, closed_session = s, closed_reason = rsn\<rparr>
            \<in> set (calls (cleanup E opts req rsn c)) \<and>
          channel (sess_channel s) = pond_leave (env_channel E) sent \<and>
          response_generation s = response_generation (conn_session c)"
  using cleanup_hook [OF assms(4), of c E req rsn] released_open [OF assms(1,3,2)] by auto

text \<open>
  A connection that hears of the shutdown, of the browser's close or failure, or of the end of
  its session's events leaves its loop at once, whatever would have come after; a shutdown sets
  the reason of the cleanup.
\<close>

theorem loop_leaves:
  assumes "serve_loop E is c = Continue c1"
  shows "serve_loop E (is @ Shutdown_changed (Some v) # js) c = Break (c1\<lparr>close_reason := v\<rparr>) \<and>
    (i \<in> {Browser_message (CloseFrame f), Browser_error, Browser_end, Session_events_end} \<longrightarrow>
       serve_loop E (is @ i # js) c = Break c1)"
  using assms by (auto simp: serve_loop_append)

text \<open>
  C34. Every message of the browser that is refused (text that is no message, a command that fails its
  checks or that the control channel does not take, a binary message, a ping or a pong) is answered
  by exactly one \<open>gateway.error\<close> frame, and the loop goes on exactly when that frame could be sent. The
  frame carries the identifier of the message when the text is a message, and none otherwise, also
  when the text has an \<open>id\<close> but is refused as a whole. A refusal does not change the session; an open
  offer of that identifier is open no longer. A message that is not refused is not answered, and
  only a close frame ends the loop.
\<close>

theorem refusals_answered:
  "case refusal E c msg of
     Some (i, e) \<Rightarrow>
       (let (r, w) = env_send E (Text (env_to_string E (frame_json i ''gateway.error'' (error_json e)))) (sender c)
        in \<exists>c'. serve_step E c (Browser_message msg) = (if is_err r then Break c' else Continue c') \<and>
           sender c' = w \<and> conn_session c' = conn_session c \<and>
           pending_offer_id c' = (if pending_offer_id c = i then None else pending_offer_id c))
   | None \<Rightarrow>
       \<exists>c'. serve_step E c (Browser_message msg) = (if \<exists>f. msg = CloseFrame f then Break c' else Continue c') \<and>
         sender c' = sender c"
proof (cases "\<exists>t. msg = Text t")
  case True
  then obtain t where t: "msg = Text t" by blast
  note defs = refusal_def browser_text_def break_if_err_def send_error_def send_json_def
  show ?thesis
  proof (cases "parse_message (env_from_str E) t")
    case (Inl e)
    then show ?thesis by (simp add: t defs case_prod_beta Let_def)
  next
    case (Inr m)
    show ?thesis
    proof (cases rule: handle_message_cases [of c m E])
      case (refused e)
      then show ?thesis by (simp add: t Inr defs case_prod_beta Let_def)
    next
      case (failed cmd e)
      from failed(2) have closed: "closed_error (env_channel E) (sess_channel (conn_session c)) = Some ChannelClosed"
        by (auto dest: closed_error_Some)
      with failed have "e = plain (error_to_string (env_show_status E) ChannelClosed)"
        by (simp add: handle_message_translate send_control_closed)
      with failed closed translate_Ok_offer [OF failed(1)] translate_Ok_kind [OF failed(1)] show ?thesis
        by (auto simp: t Inr defs remember_def case_prod_beta Let_def)
    next
      case (sent cmd)
      then show ?thesis by (simp add: t Inr defs)
    qed
  qed
next
  case False
  then show ?thesis
    by (cases msg) (simp_all add: refusal_def break_if_err_def send_error_def send_json_def case_prod_beta Let_def)
qed

text \<open>
  The end of the session ends the connection in order: the event is forwarded like any other,
  then the browser gets a normal close (1000) with the event's reason, and the cleanup that
  follows uses that reason and does not close the session a second time.
\<close>

theorem session_closed_event:
  assumes "wire_type e = ''rtc.session.closed''" and "\<And>m w. fst (env_send E m w) = Ok ()"
  shows "\<exists>c'. serve_step E c (Session_event e) = Break c' \<and> rtc_close_requested c' \<and>
    close_reason c' = (case get (data e) ''reason'' of Some (String r) \<Rightarrow> r | _ \<Rightarrow> ''session_closed'') \<and>
    sender c' = snd (env_send E (CloseFrame (Some (1000, close_reason c')))
      (send_frames E [frame_json None ''rtc.session.closed'' (Object (data e))] (sender c))) \<and>
    released (env_channel E) (rtc_close_requested c') (close_reason c') (conn_session c') =
      snd (session_close (env_channel E) (conn_session c))"
proof -
  have send: "\<not> is_err (fst (env_send E m w))" for m w using assms(2) [of m w] by simp
  have rsn: "unwrap_or d (event_reason e) = (case get (data e) ''reason'' of Some (String r) \<Rightarrow> r | _ \<Rightarrow> d)" for d
    by (cases "get (data e) ''reason''") (auto simp: event_reason_def split: Value.splits)
  show ?thesis
    by (simp add: session_event_defs assms(1) send_json_def send_frames_def case_prod_beta send rsn released_def Let_def)
qed


text \<open>
  What the browser learns of its session is exactly four fields, with the values the server
  gave; an ICE server shows a user name or a credential exactly when it has one.
\<close>

theorem bootstrap_json_exact:
  "\<exists>obj. bootstrap_json cs = json [(''session'', Object obj)] \<and>
     fmdom' obj = {''sessionId'', ''expiresAt'', ''attachTtlSeconds'', ''iceServers''} \<and>
     get obj ''sessionId'' = Some (String (boot_session_id (bootstrap cs))) \<and>
     get obj ''expiresAt'' = Some (String (expires_at (bootstrap cs))) \<and>
     Option.bind (get obj ''attachTtlSeconds'') as_u64 = Some (attach_ttl_seconds (bootstrap cs)) \<and>
     get obj ''iceServers'' = Some (Array (map ice_server_json (ice_servers (bootstrap cs)))) \<and>
     (\<forall>s. \<exists>sobj. ice_server_json s = Object sobj \<and> get sobj ''urls'' = Some (urls s) \<and>
        get sobj ''username'' = map_option String (username s) \<and>
        get sobj ''credential'' = map_option String (credential s) \<and>
        fmdom' sobj \<subseteq> {''urls'', ''username'', ''credential''})"
proof -
  have srv: "\<exists>sobj. ice_server_json s = Object sobj \<and> get sobj ''urls'' = Some (urls s) \<and>
      get sobj ''username'' = map_option String (username s) \<and>
      get sobj ''credential'' = map_option String (credential s) \<and>
      fmdom' sobj \<subseteq> {''urls'', ''username'', ''credential''}" for s
    by (cases "username s"; cases "credential s") (auto simp: ice_server_json_def insert_opt_def)
  show ?thesis
    by (rule exI [of _ "object_of [(''sessionId'', String (boot_session_id (bootstrap cs))),
          (''expiresAt'', String (expires_at (bootstrap cs))),
          (''attachTtlSeconds'', Number (PosInt (attach_ttl_seconds (bootstrap cs)))),
          (''iceServers'', Array (map ice_server_json (ice_servers (bootstrap cs))))]"])
      (simp add: bootstrap_json_def json_def Let_def fmdom'_object_of get_object_of srv)
qed

text \<open>
  C17. A connection is served exactly until its first exit, if its session could be set up and its
  frames can be sent: the value of the shutdown watch, the browser's close, failure or end, the
  session's \<open>rtc.session.closed\<close> or the end of its events. No other input ends it, whatever it says.
  The first exit does at once, whatever comes after it: the session is released and the closed hook
  gets it with the headers of the connection and the reason of that exit; \<open>rtc.close\<close> is part of the
  release unless the browser has requested it before or the server has announced the end.
\<close>

theorem served_until_exit:
  assumes "\<And>m w. fst (env_send E m w) = Ok ()"
    and "\<forall>hook ctx. go_on_session_created opts = Some hook \<longrightarrow> fst (hook ctx) = Ok ()"
    and "list_all (\<lambda>i. exit_reason i = None) is" and "exit_reason i = Some r"
    and "go_on_session_closed opts = Some ended"
  shows "\<exists>c c'. serve_session E opts hdrs w None is controlled = Serving c \<and>
    serve_session E opts hdrs w None (is @ i # js) controlled = Served c' \<and>
    Closed_hook \<lparr>closed_headers = hdrs,
      closed_session = released (env_channel E) (rtc_close_requested c \<or> announces_end i) r (conn_session c),
      closed_reason = r\<rparr> \<in> set (calls c')"
proof -
  obtain c0 where c0: "conn_headers c0 = hdrs" "close_reason c0 = ''browser_disconnected''"
    and run: "\<And>is. serve_session E opts hdrs w None is controlled = serve_ready E opts is controlled c0"
    using serve_session_ready [OF assms(2), of hdrs E w controlled] by metis
  obtain v where v: "send_json E None ''gateway.ready'' (bootstrap_json controlled) (sender c0) = (Ok (), v)"
    using assms(1) by (metis send_json_def prod.collapse)
  let ?c0 = "c0\<lparr>sender := v\<rparr>"
  obtain c where c: "serve_loop E is ?c0 = Continue c" "close_reason c = ''browser_disconnected''"
    using loop_goes_on [OF assms(1,3), of ?c0] c0(2) by auto
  obtain c1 where c1: "serve_step E c i = Break c1" "close_reason c1 = r" "conn_headers c1 = conn_headers c"
    "conn_session c1 = conn_session c" "rtc_close_requested c1 \<longleftrightarrow> rtc_close_requested c \<or> announces_end i"
    using step_exits [OF assms(1,4) c(2)] by blast
  have "conn_headers c = hdrs" using serve_loop_frame [of ?c0 E "is"] c(1) c0(1) by (simp add: loop_inv_def Let_def)
  with cleanup_hook [OF assms(5), of c1 E "rtc_close_requested c1" r] c c1 show ?thesis
    unfolding run by (simp add: serve_ready_def v serve_loop_append)
qed

section \<open>Witnesses\<close>

text \<open>A gateway over the recording channel, with a sink that records its frames.\<close>

definition log_env ::
  "(PondConnectionState, PondChannelState \<times> (string \<times> EventData option) list, unit, Message list) gateway_env" where
  "log_env =
     \<lparr>env_client = online_client, env_channel = log_channel, env_http = fixed_http 201 ''{}'',
      env_show_status = show_nat, env_to_string = (\<lambda>v. case v of String s \<Rightarrow> s | _ \<Rightarrow> ''{}''),
      env_from_str = (\<lambda>_. Err ''none''), env_bootstrap_from_str = (\<lambda>_. Ok sample_bootstrap),
      env_send = (\<lambda>m w. (Ok (), w @ [m]))\<rparr>"

definition log_connection ::
  "(unit, PondChannelState \<times> (string \<times> EventData option) list, Message list) Connection" where
  "log_connection =
     \<lparr>conn_headers = (), conn_session = log_session PondJoined, sender = [], calls = [],
      pending_offer_id = Some ''offer-1'', generated_offer = True, rtc_close_requested = False,
      close_reason = ''browser_disconnected''\<rparr>"

definition log_options ::
  "(unit, PondChannelState \<times> (string \<times> EventData option) list) GatewayOptions" where
  "log_options = (gateway_options_new ''https://vox'')
     \<lparr>go_on_session_closed := Some (\<lambda>ctx. (Ok (), closed_session ctx))\<rparr>"

definition wire :: "string \<Rightarrow> WireEvent" where
  "wire kind = \<lparr>session_id = ''s1'', channel_name = ''/rtc/s1'', data = fmempty, wire_type = kind\<rparr>"

lemma cleanup_releases_witness:
  "\<exists>s. Closed_hook \<lparr>closed_headers = (), closed_session = s, closed_reason = ''bye''\<rparr>
         \<in> set (calls (cleanup log_env log_options False ''bye'' log_connection)) \<and>
       channel (sess_channel s) = (PondClosed, [(''rtc.close'', Some (put ''reason'' (String ''bye'') fmempty))])"
proof -
  let ?sent = "(PondJoined, [(''rtc.close'', Some (put ''reason'' (String ''bye'') fmempty))])"
  have 1: "closed_error (env_channel log_env) (sess_channel (conn_session log_connection)) = None"
    using log_session_open by (simp add: log_env_def log_connection_def)
  have 2: "?sent = (if False then channel (sess_channel (conn_session log_connection))
      else pond_send_message (env_channel log_env) ''rtc.close'' (Some (put ''reason'' (String ''bye'') fmempty))
             (channel (sess_channel (conn_session log_connection))))"
    by (simp add: log_env_def log_connection_def log_session_def control_session_new_def raw_channel_new_def
        log_channel_def)
  have 3: "closed_error (env_channel log_env) ((sess_channel (conn_session log_connection))\<lparr>channel := ?sent\<rparr>) = None"
    by (simp add: closed_error_eq log_env_def log_channel_def)
  have 4: "go_on_session_closed log_options = Some (\<lambda>ctx. (Ok (), closed_session ctx))"
    by (simp add: log_options_def)
  have "conn_headers log_connection = ()" and "pond_leave (env_channel log_env) ?sent = (PondClosed, snd ?sent)"
    by (simp_all add: log_env_def log_channel_def)
  with cleanup_releases [OF 1 2 3 4] show ?thesis by auto
qed

lemma served_until_exit_witness:
  "\<exists>c' s. serve_session log_env log_options () [] None
      [Shutdown_error, Session_event (wire ''rtc.answer''), Session_event (wire ''rtc.session.closed''), Browser_end]
      \<lparr>bootstrap = sample_bootstrap, controlled_session = log_session PondJoined\<rparr> = Served c' \<and>
    Closed_hook \<lparr>closed_headers = (), closed_session = s, closed_reason = ''session_closed''\<rparr> \<in> set (calls c')"
proof -
  have sends: "fst (env_send log_env m w) = Ok ()" for m w by (simp add: log_env_def)
  have created: "\<forall>hook ctx. go_on_session_created log_options = Some hook \<longrightarrow> fst (hook ctx) = Ok ()"
    by (simp add: log_options_def gateway_options_new_def)
  have run: "list_all (\<lambda>i. exit_reason i = None) [Shutdown_error, Session_event (wire ''rtc.answer'')]"
    "exit_reason (Session_event (wire ''rtc.session.closed'')) = Some ''session_closed''"
    by (simp_all add: exit_reason_def wire_def)
  have closed: "go_on_session_closed log_options = Some (\<lambda>ctx. (Ok (), closed_session ctx))" by (simp add: log_options_def)
  from served_until_exit [OF sends created run closed, of "()" "[]" _ "[Browser_end]"] show ?thesis by fastforce
qed

lemma loop_leaves_witness:
  "serve_loop log_env [Session_event (wire ''rtc.answer''), Browser_end] log_connection =
     serve_loop log_env [Session_event (wire ''rtc.answer''), Session_events_end] log_connection"
proof -
  have "\<exists>c1. serve_loop log_env [Session_event (wire ''rtc.answer'')] log_connection = Continue c1"
    by (simp add: session_event_defs wire_def send_json_def log_env_def Let_def)
  then obtain c1 where c1: "serve_loop log_env [Session_event (wire ''rtc.answer'')] log_connection = Continue c1"
    by blast
  from loop_leaves [OF c1, of _ "[]" Browser_end] loop_leaves [OF c1, of _ "[]" Session_events_end]
  show ?thesis by simp
qed

lemma log_env_sends: "fst (env_send log_env m w) = Ok ()"
  by (simp add: log_env_def)

lemma session_closed_event_witness:
  "\<exists>c'. serve_step log_env log_connection (Session_event (wire ''rtc.session.closed'')) = Break c' \<and>
     close_reason c' = ''session_closed'' \<and> rtc_close_requested c'"
  using session_closed_event [of "wire ''rtc.session.closed''" log_env log_connection, OF _ log_env_sends]
  by (auto simp: wire_def)

end
