(* ===== verification/Vox_Shared.thy ===== *)
theory Vox_Shared
  imports Vox_Tasks Vox_Gateway
begin

text \<open>
  One session, two users. The gateway hands the session of a connection to the application (the
  context of \<open>on_session_created\<close>, \<open>src/rust/rtcserver/src/gateway.rs\<close>) and goes on serving the
  browser with a clone of it. This theory puts the loop of \<open>Vox_Gateway\<close> and the calls of
  \<open>Vox_Tasks\<close> together: a round of the loop and a shared operation of an application's call may
  follow each other in any order. A round sends at most one command, so it is one shared operation.
\<close>

section \<open>Interleaving\<close>

datatype 'c shared_event = Gateway gateway_input | Application "'c clones_event"

definition with_session :: "'c VoxRtcControlSession \<Rightarrow> ('hd, 'c, 'w) flow \<Rightarrow> ('hd, 'c, 'w) flow" where
  "with_session self f = map_ControlFlow (\<lambda>c. c\<lparr>conn_session := self\<rparr>) (\<lambda>c. c\<lparr>conn_session := self\<rparr>) f"

fun shared_step ::
  "('k, 'c, 'h, 'w) gateway_env \<Rightarrow> recv_lib \<Rightarrow> ('hd, 'c, 'w) flow \<times> 'c clones \<Rightarrow> 'c shared_event
     \<Rightarrow> ('hd, 'c, 'w) flow \<times> 'c clones" where
  "shared_step E B (f, s) (Gateway i) =
     (let f' = serve_round E f i
      in (f', s\<lparr>shared := conn_session (flow_conn f')\<rparr>))"
| "shared_step E B (f, s) (Application e) =
     (let s' = clones_step (env_channel E) B s e
      in (with_session (shared s') f, s'))"

definition shared_run ::
  "('k, 'c, 'h, 'w) gateway_env \<Rightarrow> recv_lib \<Rightarrow> 'c shared_event list \<Rightarrow> ('hd, 'c, 'w) Connection
     \<Rightarrow> ('hd, 'c, 'w) flow \<times> 'c clones" where
  "shared_run E B es c = foldl (shared_step E B) (Continue c, clones_new (conn_session c)) es"

text \<open>The part of each user, and a channel that nobody but the users moves.\<close>

fun gateway_part :: "'c shared_event \<Rightarrow> gateway_input option" where
  "gateway_part (Gateway i) = Some i"
| "gateway_part (Application _) = None"

fun application_part :: "'c shared_event \<Rightarrow> 'c clones_event option" where
  "application_part (Gateway _) = None"
| "application_part (Application e) = Some e"

fun users_only :: "'c shared_event \<Rightarrow> bool" where
  "users_only (Application (Channel_moved _)) = False"
| "users_only _ = True"

text \<open>What a user sees: everything but the PondSocket channel underneath.\<close>

definition rechannel :: "'c \<Rightarrow> 'c VoxRtcControlSession \<Rightarrow> 'c VoxRtcControlSession" where
  "rechannel x = on_channel (\<lambda>ch. ch\<lparr>channel := x\<rparr>)"

abbreviation rechannelled :: "'c \<Rightarrow> 'c clones \<Rightarrow> 'c clones" where
  "rechannelled x s \<equiv> s\<lparr>shared := rechannel x (shared s)\<rparr>"

section \<open>Lemmas\<close>

lemma append_shuffles: "xs @ ys \<in> shuffles xs ys" "xs @ ys \<in> shuffles ys xs"
proof -
  show first: "xs @ ys \<in> shuffles xs ys"
    by (induction xs) (auto intro: Cons_in_shuffles_leftI)
  then show "xs @ ys \<in> shuffles ys xs" by (subst shuffles_commutes)
qed

lemma snoc_shuffles:
  "zs \<in> shuffles xs ys \<Longrightarrow> zs @ ws \<in> shuffles (xs @ ws) ys \<and> zs @ ws \<in> shuffles xs (ys @ ws)"
proof (induction xs ys arbitrary: zs rule: shuffles.induct)
  case (3 x xs y ys)
  then show ?case by (auto simp: Cons_in_shuffles_iff)
qed (auto intro: append_shuffles)

lemma rechannel_fields [simp]:
  "sess_id (rechannel x self) = sess_id self"
  "sess_channel_name (rechannel x self) = sess_channel_name self"
  "response_generation (rechannel x self) = response_generation self"
  "channel (sess_channel (rechannel x self)) = x"
  "message_tx (sess_channel (rechannel x self)) = message_tx (sess_channel self)"
  "rechannel y (rechannel x self) = rechannel y self"
  by (simp_all add: rechannel_def on_channel_def)

lemma rechannel_same: "rechannel (channel (sess_channel self)) self = self"
  by (simp add: rechannel_def on_channel_def)

lemma rechannel_updates [simp]:
  "clear_response_generation (rechannel x self) = rechannel x (clear_response_generation self)"
  "(rechannel x self)\<lparr>response_generation := g\<rparr> = rechannel x (self\<lparr>response_generation := g\<rparr>)"
  "on_channel (mirror_message_loop [Received e]) (rechannel x self) =
     rechannel x (on_channel (mirror_message_loop [Received e]) self)"
  by (auto simp: rechannel_def on_channel_def clear_response_generation_def split: option.splits)

lemma send_rechannel:
  assumes "\<And>ch. closed_error P ch = None"
  shows "send_control P e p self = (Ok (), rechannel (pond_send_message P e (Some p) (channel (sess_channel self))) self)"
  by (simp add: send_control_open assms rechannel_def on_channel_def)

lemma after_sending_open:
  assumes "\<And>ch. closed_error P ch = None"
  shows "after_sending P ms self = rechannel (sent_on P ms (channel (sess_channel self))) self"
proof (induction ms arbitrary: self)
  case (Cons m ms)
  then show ?case
    by (cases m) (simp add: after_sending_def sent_on_def send_rechannel assms)
qed (simp add: after_sending_def sent_on_def rechannel_same)

lemma emitted_rechannel:
  assumes "\<And>ch. closed_error P ch = None"
  shows "emitted P c (rechannel x self) = emitted P c self"
  by (cases c) (simp_all add: send_rechannel assms)

lemma call_step_rechannel:
  assumes "\<And>ch. closed_error P ch = None"
  shows "call_step P B c (rechannel x self) =
    map_prod id (rechannel (sent_on P (emitted P c self) x)) (call_step P B c self)"
  by (cases "(P, B, c, self)" rule: call_step.cases)
    (simp_all add: start_payload_plan thread_with_id delta_of_def sent_on_def send_rechannel assms
      raw_subscribe_messages_def Let_def)

lemma clones_step_rechannel:
  assumes "\<And>ch. closed_error P ch = None" and "\<forall>c. e \<noteq> Channel_moved c"
  shows "\<exists>ms. map snd (sent (clones_step P B s e)) = map snd (sent s) @ ms \<and>
    clones_step P B (rechannelled x s) e = rechannelled (sent_on P ms x) (clones_step P B s e)"
proof (cases e)
  case (Run_call i)
  obtain c self where "call_step P B (call_pcs s ! i) (shared s) = (c, self)" by fastforce
  then show ?thesis
    by (cases "i < length (call_pcs s)")
      (auto simp: Run_call call_step_rechannel emitted_rechannel assms(1) sent_on_def o_def)
qed (use assms(2) in \<open>auto simp: sent_on_def\<close>)

lemma with_session_simps [simp]:
  "with_session self (Break c) = Break (c\<lparr>conn_session := self\<rparr>)"
  "with_session self (Continue c) = Continue (c\<lparr>conn_session := self\<rparr>)"
  "with_session self (with_session self' f) = with_session self f"
  "conn_session (flow_conn (with_session self f)) = self"
  by (cases f; simp add: with_session_def)+

lemma sent_command_swap:
  assumes "\<And>ch. closed_error (env_channel E) ch = None"
  shows "sent_command E (c\<lparr>conn_session := self\<rparr>) i = sent_command E c i"
  by (auto simp: sent_command_def assms split: gateway_input.splits Message.splits sum.splits)

lemma remember_swap:
  "remember b j cmd (c\<lparr>conn_session := self\<rparr>) = (remember b j cmd c)\<lparr>conn_session := self\<rparr>"
  by (simp add: remember_def)

lemma break_if_err_swap:
  "break_if_err rw (c\<lparr>conn_session := self\<rparr>) = with_session self (break_if_err rw c)"
  by (simp add: break_if_err_def Let_def)

lemma browser_text_swap:
  assumes "\<And>ch. closed_error (env_channel E) ch = None"
  shows "\<exists>self'. browser_text E txt (c\<lparr>conn_session := self\<rparr>) = with_session self' (browser_text E txt c)"
proof (cases "parse_message (env_from_str E) txt")
  case (Inl e)
  then show ?thesis by (intro exI [of _ self]) (simp add: browser_text_def break_if_err_swap)
next
  case (Inr m)
  show ?thesis
  proof (cases "translate (pending_offer_id c \<noteq> None) (generated_offer c) m")
    case refused: (Inl e)
    then show ?thesis
      by (intro exI [of _ self])
        (simp add: Inr browser_text_def handle_message_translate break_if_err_def Let_def)
  next
    case (Inr cmd)
    with \<open>parse_message (env_from_str E) txt = Inr m\<close> show ?thesis
      by (intro exI [of _ "snd (send_control (env_channel E) (fst cmd) (snd cmd) self)"])
        (simp add: browser_text_def handle_message_translate send_rechannel assms remember_swap)
  qed
qed

lemma serve_step_swap:
  assumes "\<And>ch. closed_error (env_channel E) ch = None"
  shows "serve_step E (c\<lparr>conn_session := self\<rparr>) i =
    with_session (after_sending (env_channel E) (sent_command E c i) self) (serve_step E c i)"
proof -
  have "\<exists>self'. serve_step E (c\<lparr>conn_session := self\<rparr>) i = with_session self' (serve_step E c i)"
    using browser_text_swap [OF assms]
    by (cases "(E, c, i)" rule: serve_step.cases)
      (auto simp: break_if_err_swap session_event_defs Let_def intro: exI [of _ self] split: prod.splits)
  then obtain self' where "serve_step E (c\<lparr>conn_session := self\<rparr>) i = with_session self' (serve_step E c i)" by blast
  moreover from this have "self' = after_sending (env_channel E) (sent_command E c i) self"
    using step_session [of E "c\<lparr>conn_session := self\<rparr>" i] sent_command_swap [OF assms, where c = c and self = self and i = i] by simp
  ultimately show ?thesis by simp
qed

lemma part_snoc:
  "List.map_filter g (es @ [e]) = List.map_filter g es @ (case g e of Some y \<Rightarrow> [y] | None \<Rightarrow> [])"
  by (simp add: List.map_filter_def split: option.splits)

lemma observe_snoc:
  "observe E f (is @ [i]) c =
     observe E f is c @ (case serve_loop E is c of Break _ \<Rightarrow> [] | Continue c' \<Rightarrow> f c' i)"
  by (induction "is" arbitrary: c) (auto split: ControlFlow.splits)

lemma serve_loop_snoc: "serve_loop E (is @ [i]) c = serve_round E (serve_loop E is c) i"
  by (simp add: serve_loop_def)

lemma clones_run_snoc: "clones_run P B (es @ [e]) s = clones_step P B (clones_run P B es s) e"
  by (simp add: clones_run_def)

lemma shared_run_snoc: "shared_run E B (es @ [e]) c = shared_step E B (shared_run E B es c) e"
  by (simp add: shared_run_def)

text \<open>
  The run of both against the run of each: the loop differs in its session, the clones in the
  channel they share, and the channel has got the commands of both.
\<close>

lemma shared_run_decomposes:
  assumes P: "\<And>ch. closed_error (env_channel E) ch = None" and "list_all users_only es"
  shows "\<exists>ms f s. f = serve_loop E (List.map_filter gateway_part es) c \<and>
    s = clones_run (env_channel E) B (List.map_filter application_part es) (clones_new (conn_session c)) \<and>
    ms \<in> shuffles (observe E (sent_command E) (List.map_filter gateway_part es) c) (map snd (sent s)) \<and>
    shared_run E B es c =
      (let x = sent_on (env_channel E) ms (channel (sess_channel (conn_session c)))
       in (with_session (rechannel x (shared s)) f, rechannelled x s))"
  using assms(2)
proof (induction es rule: rev_induct)
  case Nil
  show ?case
    by (simp add: shared_run_def List.map_filter_def sent_on_def rechannel_same clones_new_def)
next
  case (snoc e es)
  let ?P = "env_channel E"
  let ?is = "List.map_filter gateway_part es" and ?as = "List.map_filter application_part es"
  define f where "f = serve_loop E ?is c"
  define s where "s = clones_run ?P B ?as (clones_new (conn_session c))"
  define x where "x ms = sent_on ?P ms (channel (sess_channel (conn_session c)))" for ms
  from snoc obtain ms where
    ms: "ms \<in> shuffles (observe E (sent_command E) ?is c) (map snd (sent s))" and
    run: "shared_run E B es c = (with_session (rechannel (x ms) (shared s)) f, rechannelled (x ms) s)"
    by (auto simp: f_def s_def x_def Let_def)
  have more: "sent_on ?P ns (x ms) = x (ms @ ns)" for ns by (simp add: x_def sent_on_def)
  show ?case
  proof (cases e)
    case (Gateway i)
    define ns where "ns = (case f of Break _ \<Rightarrow> [] | Continue c' \<Rightarrow> sent_command E c' i)"
    have "serve_round E (with_session (rechannel (x ms) (shared s)) f) i =
        with_session (rechannel (x (ms @ ns)) (shared s)) (serve_round E f i)"
      by (cases f) (simp_all add: ns_def serve_step_swap P after_sending_open more)
    moreover have "ms @ ns \<in> shuffles (observe E (sent_command E) (?is @ [i]) c) (map snd (sent s))"
      using ms snoc_shuffles unfolding observe_snoc ns_def f_def by blast
    ultimately show ?thesis
      by (intro exI [of _ "ms @ ns"] exI [of _ "serve_round E f i"] exI [of _ s])
        (simp add: Gateway part_snoc shared_run_snoc run serve_loop_snoc f_def [symmetric] s_def [symmetric]
          x_def [symmetric] Let_def)
  next
    case (Application a)
    with snoc.prems have "\<forall>c. a \<noteq> Channel_moved c" by auto
    from clones_step_rechannel [OF P this, of B s "x ms"] obtain ns where
      ns: "map snd (sent (clones_step ?P B s a)) = map snd (sent s) @ ns"
        "clones_step ?P B (rechannelled (x ms) s) a = rechannelled (x (ms @ ns)) (clones_step ?P B s a)"
      unfolding more by blast
    have "ms @ ns \<in> shuffles (observe E (sent_command E) ?is c) (map snd (sent (clones_step ?P B s a)))"
      using ms snoc_shuffles unfolding ns(1) by blast
    with ns(2) show ?thesis
      by (intro exI [of _ "ms @ ns"] exI [of _ f] exI [of _ "clones_step ?P B s a"])
        (simp add: Application part_snoc shared_run_snoc run clones_run_snoc f_def [symmetric] s_def [symmetric]
          x_def [symmetric] Let_def)
  qed
qed

section \<open>Properties\<close>

text \<open>
  C7. The gateway and the application share a session without disturbing each other: on a channel that
  stays open, in any interleaving of the gateway's loop with the application's calls, the loop is
  where the gateway alone would have brought it (apart from the session it holds), every call of
  the application is where the application alone would have brought it, with the same messages,
  the same tracked generation and the same broadcasts, and the channel has received an
  interleaving of the commands the gateway sends alone and the messages the application sends
  alone.
\<close>

theorem users_do_not_interfere:
  assumes "\<And>ch. closed_error (env_channel E) ch = None" and "list_all users_only es"
    and "f = serve_loop E (List.map_filter gateway_part es) c"
    and "s = clones_run (env_channel E) B (List.map_filter application_part es) (clones_new (conn_session c))"
    and "shared_run E B es c = (f', s')"
  shows "f' = with_session (shared s') f \<and> s' = s\<lparr>shared := shared s'\<rparr> \<and>
    response_generation (shared s') = response_generation (shared s) \<and> broadcasts s' = broadcasts s \<and>
    (\<exists>ms \<in> shuffles (observe E (sent_command E) (List.map_filter gateway_part es) c) (map snd (sent s)).
       channel (sess_channel (shared s')) = sent_on (env_channel E) ms (channel (sess_channel (conn_session c))))"
proof -
  from shared_run_decomposes [OF assms(1,2), of c B] assms(3-5) obtain ms where
    ms: "ms \<in> shuffles (observe E (sent_command E) (List.map_filter gateway_part es) c) (map snd (sent s))"
    and run: "(f', s') = (let x = sent_on (env_channel E) ms (channel (sess_channel (conn_session c)))
       in (with_session (rechannel x (shared s)) f, rechannelled x s))"
    by auto
  from ms run show ?thesis by (auto simp: Let_def)
qed

section \<open>Witnesses\<close>

text \<open>A browser that asks to close, and an application that starts a response at the same time.\<close>

definition open_env ::
  "(PondConnectionState, PondChannelState \<times> (string \<times> EventData option) list, unit, Message list) gateway_env" where
  "open_env = log_env\<lparr>env_channel := open_log,
     env_from_str := (\<lambda>_. Ok (json [(''id'', String ''m1''), (''type'', String ''rtc.close''), (''data'', json [])]))\<rparr>"

definition both_users :: "(PondChannelState \<times> (string \<times> EventData option) list) shared_event list" where
  "both_users = [Application (Invoke (Call_start ''u'' None)), Application (Run_call 0),
     Gateway (Browser_message (Text ''close'')), Application (Run_call 0)]"

lemma users_do_not_interfere_witness:
  "\<exists>f' s'. shared_run open_env plain_recv both_users log_connection = (f', s') \<and>
     rtc_close_requested (flow_conn f') \<and> call_pcs s' = [Call_done (Ok None)]"
proof -
  let ?is = "List.map_filter gateway_part both_users" and ?as = "List.map_filter application_part both_users"
  obtain f' s' where run: "shared_run open_env plain_recv both_users log_connection = (f', s')" by fastforce
  have opened: "closed_error (env_channel open_env) ch = None" for ch
    by (simp add: open_env_def open_log_open)
  have "list_all users_only both_users" by (simp add: both_users_def)
  from users_do_not_interfere [OF opened this refl refl run]
  have f': "f' = with_session (shared s') (serve_loop open_env ?is log_connection)"
    and s': "call_pcs s' = call_pcs (clones_run open_log plain_recv ?as (clones_new (conn_session log_connection)))"
    by (auto simp: open_env_def dest: arg_cong [of _ _ call_pcs])
  have "parse_message (env_from_str open_env) ''close'' =
      Ok \<lparr>cm_id = ''m1'', cm_kind = ''rtc.close'', cm_data = object_of []\<rparr>"
    by (simp add: open_env_def parse_message_def json_def, code_simp)
  then have "rtc_close_requested (flow_conn f')"
    unfolding f' by (simp add: both_users_def List.map_filter_def browser_text_def handle_message_def handle_close_def
        close_rtc_def send_rechannel opened)
  moreover have "call_pcs s' = [Call_done (Ok None)]"
    unfolding s' by (simp add: both_users_def List.map_filter_def call_eval open_log_open)
  ultimately show ?thesis using run by blast
qed

end
