(* ===== verification/Vox_Events.thy ===== *)
theory Vox_Events
  imports Vox_Session
begin

text \<open>
  The typed listeners of \<open>src/rust/rtcserver/src/session.rs\<close>. Each \<open>on_\<dots>\<close> method registers the
  generic listener \<open>on\<close> for one wire name with a closure that decodes the payload into the
  event's record. For each method there is the closure's decoding as a function of the session
  identifier, the channel name and the payload, and the method itself, which gives the events
  its handler receives.

  The decoding of a \<open>SpeechContext\<close> from a JSON value (\<open>serde_json::from_value\<close>, whose code is
  derived) is an argument of \<open>transcript_event\<close>.
\<close>

section \<open>Decoding\<close>

definition session_attached_event :: "string \<Rightarrow> string \<Rightarrow> EventData \<Rightarrow> SessionAttachedEvent" where
  "session_attached_event sid cn payload = \<lparr>session_id = sid, channel_name = cn, data = payload\<rparr>"

definition session_created_event :: "string \<Rightarrow> string \<Rightarrow> EventData \<Rightarrow> SessionCreatedEvent" where
  "session_created_event sid cn payload =
     \<lparr>session_id = sid, channel_name = cn, data = payload,
      session = Option.bind (get payload ''session'') as_object\<rparr>"

definition transcript_event ::
  "(Value \<Rightarrow> SpeechContext option) \<Rightarrow> string \<Rightarrow> string \<Rightarrow> EventData \<Rightarrow> TranscriptEvent" where
  "transcript_event from_value sid cn payload =
     \<lparr>session_id = sid, channel_name = cn, data = payload,
      transcript = required_string payload ''transcript'' '''',
      tr_language = optional_string payload ''language'',
      tr_start_ms = optional_number payload ''start_ms'',
      tr_end_ms = optional_number payload ''end_ms'',
      eou_probability = optional_number payload ''eou_probability'',
      topics = optional_string_vec payload ''topics'',
      entities = transcript_entities payload,
      words = transcript_words payload,
      speech_context = opt_filter is_valid (Option.bind (get payload ''speech_context'') from_value)\<rparr>"

definition turn_state_event :: "string \<Rightarrow> string \<Rightarrow> EventData \<Rightarrow> TurnStateEvent" where
  "turn_state_event sid cn payload =
     \<lparr>session_id = sid, channel_name = cn, data = payload,
      turn_state = required_string payload ''state'' ''unknown'',
      previous_state = optional_string payload ''previous_state''\<rparr>"

definition speech_started_event :: "string \<Rightarrow> string \<Rightarrow> EventData \<Rightarrow> SpeechStartedEvent" where
  "speech_started_event sid cn payload =
     \<lparr>session_id = sid, channel_name = cn, data = payload,
      started_timestamp_ms = optional_number payload ''timestamp_ms''\<rparr>"

definition speech_stopped_event :: "string \<Rightarrow> string \<Rightarrow> EventData \<Rightarrow> SpeechStoppedEvent" where
  "speech_stopped_event sid cn payload =
     \<lparr>session_id = sid, channel_name = cn, data = payload,
      stopped_timestamp_ms = optional_number payload ''timestamp_ms''\<rparr>"

definition transcript_delta_event :: "string \<Rightarrow> string \<Rightarrow> EventData \<Rightarrow> TranscriptDeltaEvent" where
  "transcript_delta_event sid cn payload =
     \<lparr>session_id = sid, channel_name = cn, data = payload,
      delta = required_string payload ''delta'' '''',
      delta_start_ms = optional_number payload ''start_ms'',
      delta_end_ms = optional_number payload ''end_ms''\<rparr>"

definition turn_eou_predicted_event :: "string \<Rightarrow> string \<Rightarrow> EventData \<Rightarrow> TurnEouPredictedEvent" where
  "turn_eou_predicted_event sid cn payload =
     \<lparr>session_id = sid, channel_name = cn, data = payload,
      probability = optional_number payload ''probability'',
      threshold = optional_number payload ''threshold'',
      delay_ms = optional_number payload ''delay_ms'',
      eou_start_ms = optional_number payload ''start_ms'',
      eou_end_ms = optional_number payload ''end_ms'',
      decision = optional_string payload ''decision'',
      action = optional_string payload ''action'',
      turn_detector = optional_string payload ''turn_detector''\<rparr>"

definition response_event :: "string \<Rightarrow> string \<Rightarrow> EventData \<Rightarrow> ResponseEvent" where
  "response_event sid cn payload =
     \<lparr>session_id = sid, channel_name = cn, data = payload,
      response_id = optional_string payload ''response_id'',
      generation_id = optional_nonempty_string payload ''generation_id'',
      supersedes_generation_id = optional_nonempty_string payload ''supersedes_generation_id'',
      superseded_by_generation_id = optional_nonempty_string payload ''superseded_by_generation_id'',
      resp_reason = optional_nonempty_string payload ''reason'',
      resp_output = response_output payload\<rparr>"

definition response_spoken_text_event :: "string \<Rightarrow> string \<Rightarrow> EventData \<Rightarrow> ResponseSpokenTextEvent" where
  "response_spoken_text_event sid cn payload =
     \<lparr>spoken_response = response_event sid cn payload,
      spoken_text = required_string payload ''spoken_text'' '''',
      partial_status = required_string payload ''partial_status'' ''partial_omitted'',
      played_audio_ms = unwrap_or (F64 0) (optional_number payload ''played_audio_ms'')\<rparr>"

definition interruption_event :: "string \<Rightarrow> string \<Rightarrow> EventData \<Rightarrow> InterruptionEvent" where
  "interruption_event sid cn payload =
     \<lparr>int_response = response_event sid cn payload,
      vad_active_ms = optional_number payload ''vad_active_ms'',
      partial_transcript = optional_string payload ''partial_transcript'',
      int_reason = optional_nonempty_string payload ''reason''\<rparr>"

definition browser_event :: "string \<Rightarrow> string \<Rightarrow> EventData \<Rightarrow> BrowserEvent" where
  "browser_event sid cn payload =
     \<lparr>session_id = sid, channel_name = cn, data = payload,
      br_event = required_string payload ''event'' '''',
      br_payload = unwrap_or Null (get payload ''payload'')\<rparr>"

definition close_event :: "string \<Rightarrow> string \<Rightarrow> EventData \<Rightarrow> CloseEvent" where
  "close_event sid cn payload =
     \<lparr>session_id = sid, channel_name = cn, data = payload,
      close_reason = required_string payload ''reason'' ''unknown'',
      connection_state = optional_string payload ''connection_state'',
      ice_connection_state = optional_string payload ''ice_connection_state'',
      data_channel_state = optional_string payload ''data_channel_state''\<rparr>"

definition error_event :: "string \<Rightarrow> string \<Rightarrow> EventData \<Rightarrow> ErrorEvent" where
  "error_event sid cn payload =
     \<lparr>session_id = sid, channel_name = cn, data = payload,
      err_message = optional_string payload ''message'',
      err_code = optional_nonempty_string payload ''code'',
      err_recoverable = recoverable_flag payload,
      err_generation_id = optional_nonempty_string payload ''generation_id''\<rparr>"

definition signaling_error_event :: "string \<Rightarrow> string \<Rightarrow> EventData \<Rightarrow> SignalingErrorEvent" where
  "signaling_error_event sid cn payload =
     \<lparr>session_id = sid, channel_name = cn, data = payload,
      sig_message = optional_string payload ''message'',
      sig_generation = optional_i64 payload ''generation''\<rparr>"

section \<open>Listeners\<close>

text \<open>The method \<open>on\<close> with a closure that is given the session's identifier and channel name.\<close>

definition on_typed ::
  "string \<Rightarrow> (string \<Rightarrow> string \<Rightarrow> EventData \<Rightarrow> 'ev) \<Rightarrow> 'c VoxRtcControlSession
     \<Rightarrow> (string \<times> EventData) recv_wait list \<Rightarrow> 'ev list" where
  "on_typed event_name decode self rs =
     on_loop event_name (decode (sess_id self) (sess_channel_name self)) rs"

definition on_response_event ::
  "string \<Rightarrow> 'c VoxRtcControlSession \<Rightarrow> (string \<times> EventData) recv_wait list \<Rightarrow> ResponseEvent list" where
  "on_response_event event_name = on_typed event_name response_event"

definition on_interruption_event ::
  "string \<Rightarrow> 'c VoxRtcControlSession \<Rightarrow> (string \<times> EventData) recv_wait list \<Rightarrow> InterruptionEvent list" where
  "on_interruption_event event_name = on_typed event_name interruption_event"

definition on_session_attached ::
  "'c VoxRtcControlSession \<Rightarrow> (string \<times> EventData) recv_wait list \<Rightarrow> SessionAttachedEvent list" where
  "on_session_attached = on_typed EVENT_RTC_SESSION_ATTACHED session_attached_event"

definition on_session_created ::
  "'c VoxRtcControlSession \<Rightarrow> (string \<times> EventData) recv_wait list \<Rightarrow> SessionCreatedEvent list" where
  "on_session_created = on_typed EVENT_SESSION_CREATED session_created_event"

definition on_transcript ::
  "(Value \<Rightarrow> SpeechContext option) \<Rightarrow> 'c VoxRtcControlSession
     \<Rightarrow> (string \<times> EventData) recv_wait list \<Rightarrow> TranscriptEvent list" where
  "on_transcript from_value = on_typed EVENT_TRANSCRIPT_COMPLETED (transcript_event from_value)"

definition on_turn_state_changed ::
  "'c VoxRtcControlSession \<Rightarrow> (string \<times> EventData) recv_wait list \<Rightarrow> TurnStateEvent list" where
  "on_turn_state_changed = on_typed EVENT_TURN_STATE_CHANGED turn_state_event"

definition on_speech_started ::
  "'c VoxRtcControlSession \<Rightarrow> (string \<times> EventData) recv_wait list \<Rightarrow> SpeechStartedEvent list" where
  "on_speech_started = on_typed EVENT_SPEECH_STARTED speech_started_event"

definition on_speech_stopped ::
  "'c VoxRtcControlSession \<Rightarrow> (string \<times> EventData) recv_wait list \<Rightarrow> SpeechStoppedEvent list" where
  "on_speech_stopped = on_typed EVENT_SPEECH_STOPPED speech_stopped_event"

definition on_transcript_delta ::
  "'c VoxRtcControlSession \<Rightarrow> (string \<times> EventData) recv_wait list \<Rightarrow> TranscriptDeltaEvent list" where
  "on_transcript_delta = on_typed EVENT_TRANSCRIPT_DELTA transcript_delta_event"

definition on_turn_eou_predicted ::
  "'c VoxRtcControlSession \<Rightarrow> (string \<times> EventData) recv_wait list \<Rightarrow> TurnEouPredictedEvent list" where
  "on_turn_eou_predicted = on_typed EVENT_TURN_EOU_PREDICTED turn_eou_predicted_event"

definition on_response_created ::
  "'c VoxRtcControlSession \<Rightarrow> (string \<times> EventData) recv_wait list \<Rightarrow> ResponseEvent list" where
  "on_response_created = on_response_event EVENT_RESPONSE_CREATED"

definition on_response_committed ::
  "'c VoxRtcControlSession \<Rightarrow> (string \<times> EventData) recv_wait list \<Rightarrow> ResponseEvent list" where
  "on_response_committed = on_response_event EVENT_RESPONSE_COMMITTED"

definition on_response_done ::
  "'c VoxRtcControlSession \<Rightarrow> (string \<times> EventData) recv_wait list \<Rightarrow> ResponseEvent list" where
  "on_response_done = on_response_event EVENT_RESPONSE_DONE"

definition on_response_cancelled ::
  "'c VoxRtcControlSession \<Rightarrow> (string \<times> EventData) recv_wait list \<Rightarrow> ResponseEvent list" where
  "on_response_cancelled = on_response_event EVENT_RESPONSE_CANCELLED"

definition on_response_spoken_text ::
  "'c VoxRtcControlSession \<Rightarrow> (string \<times> EventData) recv_wait list \<Rightarrow> ResponseSpokenTextEvent list" where
  "on_response_spoken_text = on_typed EVENT_RESPONSE_SPOKEN_TEXT response_spoken_text_event"

definition on_response_audio_clear ::
  "'c VoxRtcControlSession \<Rightarrow> (string \<times> EventData) recv_wait list \<Rightarrow> ResponseEvent list" where
  "on_response_audio_clear = on_response_event EVENT_RESPONSE_AUDIO_CLEAR"

definition on_interruption_detected ::
  "'c VoxRtcControlSession \<Rightarrow> (string \<times> EventData) recv_wait list \<Rightarrow> InterruptionEvent list" where
  "on_interruption_detected = on_interruption_event EVENT_INTERRUPTION_DETECTED"

definition on_interruption_false_positive ::
  "'c VoxRtcControlSession \<Rightarrow> (string \<times> EventData) recv_wait list \<Rightarrow> InterruptionEvent list" where
  "on_interruption_false_positive = on_interruption_event EVENT_INTERRUPTION_FALSE_POSITIVE"

definition on_browser_event ::
  "'c VoxRtcControlSession \<Rightarrow> (string \<times> EventData) recv_wait list \<Rightarrow> BrowserEvent list" where
  "on_browser_event = on_typed EVENT_BROWSER_EVENT browser_event"

definition on_close ::
  "'c VoxRtcControlSession \<Rightarrow> (string \<times> EventData) recv_wait list \<Rightarrow> CloseEvent list" where
  "on_close = on_typed EVENT_RTC_CLIENT_DISCONNECTED close_event"

definition on_error ::
  "'c VoxRtcControlSession \<Rightarrow> (string \<times> EventData) recv_wait list \<Rightarrow> ErrorEvent list" where
  "on_error = on_typed EVENT_ERROR error_event"

definition on_signaling_error ::
  "'c VoxRtcControlSession \<Rightarrow> (string \<times> EventData) recv_wait list \<Rightarrow> SignalingErrorEvent list" where
  "on_signaling_error = on_typed EVENT_RTC_SIGNALING_ERROR signaling_error_event"

section \<open>The contract of a typed event\<close>

text \<open>
  Every decoding keeps the session identifier, the channel name and the raw payload; \<open>base\<close>
  reads them back. What a listener delivers is then determined, whatever the other fields are.
\<close>

locale typed_event =
  fixes decode :: "string \<Rightarrow> string \<Rightarrow> EventData \<Rightarrow> 'ev"
    and base :: "'ev \<Rightarrow> string \<times> string \<times> EventData"
  assumes base_decode: "base (decode sid cn payload) = (sid, cn, payload)"
begin

lemma delivered_base:
  "map base (on_typed n decode self rs) =
     map (\<lambda>m. (sess_id self, sess_channel_name self, snd m)) (filter (\<lambda>m. fst m = n) (seen_messages rs))"
  by (simp add: on_typed_def on_loop_seen base_decode o_def)

lemma decode_injective: "decode sid cn p = decode sid' cn' p' \<Longrightarrow> p = p'"
  by (metis base_decode prod.inject)

end

definition event_base :: "'a EventBase_scheme \<Rightarrow> string \<times> string \<times> EventData" where
  "event_base e = (session_id e, channel_name e, data e)"

interpretation attached: typed_event session_attached_event event_base
  by unfold_locales (simp add: session_attached_event_def event_base_def)

interpretation created: typed_event session_created_event event_base
  by unfold_locales (simp add: session_created_event_def event_base_def)

interpretation turn_state: typed_event turn_state_event event_base
  by unfold_locales (simp add: turn_state_event_def event_base_def)

interpretation started: typed_event speech_started_event event_base
  by unfold_locales (simp add: speech_started_event_def event_base_def)

interpretation stopped: typed_event speech_stopped_event event_base
  by unfold_locales (simp add: speech_stopped_event_def event_base_def)

interpretation delta_ev: typed_event transcript_delta_event event_base
  by unfold_locales (simp add: transcript_delta_event_def event_base_def)

interpretation eou: typed_event turn_eou_predicted_event event_base
  by unfold_locales (simp add: turn_eou_predicted_event_def event_base_def)

interpretation response: typed_event response_event event_base
  by unfold_locales (simp add: response_event_def event_base_def)

interpretation browser: typed_event browser_event event_base
  by unfold_locales (simp add: browser_event_def event_base_def)

interpretation close_ev: typed_event close_event event_base
  by unfold_locales (simp add: close_event_def event_base_def)

interpretation error_ev: typed_event error_event event_base
  by unfold_locales (simp add: error_event_def event_base_def)

interpretation signaling: typed_event signaling_error_event event_base
  by unfold_locales (simp add: signaling_error_event_def event_base_def)

interpretation transcript_ev: typed_event "transcript_event from_value" event_base
  for from_value :: "Value \<Rightarrow> SpeechContext option"
  by unfold_locales (simp add: transcript_event_def event_base_def)

interpretation spoken: typed_event response_spoken_text_event "event_base \<circ> spoken_response"
  by unfold_locales (simp add: response_spoken_text_event_def response_event_def event_base_def)

interpretation interruption: typed_event interruption_event "event_base \<circ> int_response"
  by unfold_locales (simp add: interruption_event_def response_event_def event_base_def)

section \<open>Lemmas\<close>

text \<open>The payloads of the messages of one name a listener sees, with the session's identity.\<close>

definition own_payloads ::
  "string \<Rightarrow> 'c VoxRtcControlSession \<Rightarrow> (string \<times> EventData) recv_wait list \<Rightarrow> (string \<times> string \<times> EventData) list" where
  "own_payloads n self rs =
     map (\<lambda>m. (sess_id self, sess_channel_name self, snd m)) (filter (\<lambda>m. fst m = n) (seen_messages rs))"

lemmas listener_defs =
  on_session_attached_def on_session_created_def on_transcript_def on_turn_state_changed_def
  on_speech_started_def on_speech_stopped_def on_transcript_delta_def on_turn_eou_predicted_def
  on_response_created_def on_response_committed_def on_response_done_def on_response_cancelled_def
  on_response_spoken_text_def on_response_audio_clear_def on_interruption_detected_def
  on_interruption_false_positive_def on_browser_event_def on_close_def on_error_def
  on_signaling_error_def on_response_event_def on_interruption_event_def

lemmas delivered_bases =
  attached.delivered_base created.delivered_base turn_state.delivered_base started.delivered_base
  stopped.delivered_base delta_ev.delivered_base eou.delivered_base response.delivered_base
  browser.delivered_base close_ev.delivered_base error_ev.delivered_base signaling.delivered_base
  transcript_ev.delivered_base spoken.delivered_base interruption.delivered_base

section \<open>Properties\<close>

text \<open>
  C35. Every typed listener delivers exactly the messages of its own wire name, in order, each with
  the session's identifier, the channel's name and the raw payload unchanged.
\<close>

theorem typed_listeners_deliver_own:
  "map event_base (on_session_attached self rs) = own_payloads ''rtc.session.attached'' self rs \<and>
   map event_base (on_session_created self rs) = own_payloads ''session.created'' self rs \<and>
   map event_base (on_transcript from_value self rs) =
     own_payloads ''conversation.item.input_audio_transcription.completed'' self rs \<and>
   map event_base (on_transcript_delta self rs) =
     own_payloads ''conversation.item.input_audio_transcription.delta'' self rs \<and>
   map event_base (on_turn_state_changed self rs) = own_payloads ''turn.state_changed'' self rs \<and>
   map event_base (on_turn_eou_predicted self rs) = own_payloads ''turn.eou.predicted'' self rs \<and>
   map event_base (on_speech_started self rs) = own_payloads ''input_audio_buffer.speech_started'' self rs \<and>
   map event_base (on_speech_stopped self rs) = own_payloads ''input_audio_buffer.speech_stopped'' self rs \<and>
   map event_base (on_response_created self rs) = own_payloads ''response.created'' self rs \<and>
   map event_base (on_response_committed self rs) = own_payloads ''response.committed'' self rs \<and>
   map event_base (on_response_done self rs) = own_payloads ''response.done'' self rs \<and>
   map event_base (on_response_cancelled self rs) = own_payloads ''response.cancelled'' self rs \<and>
   map event_base (on_response_audio_clear self rs) = own_payloads ''response.audio.clear'' self rs \<and>
   map (event_base \<circ> spoken_response) (on_response_spoken_text self rs) =
     own_payloads ''response.spoken_text.resolved'' self rs \<and>
   map (event_base \<circ> int_response) (on_interruption_detected self rs) =
     own_payloads ''interruption.detected'' self rs \<and>
   map (event_base \<circ> int_response) (on_interruption_false_positive self rs) =
     own_payloads ''interruption.false_positive'' self rs \<and>
   map event_base (on_browser_event self rs) = own_payloads ''browser.event'' self rs \<and>
   map event_base (on_close self rs) = own_payloads ''rtc.client.disconnected'' self rs \<and>
   map event_base (on_error self rs) = own_payloads ''error'' self rs \<and>
   map event_base (on_signaling_error self rs) = own_payloads ''rtc.signaling_error'' self rs"
  unfolding listener_defs delivered_bases own_payloads_def event_names by (intro conjI refl)

text \<open>
  Enrichment never costs a transcript: a completed transcript is delivered whatever its speech
  context looks like and whatever its decoding does, with the same text; a context is attached
  only if it was decoded from the payload and is valid.
\<close>

theorem transcript_survives_bad_context:
  "map transcript (on_transcript from_value self rs) =
     map (\<lambda>m. required_string (snd m) ''transcript'' [])
       (filter (\<lambda>m. fst m = EVENT_TRANSCRIPT_COMPLETED) (seen_messages rs)) \<and>
   (speech_context (transcript_event from_value sid cn p) = Some c \<longleftrightarrow>
     (\<exists>v. get p ''speech_context'' = Some v \<and> from_value v = Some c \<and> is_valid c))"
  by (auto simp: on_transcript_def on_typed_def on_loop_seen transcript_event_def bind_eq_Some_conv o_def)

text \<open>
  An error event is call-ending only if the server says so: \<open>recoverable\<close> is false exactly when
  the payload holds the JSON value false; an absent or malformed flag counts as recoverable.
  An empty code or generation counts as absent.
\<close>

theorem error_event_recoverable:
  "(\<not> err_recoverable (error_event sid cn p) \<longleftrightarrow> get p ''recoverable'' = Some (Bool False)) \<and>
   (err_code (error_event sid cn p) = Some c \<longleftrightarrow> get p ''code'' = Some (String c) \<and> c \<noteq> []) \<and>
   (err_generation_id (error_event sid cn p) = Some g \<longleftrightarrow> get p ''generation_id'' = Some (String g) \<and> g \<noteq> [])"
proof -
  have "unwrap_or True (Option.bind (get p ''recoverable'') as_bool) = False \<longleftrightarrow>
      get p ''recoverable'' = Some (Bool False)"
  proof (cases "get p ''recoverable''")
    case (Some v)
    then show ?thesis by (cases v) auto
  qed simp
  then show ?thesis
    by (simp add: error_event_def recoverable_flag_def optional_nonempty_string_Some)
qed

end
