(* ===== verification/Vox_Listen.thy ===== *)
theory Vox_Listen
  imports Vox_Tasks Vox_Events
begin

text \<open>
  A listener next to the message mirror. \<open>on_event\<close> and \<open>on\<close> (\<open>src/rust/rtcserver/src/session.rs\<close>)
  subscribe to the broadcast of the channel before they return, and their task receives from then
  on; the mirror (\<open>src/rust/rtcserver/src/socket.rs\<close>) broadcasts at its own pace. The receive loops
  of \<open>Vox_Session\<close> are functions of what the task has received; here that list grows, one
  \<open>recv\<close> at a time, from the subscription on.
\<close>

section \<open>The listener and the mirror\<close>

text \<open>The adapter, the next message the listener is to receive, and what it has received.\<close>

record 'c listening =
  lis_channel :: "'c RawSocketChannel"
  lis_next :: nat
  lis_got :: "(string \<times> EventData) recv_wait list"

datatype listen_event = Mirrored ChannelEvent | Poll

definition listen_start :: "'c RawSocketChannel \<Rightarrow> 'c listening" where
  "listen_start ch = \<lparr>lis_channel = ch, lis_next = raw_subscribe_messages ch, lis_got = []\<rparr>"

fun listen_step :: "recv_lib \<Rightarrow> 'c listening \<Rightarrow> listen_event \<Rightarrow> 'c listening" where
  "listen_step B s (Mirrored e) = s\<lparr>lis_channel := mirror_message_loop [Received e] (lis_channel s)\<rparr>"
| "listen_step B s Poll =
     (case B MESSAGE_CAPACITY (lis_next s) (message_tx (lis_channel s)) of
        None \<Rightarrow> s
      | Some (r, n) \<Rightarrow> s\<lparr>lis_next := n, lis_got := lis_got s @ [r]\<rparr>)"

definition listen_run :: "recv_lib \<Rightarrow> listen_event list \<Rightarrow> 'c listening \<Rightarrow> 'c listening" where
  "listen_run B es s = foldl (listen_step B) s es"

abbreviation published :: "'c listening \<Rightarrow> (string \<times> EventData) list" where
  "published s \<equiv> message_tx (lis_channel s)"

text \<open>The messages the handler of \<open>on_event\<close> has been called with.\<close>

definition handled :: "'c VoxRtcControlSession \<Rightarrow> 'c listening \<Rightarrow> (string \<times> EventData) list" where
  "handled self s = map (\<lambda>w. (wire_type w, data w)) (on_event self (lis_got s))"

section \<open>Lemmas\<close>

lemma handled_seen: "handled self s = seen_messages (lis_got s)"
  by (simp add: handled_def on_event_def on_event_loop_seen o_def split_def)

lemma listen_run_simps [simp]:
  "listen_run B [] s = s"
  "listen_run B (e # es) s = listen_run B es (listen_step B s e)"
  by (simp_all add: listen_run_def)

lemma listen_run_append: "listen_run B (es @ es') s = listen_run B es' (listen_run B es s)"
  by (simp add: listen_run_def)

lemma seen_messages_append:
  "Recv_closed \<notin> set rs \<Longrightarrow> seen_messages (rs @ rs') = seen_messages rs @ seen_messages rs'"
proof (induction rs)
  case (Cons r rs)
  then show ?case by (cases r) auto
qed simp

fun lag :: "'a recv_wait \<Rightarrow> bool" where
  "lag (Lagged _) = True"
| "lag _ = False"

text \<open>
  What the listener has seen is, in order, a part of what was published between its subscription
  and its position; all of it when it never lagged.
\<close>

definition listen_inv :: "nat \<Rightarrow> 'c listening \<Rightarrow> bool" where
  "listen_inv n s \<longleftrightarrow> n \<le> lis_next s \<and> lis_next s \<le> length (published s) \<and> Recv_closed \<notin> set (lis_got s) \<and>
     (let window = drop n (take (lis_next s) (published s))
      in subseq (seen_messages (lis_got s)) window \<and>
         (list_all (\<lambda>r. \<not> lag r) (lis_got s) \<longrightarrow> seen_messages (lis_got s) = window))"

lemma window_append:
  assumes "n \<le> m" and "m \<le> m'" and "m \<le> length ms"
  shows "drop n (take m' ms) = drop n (take m ms) @ drop m (take m' ms)"
proof -
  have "take m' ms = take m ms @ drop m (take m' ms)"
    using assms(2) append_take_drop_id [of m "take m' ms"] by (simp add: min_def)
  then have "drop n (take m' ms) = drop n (take m ms @ drop m (take m' ms))" by (rule arg_cong)
  also have "\<dots> = drop n (take m ms) @ drop m (take m' ms)" using assms by simp
  finally show ?thesis .
qed

lemma listen_start_inv: "listen_inv (raw_subscribe_messages ch) (listen_start ch)"
  by (simp add: listen_inv_def listen_start_def raw_subscribe_messages_def)

lemma listen_step_inv:
  assumes B: "documented_recv B" and inv: "listen_inv n s"
  shows "listen_inv n (listen_step B s e)"
proof (cases e)
  case (Mirrored ev)
  with inv show ?thesis by (auto simp: listen_inv_def split: option.splits)
next
  case Poll
  from inv have n: "n \<le> lis_next s" "lis_next s \<le> length (published s)" and got: "Recv_closed \<notin> set (lis_got s)"
    by (auto simp: listen_inv_def)
  show ?thesis
  proof (cases rule: documented_recv_cases [OF B n(2), of MESSAGE_CAPACITY])
    case 1
    with Poll inv show ?thesis by simp
  next
    case 2
    then have "drop (lis_next s) (take (Suc (lis_next s)) (published s)) = [published s ! lis_next s]"
      by (simp add: take_Suc_conv_app_nth)
    with window_append [OF n(1) _ n(2), of "Suc (lis_next s)"]
    have "drop n (take (Suc (lis_next s)) (published s)) =
        drop n (take (lis_next s) (published s)) @ [published s ! lis_next s]" by simp
    with Poll 2 inv got n show ?thesis
      by (auto simp: listen_inv_def seen_messages_append Let_def)
  next
    case (3 k r)
    with window_append [OF n(1) _ n(2), of r]
    have "drop n (take r (published s)) =
        drop n (take (lis_next s) (published s)) @ drop (lis_next s) (take r (published s))" by simp
    with Poll 3 inv got n show ?thesis
      by (auto simp: listen_inv_def seen_messages_append Let_def intro: subseq_rev_drop_many)
  qed
qed

interpretation listening: step_invariant "listen_step B" "\<lambda>s. documented_recv B \<longrightarrow> listen_inv n s" for B n
  by unfold_locales (auto intro: listen_step_inv)

lemma listen_run_inv: "documented_recv B \<Longrightarrow> listen_inv n s \<Longrightarrow> listen_inv n (listen_run B es s)"
  unfolding listen_run_def using listening.run_inv [of B n s es] by blast

text \<open>Polled alone, a listener catches up; a lag skips only what has enough newer messages.\<close>

definition caught_up :: "'c listening \<Rightarrow> 'c listening \<Rightarrow> bool" where
  "caught_up s t \<longleftrightarrow> lis_channel t = lis_channel s \<and> lis_next t = length (published s) \<and>
     (let oldest = length (published s) - MESSAGE_CAPACITY
      in \<exists>zs. seen_messages (lis_got t) =
           seen_messages (lis_got s) @ zs @ drop (max (lis_next s) oldest) (published s) \<and>
         subseq zs (drop (lis_next s) (take oldest (published s))))"

lemma caught_up_received:
  assumes n: "lis_next s < length (published s)" and got: "Recv_closed \<notin> set (lis_got s)"
    and t: "caught_up (s\<lparr>lis_next := Suc (lis_next s),
      lis_got := lis_got s @ [Received (published s ! lis_next s)]\<rparr>) t"
  shows "caught_up s t"
proof -
  let ?ms = "published s" and ?n = "lis_next s"
  let ?oldest = "length ?ms - MESSAGE_CAPACITY"
  from t got obtain zs where t': "lis_channel t = lis_channel s" "lis_next t = length ?ms"
    and seen: "seen_messages (lis_got t) = seen_messages (lis_got s) @ ?ms ! ?n # zs @ drop (max (Suc ?n) ?oldest) ?ms"
    and zs: "subseq zs (drop (Suc ?n) (take ?oldest ?ms))"
    by (auto simp: caught_up_def seen_messages_append Let_def)
  have drop: "drop ?n ?ms = ?ms ! ?n # drop (Suc ?n) ?ms" using n by (rule Cons_nth_drop_Suc [symmetric])
  show ?thesis
  proof (cases "?n < ?oldest")
    case True
    then have "drop ?n (take ?oldest ?ms) = ?ms ! ?n # drop (Suc ?n) (take ?oldest ?ms)"
      using Cons_nth_drop_Suc [of ?n "take ?oldest ?ms"] n by simp
    with zs have "subseq (?ms ! ?n # zs) (drop ?n (take ?oldest ?ms))" by simp
    with True t' seen show ?thesis
      unfolding caught_up_def Let_def by (intro conjI exI [of _ "?ms ! ?n # zs"]) (auto simp: max_def)
  next
    case False
    with zs have "zs = []" by simp
    with False t' seen drop show ?thesis by (auto simp: caught_up_def max_def Let_def)
  qed
qed

lemma caught_up_lagged:
  assumes r: "lis_next s < r" "r + MESSAGE_CAPACITY \<le> length (published s)" and got: "Recv_closed \<notin> set (lis_got s)"
    and t: "caught_up (s\<lparr>lis_next := r, lis_got := lis_got s @ [Lagged k]\<rparr>) t"
  shows "caught_up s t"
proof -
  let ?ms = "published s" and ?oldest = "length (published s) - MESSAGE_CAPACITY"
  have "max r ?oldest = max (lis_next s) ?oldest" using r by simp
  moreover have "subseq zs (drop r (take ?oldest ?ms)) \<Longrightarrow> subseq zs (drop (lis_next s) (take ?oldest ?ms))" for zs
    using r window_append [of "lis_next s" r ?oldest ?ms] by (simp add: subseq_drop_many)
  ultimately show ?thesis
    using t got by (auto simp: caught_up_def seen_messages_append Let_def)
qed

lemma listen_catches_up:
  assumes B: "documented_recv B"
  shows "listen_inv n s \<Longrightarrow> \<exists>k \<le> length (published s) - lis_next s. caught_up s (listen_run B (replicate k Poll) s)"
proof (induction "length (published s) - lis_next s" arbitrary: s rule: less_induct)
  case less
  then have n: "lis_next s \<le> length (published s)" and got: "Recv_closed \<notin> set (lis_got s)"
    by (auto simp: listen_inv_def)
  define s1 where "s1 = listen_step B s Poll"
  have inv: "listen_inv n s1" unfolding s1_def by (rule listen_step_inv [OF B less.prems])
  have more: "\<exists>k \<le> length (published s) - lis_next s. caught_up s (listen_run B (replicate k Poll) s)"
    if adv: "published s1 = published s" "lis_next s < lis_next s1" "lis_next s < length (published s)"
      and lift: "\<And>t. caught_up s1 t \<Longrightarrow> caught_up s t"
  proof -
    have "length (published s1) - lis_next s1 < length (published s) - lis_next s" using adv by simp
    from less.hyps [OF this inv] adv obtain k where
      k: "k \<le> length (published s) - lis_next s1" "caught_up s1 (listen_run B (replicate k Poll) s1)" by auto
    have "listen_run B (replicate (Suc k) Poll) s = listen_run B (replicate k Poll) s1"
      by (simp only: replicate_Suc listen_run_simps s1_def)
    with k lift [OF k(2)] adv show ?thesis by (intro exI [of _ "Suc k"]) auto
  qed
  show ?case
  proof (cases rule: documented_recv_cases [OF B n, of MESSAGE_CAPACITY])
    case 1
    then show ?thesis by (intro exI [of _ 0]) (auto simp: caught_up_def Let_def max_def intro: exI [of _ "[]"])
  next
    case 2
    then show ?thesis using more caught_up_received [OF _ got] by (simp add: s1_def)
  next
    case (3 k r)
    then show ?thesis using more caught_up_lagged [OF _ _ got] by (simp add: s1_def)
  qed
qed

section \<open>From PondSocket to a handler\<close>

text \<open>
  The whole way: the channel of the PondSocket client broadcasts events, the mirror task of
  \<open>RawSocketChannel\<close> receives them until its first receive error and broadcasts the messages among
  them, a listener receives those. The PondSocket channel retains \<open>cap\<close> events for a slow receiver;
  its receiver is the argument \<open>A\<close>. \<open>pond_events\<close> are the events the mirror had not received when the
  listener subscribed, and those since. The state of the channel may change at any time.
\<close>

record 'c relay =
  pond_events :: "ChannelEvent list"
  mirror_next :: nat
  mirror_running :: bool
  relay_listening :: "'c listening"

datatype 'c relay_event = Pond_event ChannelEvent | Mirror_poll | Listener_poll | Relay_moved 'c

definition relay_start :: "'c RawSocketChannel \<Rightarrow> 'c relay" where
  "relay_start ch =
     \<lparr>pond_events = [], mirror_next = 0, mirror_running = True, relay_listening = listen_start ch\<rparr>"

abbreviation relay_channel :: "'c relay \<Rightarrow> 'c RawSocketChannel" where
  "relay_channel s \<equiv> lis_channel (relay_listening s)"

definition on_relay_channel ::
  "('c RawSocketChannel \<Rightarrow> 'c RawSocketChannel) \<Rightarrow> 'c listening \<Rightarrow> 'c listening" where
  "on_relay_channel f l = l\<lparr>lis_channel := f (lis_channel l)\<rparr>"

fun relay_step :: "ChannelEvent receiver \<Rightarrow> nat \<Rightarrow> recv_lib \<Rightarrow> 'c relay \<Rightarrow> 'c relay_event \<Rightarrow> 'c relay" where
  "relay_step A cap B s (Pond_event e) = s\<lparr>pond_events := pond_events s @ [e]\<rparr>"
| "relay_step A cap B s Mirror_poll =
     (if mirror_running s then
        case A cap (mirror_next s) (pond_events s) of
          None \<Rightarrow> s
        | Some (w, n) \<Rightarrow> s\<lparr>mirror_next := n, mirror_running := received w \<noteq> None,
            relay_listening := on_relay_channel (mirror_message_loop [w]) (relay_listening s)\<rparr>
      else s)"
| "relay_step A cap B s Listener_poll = s\<lparr>relay_listening := listen_step B (relay_listening s) Poll\<rparr>"
| "relay_step A cap B s (Relay_moved c) =
     s\<lparr>relay_listening := on_relay_channel (\<lambda>ch. ch\<lparr>channel := c\<rparr>) (relay_listening s)\<rparr>"

definition relay_run ::
  "ChannelEvent receiver \<Rightarrow> nat \<Rightarrow> recv_lib \<Rightarrow> 'c relay_event list \<Rightarrow> 'c relay \<Rightarrow> 'c relay" where
  "relay_run A cap B es s = foldl (relay_step A cap B) s es"

lemma relay_run_simps [simp]:
  "relay_run A cap B [] s = s"
  "relay_run A cap B (e # es) s = relay_run A cap B es (relay_step A cap B s e)"
  by (simp_all add: relay_run_def)

lemma relay_run_append: "relay_run A cap B (es @ es') s = relay_run A cap B es' (relay_run A cap B es s)"
  by (simp add: relay_run_def)

text \<open>
  What a broadcast receiver is documented to do when it has fallen behind by more than the
  capacity: it lags.
\<close>

definition lags_beyond :: "'m receiver \<Rightarrow> bool" where
  "lags_beyond A \<longleftrightarrow> (\<forall>cap n ms. n + cap < length ms \<longrightarrow> (\<exists>k r. A cap n ms = Some (Lagged k, r)))"

text \<open>
  What the mirror has published: the messages among the events up to its position, if it is
  running; in any case among the first events.
\<close>

definition relay_inv :: "'c RawSocketChannel \<Rightarrow> 'c relay \<Rightarrow> bool" where
  "relay_inv ch s \<longleftrightarrow>
     (\<exists>n \<le> length (pond_events s). (mirror_running s \<longrightarrow> mirror_next s = n) \<and>
        published (relay_listening s) = message_tx ch @ List.map_filter map_channel_event (take n (pond_events s))) \<and>
     listen_inv (length (message_tx ch)) (relay_listening s)"

lemma map_filter_append: "List.map_filter f (xs @ ys) = List.map_filter f xs @ List.map_filter f ys"
  by (simp add: List.map_filter_def)

lemma listen_inv_channel:
  "listen_inv n l \<Longrightarrow> message_tx ch = published l @ ms \<Longrightarrow> listen_inv n (l\<lparr>lis_channel := ch\<rparr>)"
  by (auto simp: listen_inv_def)

lemma mirror_step_inv:
  assumes A: "documented_recv A" and inv: "relay_inv ch s"
  shows "relay_inv ch (relay_step A cap B s Mirror_poll)"
proof (cases "mirror_running s")
  case True
  let ?es = "pond_events s" and ?n = "mirror_next s"
  from inv True have n: "?n \<le> length ?es"
    and pub: "published (relay_listening s) = message_tx ch @ List.map_filter map_channel_event (take ?n ?es)"
    and lis: "listen_inv (length (message_tx ch)) (relay_listening s)"
    by (auto simp: relay_inv_def)
  show ?thesis
  proof (cases rule: documented_recv_cases [OF A n, of cap])
    case 1
    with inv True show ?thesis by simp
  next
    case 2
    have ms: "message_tx (mirror_message_loop [Received (?es ! ?n)] (relay_channel s)) =
        published (relay_listening s) @ List.map_filter map_channel_event [?es ! ?n]"
      by (simp add: mirror_message_loop_broadcasts del: mirror_message_loop.simps)
    have "listen_inv (length (message_tx ch))
        (on_relay_channel (mirror_message_loop [Received (?es ! ?n)]) (relay_listening s))"
      unfolding on_relay_channel_def by (rule listen_inv_channel [OF lis ms])
    moreover have "List.map_filter map_channel_event (take (Suc ?n) ?es) =
        List.map_filter map_channel_event (take ?n ?es) @ List.map_filter map_channel_event [?es ! ?n]"
      using 2(1) by (simp add: take_Suc_conv_app_nth map_filter_append)
    ultimately show ?thesis
      using True 2 pub ms by (auto simp: relay_inv_def on_relay_channel_def simp del: mirror_message_loop.simps)
  next
    case (3 k r)
    with True n pub lis show ?thesis
      by (auto simp: relay_inv_def on_relay_channel_def intro!: exI [of _ ?n])
  qed
qed (use inv in simp)

lemma relay_step_inv:
  assumes A: "documented_recv A" and B: "documented_recv B" and inv: "relay_inv ch s"
  shows "relay_inv ch (relay_step A cap B s e)"
proof (cases e)
  case (Pond_event ev)
  from inv obtain n where n: "n \<le> length (pond_events s)" "mirror_running s \<longrightarrow> mirror_next s = n"
    "published (relay_listening s) = message_tx ch @ List.map_filter map_channel_event (take n (pond_events s))"
    and lis: "listen_inv (length (message_tx ch)) (relay_listening s)"
    by (auto simp: relay_inv_def)
  from n lis Pond_event show ?thesis by (auto simp: relay_inv_def intro!: exI [of _ n])
next
  case Mirror_poll
  with mirror_step_inv [OF A inv] show ?thesis by simp
next
  case Listener_poll
  have "published (listen_step B l Poll) = published l" for l :: "'a listening" by (simp split: option.split)
  with Listener_poll inv listen_step_inv [OF B, of _ _ Poll] show ?thesis
    by (auto simp: relay_inv_def simp del: listen_step.simps)
next
  case (Relay_moved c)
  with inv show ?thesis by (simp add: relay_inv_def on_relay_channel_def listen_inv_def)
qed

interpretation relay: step_invariant "relay_step A cap B"
  "\<lambda>s. documented_recv A \<and> documented_recv B \<longrightarrow> relay_inv ch s" for A cap B ch
  by unfold_locales (auto intro: relay_step_inv)

lemma relay_start_inv: "relay_inv ch (relay_start ch)"
  using listen_start_inv [of ch]
  by (simp add: relay_inv_def relay_start_def raw_subscribe_messages_def) (simp add: listen_start_def List.map_filter_def)

lemma relay_run_inv:
  assumes "documented_recv A" and "documented_recv B"
  shows "relay_inv ch (relay_run A cap B es (relay_start ch))"
  using relay.run_inv [of A B ch "relay_start ch" cap es] assms relay_start_inv unfolding relay_run_def by blast

lemma relay_run_events: "relay_run A cap B (map Pond_event es) s = s\<lparr>pond_events := pond_events s @ es\<rparr>"
  by (induction es arbitrary: s) simp_all

text \<open>A mirror that has stopped publishes nothing.\<close>

lemma stopped_step:
  "\<not> mirror_running s \<Longrightarrow> \<not> mirror_running (relay_step A cap B s e) \<and>
   published (relay_listening (relay_step A cap B s e)) = published (relay_listening s)"
  by (cases e) (auto simp: on_relay_channel_def split: option.split)

lemma stopped_run:
  "\<not> mirror_running s \<Longrightarrow> \<not> mirror_running (relay_run A cap B es s) \<and>
   published (relay_listening (relay_run A cap B es s)) = published (relay_listening s)"
proof (induction es arbitrary: s)
  case (Cons e es)
  with stopped_step [OF Cons.prems, of A cap B e] show ?case by simp
qed simp

lemma handled_published:
  assumes "relay_inv ch s"
  shows "subseq (handled self (relay_listening s)) (drop (length (message_tx ch)) (published (relay_listening s)))"
proof -
  have "subseq (drop n (take m ms)) (drop n ms)" for n m and ms :: "(string \<times> EventData) list"
    by (simp add: drop_take prefix_imp_subseq take_is_prefix)
  with assms show ?thesis
    unfolding handled_seen relay_inv_def listen_inv_def Let_def using subseq_order.trans by blast
qed

section \<open>Properties\<close>

text \<open>
  C25. A listener delivers what is broadcast after its subscription: however it and the mirror take
  turns, its handler is called with messages published since then, in their order, none twice and
  none from before. Without a lag these are all up to its position, and whenever it is polled on
  it catches up, missing at most messages that have 1024 newer ones.
\<close>

theorem listener_delivers:
  assumes "documented_recv B" and "s = listen_run B es (listen_start ch)"
  shows "subseq (handled self s) (drop (length (message_tx ch)) (published s)) \<and>
    (list_all (\<lambda>r. \<not> lag r) (lis_got s) \<longrightarrow>
      handled self s = drop (length (message_tx ch)) (take (lis_next s) (published s))) \<and>
    (\<exists>k \<le> length (published s). \<exists>t zs. t = listen_run B (replicate k Poll) s \<and> published t = published s \<and>
      handled self t = handled self s @ zs @
        drop (max (lis_next s) (length (published s) - 1024)) (published s) \<and>
      subseq zs (drop (lis_next s) (take (length (published s) - 1024) (published s))))"
proof -
  have inv: "listen_inv (length (message_tx ch)) s"
    using listen_run_inv [OF assms(1) listen_start_inv] assms(2) by (simp add: raw_subscribe_messages_def)
  have "subseq (drop n (take m ms)) (drop n ms)" for n m and ms :: "(string \<times> EventData) list"
    by (simp add: drop_take prefix_imp_subseq take_is_prefix)
  with inv have "subseq (handled self s) (drop (length (message_tx ch)) (published s))"
    unfolding handled_seen listen_inv_def Let_def using subseq_order.trans by blast
  moreover have "list_all (\<lambda>r. \<not> lag r) (lis_got s) \<longrightarrow>
      handled self s = drop (length (message_tx ch)) (take (lis_next s) (published s))"
    using inv by (simp add: handled_seen listen_inv_def Let_def)
  moreover obtain k where "k \<le> length (published s) - lis_next s" "caught_up s (listen_run B (replicate k Poll) s)"
    using listen_catches_up [OF assms(1) inv] by blast
  then have "\<exists>k \<le> length (published s). \<exists>t zs. t = listen_run B (replicate k Poll) s \<and> published t = published s \<and>
      handled self t = handled self s @ zs @
        drop (max (lis_next s) (length (published s) - 1024)) (published s) \<and>
      subseq zs (drop (lis_next s) (take (length (published s) - 1024) (published s)))"
    unfolding caught_up_def handled_seen Let_def MESSAGE_CAPACITY_def
    by (intro exI [of _ k] conjI exI [of _ "listen_run B (replicate k Poll) s"]) auto
  ultimately show ?thesis by blast
qed

text \<open>
  C40. A lag ends the message mirror for good. As long as the mirror runs, exactly the messages among
  the events up to its position have been published. Once more events come in a burst than the
  PondSocket channel retains before the mirror is polled again, its next receipt is an error and
  its loop ends: whatever events, polls and states of the channel follow, nothing is published any
  more, handlers get at most what was published before, and a channel that is open goes on
  accepting what the session sends.
\<close>

theorem mirror_stops_at_lag:
  assumes "documented_recv A" and "documented_recv B" and "lags_beyond A"
    and "s = relay_run A cap B es (relay_start ch)" and "mirror_running s" and "cap < length burst"
    and "t = relay_run A cap B (map Pond_event burst @ Mirror_poll # es') s"
  shows "published (relay_listening s) =
      message_tx ch @ List.map_filter map_channel_event (take (mirror_next s) (pond_events s)) \<and>
    published (relay_listening t) = published (relay_listening s) \<and>
    subseq (handled self (relay_listening t)) (drop (length (message_tx ch)) (published (relay_listening s))) \<and>
    (closed_error P (relay_channel t) = None \<longrightarrow> fst (raw_send_message P e p (relay_channel t)) = Ok ())"
proof -
  have s: "relay_inv ch s" using relay_run_inv [OF assms(1,2)] assms(4) by simp
  then have now: "mirror_next s \<le> length (pond_events s)" "published (relay_listening s) =
      message_tx ch @ List.map_filter map_channel_event (take (mirror_next s) (pond_events s))"
    using assms(5) by (auto simp: relay_inv_def)
  let ?b = "s\<lparr>pond_events := pond_events s @ burst\<rparr>"
  let ?l = "relay_step A cap B ?b Mirror_poll"
  have t: "t = relay_run A cap B es' ?l"
    using assms(7) by (simp only: relay_run_append relay_run_events relay_run_simps)
  have "mirror_next s + cap < length (pond_events s @ burst)" using assms(6) now(1) by simp
  with assms(3) obtain k r where "A cap (mirror_next s) (pond_events s @ burst) = Some (Lagged k, r)"
    unfolding lags_beyond_def by blast
  with assms(5) have "\<not> mirror_running ?l \<and> published (relay_listening ?l) = published (relay_listening s)"
    by (simp add: on_relay_channel_def)
  with stopped_run [of ?l A cap B es'] t have stopped: "published (relay_listening t) = published (relay_listening s)"
    by metis
  have "t = relay_run A cap B (es @ map Pond_event burst @ Mirror_poll # es') (relay_start ch)"
    using assms(4,7) by (simp only: relay_run_append)
  then have "relay_inv ch t" using relay_run_inv [OF assms(1,2)] by simp
  from handled_published [OF this, of self] stopped now(2) show ?thesis by simp
qed

section \<open>Witnesses\<close>

lemma plain_recv_lags: "lags_beyond plain_recv"
  by (auto simp: lags_beyond_def plain_recv_def)

text \<open>A PondSocket channel that retains one event, and a burst of two.\<close>

lemma mirror_stops_at_lag_witness:
  "published (relay_listening (relay_run plain_recv 1 plain_recv
      (map Pond_event [Presence, ChannelMessage ''lost'' fmempty] @ Mirror_poll #
        [Mirror_poll, Mirror_poll, Pond_event (ChannelMessage ''late'' fmempty), Mirror_poll])
      (relay_start (raw_channel_new state_channel PondJoined)))) = []"
proof -
  let ?ch = "raw_channel_new state_channel PondJoined"
  have "mirror_running (relay_start ?ch)" "1 < length [Presence, ChannelMessage ''lost'' fmempty]"
    and "published (relay_listening (relay_start ?ch)) = []"
    by (simp_all add: relay_start_def listen_start_def raw_channel_new_def)
  from mirror_stops_at_lag [where es = "[]" and ch = ?ch, OF plain_recv_documented plain_recv_documented
      plain_recv_lags relay_run_simps(1) [symmetric] this(1,2) refl, THEN conjunct2, THEN conjunct1] this(3)
  show ?thesis by (simp only:)
qed

definition late_listener :: "unit listening" where
  "late_listener = listen_start \<lparr>channel = (), state_tx = Joined, message_tx = [(''early'', fmempty)]\<rparr>"

lemma listener_delivers_witness:
  "\<exists>k. handled (control_session_new (lis_channel late_listener) ''s1'' 0)
      (listen_run plain_recv (replicate k Poll)
        (listen_run plain_recv [Mirrored (ChannelMessage ''late'' fmempty), Mirrored Presence] late_listener)) =
    [(''late'', fmempty)]"
proof -
  define s where "s = listen_run plain_recv [Mirrored (ChannelMessage ''late'' fmempty), Mirrored Presence] late_listener"
  have now: "published s = [(''early'', fmempty), (''late'', fmempty)]" "lis_next s = 1" "lis_got s = []"
    by (simp_all add: s_def late_listener_def listen_start_def raw_subscribe_messages_def)
  have nothing: "handled self s = []" for self :: "unit VoxRtcControlSession"
    by (simp add: handled_seen now)
  obtain k zs where "handled (control_session_new (lis_channel late_listener) ''s1'' 0)
      (listen_run plain_recv (replicate k Poll) s) = zs @ [(''late'', fmempty)]" "subseq zs []"
    using listener_delivers [OF plain_recv_documented s_def [unfolded late_listener_def],
        of "control_session_new (lis_channel late_listener) ''s1'' 0"]
    by (auto simp: now nothing)
  then have "handled (control_session_new (lis_channel late_listener) ''s1'' 0)
      (listen_run plain_recv (replicate k Poll) s) = [(''late'', fmempty)]"
    using list_emb_Nil2 by fastforce
  then show ?thesis unfolding s_def by blast
qed

end
