(* ===== verification/Vox_Session_Tests.thy ===== *)
theory Vox_Session_Tests
  imports Vox_Listen
begin

text \<open>
  The unit tests of the control session (\<open>src/rust/rtcserver/src/session.rs\<close>, module \<open>tests\<close>) on
  the model: what the crate's authors expect of single inputs, checked against the definitions.
  A test is a predicate with the test's inputs and assertions, under the test's name. The tests
  run on a channel of a PondSocket client, which is an argument here, so that each of them is
  shown for every PondSocket client (that keeps a new channel open, where the test sends).

  A message the test sends on the broadcast is a message the listener receives; a wait on the
  handler's queue gives the first event the handler was called with. A decimal literal is the
  nearest double.
\<close>

section \<open>Test helpers\<close>

text \<open>\<open>test_channel\<close> of \<open>socket.rs\<close>: a channel of a client that was never connected.\<close>

definition test_channel :: "('k, 'c) pond_client \<Rightarrow> 'c pond_channel \<Rightarrow> 'k \<Rightarrow> 'c RawSocketChannel" where
  "test_channel K P k = raw_channel_new P (fst (pond_create_channel K ''/rtc/test'' None k))"

definition test_session :: "'c RawSocketChannel \<Rightarrow> 'c VoxRtcControlSession" where
  "test_session ch = control_session_new ch ''sess-1'' (from_secs 1)"

text \<open>\<open>recv\<close>: the next event from the handler, and an assertion on it.\<close>

fun recv :: "'a list \<Rightarrow> 'a option" where
  "recv (event # _) = Some event"
| "recv [] = None"

definition asserts :: "('a \<Rightarrow> bool) \<Rightarrow> 'a list \<Rightarrow> bool" where
  "asserts p events = (case recv events of Some event \<Rightarrow> p event | None \<Rightarrow> False)"

definition num :: "nat \<Rightarrow> Value" where
  "num n = Number (PosInt (of_nat n))"

definition double :: "rat \<Rightarrow> Value" where
  "double r = Number (Float (F64 r))"

definition lit_0_9 :: rat where "lit_0_9 = 8106479329266893 / 9007199254740992"
definition lit_0_7 :: rat where "lit_0_7 = 3152519739159347 / 4503599627370496"
definition lit_0_82 :: rat where "lit_0_82 = 7385903388887613 / 9007199254740992"
definition lit_0_91 :: rat where "lit_0_91 = 8196551321814303 / 9007199254740992"
definition lit_0_42 :: rat where "lit_0_42 = 7566047373982433 / 18014398509481984"
definition lit_0_31 :: rat where "lit_0_31 = 5584463537939415 / 18014398509481984"
definition lit_1_1 :: rat where "lit_1_1 = 2476979795053773 / 2251799813685248"

section \<open>Pure functions\<close>

definition join_decline_reason_prefers_structured_message_fields :: "(Value \<Rightarrow> string) \<Rightarrow> bool" where
  "join_decline_reason_prefers_structured_message_fields to_string \<longleftrightarrow>
     join_decline_reason to_string (Some (object_of [(''message'', String ''expired'')])) = Some ''expired'' \<and>
     join_decline_reason to_string (Some (object_of [(''reason'', String ''missing'')])) = Some ''missing'' \<and>
     join_decline_reason to_string (Some (object_of [(''channel'', String ''/rtc/abc'')])) =
       Some ''{\"channel\":\"/rtc/abc\"}'' \<and>
     join_decline_reason to_string (Some fmempty) = None \<and>
     join_decline_reason to_string None = None"

definition next_message_classifies_lag_close_and_ok :: bool where
  "next_message_classifies_lag_close_and_ok \<longleftrightarrow>
     (case next_message (Received (''e'', fmempty)) of Continue (Some _) \<Rightarrow> True | _ \<Rightarrow> False) \<and>
     next_message (Lagged 7) = Continue None \<and>
     next_message Recv_closed = Break ()"

definition default_session_config :: SessionConfig where
  "default_session_config =
     \<lparr>stt_model = None, tts_model = None, cfg_voice = None, turn_profile = None, vad_backend = None,
      cfg_turn_detector = None, cfg_speech_context = None, extra = fmempty\<rparr>"

definition session_config_serializes_explicit_false_speech_context :: bool where
  "session_config_serializes_explicit_false_speech_context \<longleftrightarrow>
     get (session_config_payload (default_session_config\<lparr>cfg_speech_context := Some False\<rparr>)) ''speech_context'' =
       Some (Bool False)"

section \<open>Generations\<close>

definition response_commands_share_one_generation_id :: "string \<Rightarrow> 'c RawSocketChannel \<Rightarrow> bool" where
  "response_commands_share_one_generation_id uuid ch \<longleftrightarrow>
     (let (generation_id, self) = next_response_generation uuid (test_session ch);
          delta = add_response_generation self (object_of [(''delta'', String ''hello'')]);
          commit = add_response_generation self fmempty
      in get delta ''generation_id'' = Some (String generation_id) \<and>
         get commit ''generation_id'' = Some (String generation_id))"

definition start_payload_uses_explicit_generation_id :: "string \<Rightarrow> 'c RawSocketChannel \<Rightarrow> bool" where
  "start_payload_uses_explicit_generation_id uuid ch \<longleftrightarrow>
     (let options = default_response_options\<lparr>allow_interruptions := Some False, opt_generation_id := Some ''gen-7''\<rparr>;
          (generation_id, start, self) = start_payload uuid (Some options) (test_session ch);
          commit = thread_generation self fmempty None
      in generation_id = ''gen-7'' \<and>
         get start ''generation_id'' = Some (String ''gen-7'') \<and>
         get start ''allow_interruptions'' = Some (Bool False) \<and>
         get commit ''generation_id'' = Some (String ''gen-7''))"

definition start_payload_carries_superseded_generation_identity :: "string \<Rightarrow> 'c RawSocketChannel \<Rightarrow> bool" where
  "start_payload_carries_superseded_generation_identity uuid ch \<longleftrightarrow>
     (let options = default_response_options\<lparr>opt_generation_id := Some ''gen-new'',
            opt_supersedes_generation_id := Some ''gen-old''\<rparr>;
          (_, start, _) = start_payload uuid (Some options) (test_session ch)
      in get start ''supersedes_generation_id'' = Some (String ''gen-old''))"

definition start_payload_generates_generation_id_when_absent :: "string \<Rightarrow> 'c RawSocketChannel \<Rightarrow> bool" where
  "start_payload_generates_generation_id_when_absent uuid ch \<longleftrightarrow>
     (let (generation_id, start, _) = start_payload uuid None (test_session ch)
      in prefix ''generation_1_'' generation_id \<and>
         length generation_id > length ''generation_1_'' \<and>
         get start ''generation_id'' = Some (String generation_id))"

definition start_payload_serializes_response_output :: "string \<Rightarrow> 'c RawSocketChannel \<Rightarrow> bool" where
  "start_payload_serializes_response_output uuid ch \<longleftrightarrow>
     (let output = \<lparr>opt_model = Some ''qwen3-tts:0.6b-clone'', opt_voice = Some ''samantha'',
            opt_language = Some ''fr'', opt_speed = Some (F64 lit_0_9),
            opt_params = Some (object_of [(''temperature'', double lit_0_7)])\<rparr>;
          options = default_response_options\<lparr>opt_generation_id := Some ''gen-output'', opt_output := Some output\<rparr>;
          (_, start, _) = start_payload uuid (Some options) (test_session ch)
      in get start ''output'' = Some (json
           [(''model'', String ''qwen3-tts:0.6b-clone''), (''voice'', String ''samantha''),
            (''language'', String ''fr''), (''speed'', double lit_0_9),
            (''params'', json [(''temperature'', double lit_0_7)])]))"

definition explicit_generation_id_overrides_tracked_one :: "string \<Rightarrow> 'c RawSocketChannel \<Rightarrow> bool" where
  "explicit_generation_id_overrides_tracked_one uuid ch \<longleftrightarrow>
     (let (tracked, self) = next_response_generation uuid (test_session ch);
          delta = thread_generation self (object_of [(''delta'', String ''hi'')]) (Some ''gen-42'')
      in get delta ''generation_id'' = Some (String ''gen-42'') \<and> tracked \<noteq> ''gen-42'')"

section \<open>The tests of pure functions and generations pass\<close>

lemmas payload_defs =
  object_of_def json_def insert_opt_def response_options_payload_def response_output_options_payload_def
  default_response_options_def explicit_generation_def number_from_f64_def

lemmas generation_defs =
  next_response_generation_def add_response_generation_def thread_generation_def start_payload_def
  set_response_generation_def test_session_def control_session_new_def

lemma join_decline_reason_test:
  assumes "to_string (json [(''channel'', String ''/rtc/abc'')]) = ''{\"channel\":\"/rtc/abc\"}''"
  shows "join_decline_reason_prefers_structured_message_fields to_string"
proof -
  have "fmupd ''channel'' v fmempty \<noteq> fmempty" for v :: Value by (rule fmupd_nonempty)
  with assms show ?thesis
    by (simp add: join_decline_reason_prefers_structured_message_fields_def join_decline_reason_def payload_defs)
qed

lemma next_message_test: "next_message_classifies_lag_close_and_ok"
  by (simp add: next_message_classifies_lag_close_and_ok_def)

lemma session_config_test: "session_config_serializes_explicit_false_speech_context"
  by (simp add: session_config_serializes_explicit_false_speech_context_def session_config_payload_def)

lemma generation_tests:
  "response_commands_share_one_generation_id uuid ch"
  "start_payload_uses_explicit_generation_id uuid ch"
  "start_payload_carries_superseded_generation_identity uuid ch"
  "explicit_generation_id_overrides_tracked_one uuid ch"
  "start_payload_serializes_response_output uuid ch"
  by (simp_all add: response_commands_share_one_generation_id_def start_payload_uses_explicit_generation_id_def
      start_payload_carries_superseded_generation_identity_def explicit_generation_id_overrides_tracked_one_def
      start_payload_serializes_response_output_def generation_defs payload_defs double_def format_generation_def Let_def)

lemma generated_start_test:
  assumes "uuid \<noteq> []"
  shows "start_payload_generates_generation_id_when_absent uuid ch"
proof -
  have "digit_char 1 = CHR ''1''" by code_simp
  then have "show_nat 1 = ''1''" by (simp add: show_nat.simps)
  with assms show ?thesis
    by (simp add: start_payload_generates_generation_id_when_absent_def generation_defs payload_defs
        format_generation_def Let_def)
qed

section \<open>Typed events\<close>

definition on_error_parses_typed_fields :: "'c RawSocketChannel \<Rightarrow> bool" where
  "on_error_parses_typed_fields ch \<longleftrightarrow>
     asserts (\<lambda>event. err_message event = Some ''cannot start now'' \<and>
         err_code event = Some ERROR_CODE_SESSION_FAILED \<and> \<not> err_recoverable event \<and>
         err_generation_id event = Some ''gen-9'')
       (on_error (test_session ch)
         [Received (EVENT_ERROR, object_of
           [(''message'', String ''cannot start now''), (''code'', String ERROR_CODE_SESSION_FAILED),
            (''recoverable'', Bool False), (''generation_id'', String ''gen-9'')])])"

definition on_error_defaults_missing_recoverable_to_true :: "'c RawSocketChannel \<Rightarrow> bool" where
  "on_error_defaults_missing_recoverable_to_true ch \<longleftrightarrow>
     asserts (\<lambda>event. err_recoverable event \<and> err_code event = None \<and> err_generation_id event = None)
       (on_error (test_session ch)
         [Received (EVENT_ERROR, object_of [(''message'', String ''legacy server''), (''code'', String '''')])])"

definition response_events_expose_generation_id :: "'c RawSocketChannel \<Rightarrow> bool" where
  "response_events_expose_generation_id ch \<longleftrightarrow>
     asserts (\<lambda>event. response_id event = Some ''resp-1'' \<and> generation_id event = Some ''gen-1'')
       (on_response_created (test_session ch)
         [Received (EVENT_RESPONSE_CREATED, object_of
           [(''response_id'', String ''resp-1''), (''generation_id'', String ''gen-1'')])])"

definition spoken_text_event_exposes_canonical_prefix_fields :: "'c RawSocketChannel \<Rightarrow> bool" where
  "spoken_text_event_exposes_canonical_prefix_fields ch \<longleftrightarrow>
     asserts (\<lambda>event. response_id (spoken_response event) = Some ''resp-1'' \<and>
         generation_id (spoken_response event) = Some ''gen-1'' \<and>
         spoken_text event = ''The words actually spoken'' \<and> partial_status event = ''matched'' \<and>
         played_audio_ms event = F64 640)
       (on_response_spoken_text (test_session ch)
         [Received (EVENT_RESPONSE_SPOKEN_TEXT, object_of
           [(''response_id'', String ''resp-1''), (''generation_id'', String ''gen-1''),
            (''spoken_text'', String ''The words actually spoken''), (''partial_status'', String ''matched''),
            (''played_audio_ms'', num 640)])])"

definition audio_clear_and_interruption_expose_generation_id :: "'c RawSocketChannel \<Rightarrow> bool" where
  "audio_clear_and_interruption_expose_generation_id ch \<longleftrightarrow>
     (let sent =
       [Received (EVENT_RESPONSE_AUDIO_CLEAR, object_of
          [(''response_id'', String ''resp-2''), (''generation_id'', String ''gen-2'')]),
        Received (EVENT_INTERRUPTION_DETECTED, object_of
          [(''response_id'', String ''resp-2''), (''generation_id'', String ''gen-2''),
           (''vad_active_ms'', num 250)])]
      in asserts (\<lambda>clear. generation_id clear = Some ''gen-2'') (on_response_audio_clear (test_session ch) sent) \<and>
         asserts (\<lambda>interruption. generation_id (int_response interruption) = Some ''gen-2'' \<and>
             vad_active_ms interruption = Some (F64 250))
           (on_interruption_detected (test_session ch) sent))"

definition on_signaling_error_parses_message_and_generation :: "'c RawSocketChannel \<Rightarrow> bool" where
  "on_signaling_error_parses_message_and_generation ch \<longleftrightarrow>
     asserts (\<lambda>event. sig_message event = Some ''setLocalDescription failed'' \<and> sig_generation event = Some 3)
       (on_signaling_error (test_session ch)
         [Received (EVENT_RTC_SIGNALING_ERROR, object_of
           [(''message'', String ''setLocalDescription failed''), (''generation'', num 3)])])"

definition on_signaling_error_leaves_generation_none_when_absent :: "'c RawSocketChannel \<Rightarrow> bool" where
  "on_signaling_error_leaves_generation_none_when_absent ch \<longleftrightarrow>
     asserts (\<lambda>event. sig_message event = Some ''RTC signaling failed'' \<and> sig_generation event = None)
       (on_signaling_error (test_session ch)
         [Received (EVENT_RTC_SIGNALING_ERROR, object_of [(''message'', String ''RTC signaling failed'')])])"

definition interruption_events_expose_reason :: "'c RawSocketChannel \<Rightarrow> bool" where
  "interruption_events_expose_reason ch \<longleftrightarrow>
     (let sent =
       [Received (EVENT_INTERRUPTION_DETECTED, object_of
          [(''response_id'', String ''resp-3''), (''generation_id'', String ''gen-3''),
           (''reason'', String ''speech_overlap'')]),
        Received (EVENT_INTERRUPTION_FALSE_POSITIVE, object_of
          [(''response_id'', String ''resp-3''), (''reason'', String ''backchannel'')])]
      in asserts (\<lambda>detected. int_reason detected = Some ''speech_overlap'')
           (on_interruption_detected (test_session ch) sent) \<and>
         asserts (\<lambda>false_positive. int_reason false_positive = Some ''backchannel'')
           (on_interruption_false_positive (test_session ch) sent))"

definition on_speech_started_fires_with_timestamp :: "'c RawSocketChannel \<Rightarrow> bool" where
  "on_speech_started_fires_with_timestamp ch \<longleftrightarrow>
     asserts (\<lambda>event. session_id event = ''sess-1'' \<and> channel_name event = ''/rtc/sess-1'' \<and>
         started_timestamp_ms event = Some (F64 1234))
       (on_speech_started (test_session ch)
         [Received (EVENT_SPEECH_STARTED, object_of
           [(''session_id'', String ''sess-1''), (''timestamp_ms'', num 1234)])])"

definition on_speech_stopped_fires_with_timestamp :: "'c RawSocketChannel \<Rightarrow> bool" where
  "on_speech_stopped_fires_with_timestamp ch \<longleftrightarrow>
     asserts (\<lambda>event. stopped_timestamp_ms event = Some (F64 5678))
       (on_speech_stopped (test_session ch)
         [Received (EVENT_SPEECH_STOPPED, object_of [(''timestamp_ms'', num 5678)])])"

definition on_transcript_delta_fires_with_fields :: "'c RawSocketChannel \<Rightarrow> bool" where
  "on_transcript_delta_fires_with_fields ch \<longleftrightarrow>
     asserts (\<lambda>event. delta event = ''hel'' \<and> delta_start_ms event = Some (F64 10) \<and>
         delta_end_ms event = Some (F64 20))
       (on_transcript_delta (test_session ch)
         [Received (EVENT_TRANSCRIPT_DELTA, object_of
           [(''delta'', String ''hel''), (''start_ms'', num 10), (''end_ms'', num 20)])])"

definition on_turn_eou_predicted_fires_with_fields :: "'c RawSocketChannel \<Rightarrow> bool" where
  "on_turn_eou_predicted_fires_with_fields ch \<longleftrightarrow>
     asserts (\<lambda>event. probability event = Some (F64 lit_0_82) \<and> threshold event = Some (F64 (1 / 2)) \<and>
         delay_ms event = Some (F64 120) \<and> eou_start_ms event = Some (F64 0) \<and>
         eou_end_ms event = Some (F64 300) \<and> decision event = Some ''end'' \<and>
         action event = Some ''commit'' \<and> turn_detector event = Some ''smart'')
       (on_turn_eou_predicted (test_session ch)
         [Received (EVENT_TURN_EOU_PREDICTED, object_of
           [(''probability'', double lit_0_82), (''threshold'', double (1 / 2)), (''delay_ms'', num 120),
            (''start_ms'', num 0), (''end_ms'', num 300), (''decision'', String ''end''),
            (''action'', String ''commit''), (''turn_detector'', String ''smart'')])])"

section \<open>The tests of the typed events pass\<close>

lemma num_reads [simp]:
  "n < 2 ^ 53 \<Longrightarrow> as_f64 (num n) = Some (F64 (of_nat n))"
  "n < 2 ^ 53 \<Longrightarrow> as_i64 (num n) = Some (of_nat n)"
  "as_u64 (num n) = Some (of_nat n)"
  by (simp_all add: num_def f64_of_u64_exact unat_of_nat take_bit_eq_mod)

lemma double_reads [simp]: "as_f64 (double r) = Some (F64 r)"
  by (simp add: double_def)

lemma asserts_Cons [simp]: "asserts p (event # events) = p event"
  by (simp add: asserts_def)

lemmas typed_defs =
  listener_defs on_typed_def test_session_def control_session_new_def event_names object_of_def
  optional_string_def optional_nonempty_string_def optional_number_def optional_i64_def required_string_def

lemma error_event_tests:
  "on_error_parses_typed_fields ch"
  "on_error_defaults_missing_recoverable_to_true ch"
  "on_signaling_error_parses_message_and_generation ch"
  "on_signaling_error_leaves_generation_none_when_absent ch"
  by (simp_all add: on_error_parses_typed_fields_def on_error_defaults_missing_recoverable_to_true_def
      on_signaling_error_parses_message_and_generation_def recoverable_flag_def
      on_signaling_error_leaves_generation_none_when_absent_def error_event_def signaling_error_event_def typed_defs)

lemma response_event_tests:
  "response_events_expose_generation_id ch"
  "spoken_text_event_exposes_canonical_prefix_fields ch"
  "audio_clear_and_interruption_expose_generation_id ch"
  "interruption_events_expose_reason ch"
  by (simp_all add: response_events_expose_generation_id_def spoken_text_event_exposes_canonical_prefix_fields_def
      audio_clear_and_interruption_expose_generation_id_def interruption_events_expose_reason_def
      response_event_def response_spoken_text_event_def interruption_event_def typed_defs)

lemma speech_event_tests:
  "on_speech_started_fires_with_timestamp ch"
  "on_speech_stopped_fires_with_timestamp ch"
  "on_transcript_delta_fires_with_fields ch"
  "on_turn_eou_predicted_fires_with_fields ch"
  by (simp_all add: on_speech_started_fires_with_timestamp_def on_speech_stopped_fires_with_timestamp_def
      on_transcript_delta_fires_with_fields_def on_turn_eou_predicted_fires_with_fields_def speech_started_event_def
      speech_stopped_event_def transcript_delta_event_def turn_eou_predicted_event_def typed_defs)

section \<open>Transcripts\<close>

text \<open>
  The shared fixture \<open>src/fixtures/speech-context-v2.json\<close> and the context of the malformed payload,
  as JSON values and as the records that \<open>serde_json::from_value\<close> reads from them.
\<close>

definition json_span :: "string \<Rightarrow> nat \<Rightarrow> nat \<Rightarrow> (string \<times> Value) list" where
  "json_span name from_ms to_ms = [(''label'', String name), (''start_ms'', num from_ms), (''end_ms'', num to_ms)]"

definition span_of :: "string \<Rightarrow> nat \<Rightarrow> nat \<Rightarrow> SpeechContextSpan" where
  "span_of name from_ms to_ms = \<lparr>label = name, span_start_ms = of_nat from_ms, span_end_ms = of_nat to_ms\<rparr>"

definition speech_context_v2 :: Value where
  "speech_context_v2 = json
     [(''schema_version'', num 2), (''status'', String ''complete''),
      (''emotions'', Array [json (json_span ''surprised'' 0 2500)]),
      (''vocal'', Array [json (json_span ''laughter'' 7000 10500)]),
      (''sounds'', Array
        [json (json_span ''fireworks'' 3360 4320 @ [(''score'', double lit_0_42)]),
         json (json_span ''inside, small room'' 3840 5280 @ [(''score'', double lit_0_31)])])]"

definition speech_context_v2_read :: SpeechContext where
  "speech_context_v2_read =
     \<lparr>schema_version = 2, status = Complete, emotions = Some [span_of ''surprised'' 0 2500],
      vocal = Some [span_of ''laughter'' 7000 10500],
      sounds = Some [\<lparr>span = span_of ''fireworks'' 3360 4320, score = F64 lit_0_42\<rparr>,
                     \<lparr>span = span_of ''inside, small room'' 3840 5280, score = F64 lit_0_31\<rparr>],
      unavailable = None\<rparr>"

definition malformed_context :: Value where
  "malformed_context = json
     [(''schema_version'', num 2), (''status'', String ''complete''), (''emotions'', Array []),
      (''vocal'', Array []),
      (''sounds'', Array [json (json_span ''fireworks'' 0 960 @ [(''score'', double lit_1_1)])])]"

definition malformed_context_read :: SpeechContext where
  "malformed_context_read =
     \<lparr>schema_version = 2, status = Complete, emotions = Some [], vocal = Some [],
      sounds = Some [\<lparr>span = span_of ''fireworks'' 0 960, score = F64 lit_1_1\<rparr>], unavailable = None\<rparr>"

definition on_transcript_exposes_entities_and_words ::
  "(Value \<Rightarrow> SpeechContext option) \<Rightarrow> 'c RawSocketChannel \<Rightarrow> bool" where
  "on_transcript_exposes_entities_and_words from_value ch \<longleftrightarrow>
     asserts (\<lambda>event.
         entities event =
           [\<lparr>ent_type = ''PRODUCT'', ent_text = ''Ada'', start_char = 5, end_char = 8\<rparr>] \<and>
         length (words event) = 2 \<and>
         word_text (words event ! 0) = ''call'' \<and> word_start_ms (words event ! 0) = F64 0 \<and>
         confidence (words event ! 0) = None \<and> confidence (words event ! 1) = Some (F64 lit_0_91) \<and>
         (case speech_context event of None \<Rightarrow> False | Some context \<Rightarrow>
            schema_version context = 2 \<and> status context = Complete \<and>
            emotions context =
              Some [\<lparr>label = ''surprised'', span_start_ms = 0, span_end_ms = 2500\<rparr>] \<and>
            (case sounds context of None \<Rightarrow> False | Some ss \<Rightarrow>
               length ss = 2 \<and> label (span (ss ! 0)) = ''fireworks'' \<and> score (ss ! 0) = F64 lit_0_42)))
       (on_transcript from_value (test_session ch)
         [Received (EVENT_TRANSCRIPT_COMPLETED, object_of
           [(''transcript'', String ''call Ada''),
            (''entities'', Array [json
               [(''type'', String ''PRODUCT''), (''text'', String ''Ada''),
                (''start_char'', num 5), (''end_char'', num 8)]]),
            (''words'', Array
               [json [(''word'', String ''call''), (''start_ms'', num 0), (''end_ms'', num 300)],
                json [(''word'', String ''Ada''), (''start_ms'', num 300), (''end_ms'', num 600),
                      (''confidence'', double lit_0_91)]]),
            (''speech_context'', speech_context_v2)])])"

definition on_transcript_defaults_entities_and_words_to_empty ::
  "(Value \<Rightarrow> SpeechContext option) \<Rightarrow> 'c RawSocketChannel \<Rightarrow> bool" where
  "on_transcript_defaults_entities_and_words_to_empty from_value ch \<longleftrightarrow>
     asserts (\<lambda>event. entities event = [] \<and> words event = [] \<and> speech_context event = None)
       (on_transcript from_value (test_session ch)
         [Received (EVENT_TRANSCRIPT_COMPLETED, object_of [(''transcript'', String ''hello'')])])"

definition on_transcript_preserves_text_but_rejects_malformed_speech_context ::
  "(Value \<Rightarrow> SpeechContext option) \<Rightarrow> 'c RawSocketChannel \<Rightarrow> bool" where
  "on_transcript_preserves_text_but_rejects_malformed_speech_context from_value ch \<longleftrightarrow>
     asserts (\<lambda>event. transcript event = ''still delivered'' \<and> speech_context event = None)
       (on_transcript from_value (test_session ch)
         [Received (EVENT_TRANSCRIPT_COMPLETED, object_of
           [(''transcript'', String ''still delivered''), (''speech_context'', malformed_context)])])"

lemmas transcript_defs =
  transcript_event_def transcript_entities_def transcript_words_def transcript_entity_def transcript_word_def
  optional_string_vec_def typed_defs

lemma context_validity:
  "is_valid speech_context_v2_read" "\<not> is_valid malformed_context_read"
  by (simp_all add: is_valid_def span_ok_def sound_ok_def flatten_opt_def unique_tracks_def status_ok_def
      span_of_def lit_0_42_def lit_0_31_def lit_1_1_def speech_context_v2_read_def malformed_context_read_def)

lemma speech_context_v2_fields:
  "schema_version speech_context_v2_read = 2" "status speech_context_v2_read = Complete"
  "emotions speech_context_v2_read = Some [\<lparr>label = ''surprised'', span_start_ms = 0, span_end_ms = 2500\<rparr>]"
  "\<exists>s. sounds speech_context_v2_read =
     Some [\<lparr>span = \<lparr>label = ''fireworks'', span_start_ms = 3360, span_end_ms = 4320\<rparr>, score = F64 lit_0_42\<rparr>, s]"
  by (simp_all add: speech_context_v2_read_def span_of_def)

lemma transcript_context_tests:
  "from_value speech_context_v2 = Some speech_context_v2_read \<Longrightarrow>
     on_transcript_exposes_entities_and_words from_value ch"
  "on_transcript_defaults_entities_and_words_to_empty from_value ch"
  "from_value malformed_context = Some malformed_context_read \<Longrightarrow>
     on_transcript_preserves_text_but_rejects_malformed_speech_context from_value ch"
  using context_validity speech_context_v2_fields
  by (auto simp add: on_transcript_exposes_entities_and_words_def
      on_transcript_defaults_entities_and_words_to_empty_def
      on_transcript_preserves_text_but_rejects_malformed_speech_context_def transcript_defs json_def)

section \<open>Acknowledged starts\<close>

text \<open>What arrives while the call waits is the list; when it is used up the timeout expires.\<close>

definition start_response_and_wait_resolves_on_matching_created ::
  "'c pond_channel \<Rightarrow> string \<Rightarrow> 'c RawSocketChannel \<Rightarrow> bool" where
  "start_response_and_wait_resolves_on_matching_created P uuid ch \<longleftrightarrow>
     (let options = default_response_options\<lparr>opt_generation_id := Some ''gen-ack''\<rparr>;
          sent =
            [Received (EVENT_RESPONSE_CREATED, object_of
               [(''response_id'', String ''resp-other''), (''generation_id'', String ''gen-other'')]),
             Received (EVENT_RESPONSE_CREATED, object_of
               [(''response_id'', String ''resp-9''), (''generation_id'', String ''gen-ack''),
                (''output'', json
                   [(''model'', String ''qwen3-tts:0.6b-clone''), (''voice'', String ''samantha''),
                    (''language'', String ''fr''), (''speed'', double lit_0_9),
                    (''params'', json [(''temperature'', double lit_0_7)])])])]
      in case fst (start_response_and_wait P uuid (Some options) sent (test_session ch)) of
           Inl _ \<Rightarrow> False
         | Inr ack \<Rightarrow>
             accepted ack \<and> ack_generation_id ack = ''gen-ack'' \<and> ack_response_id ack = Some ''resp-9'' \<and>
             ack_output ack = Some \<lparr>model = ''qwen3-tts:0.6b-clone'', out_voice = Some ''samantha'',
               out_language = ''fr'', speed = F64 lit_0_9,
               params = object_of [(''temperature'', double lit_0_7)]\<rparr> \<and>
             recoverable ack \<and> error_code ack = None)"

definition start_response_and_wait_surfaces_typed_rejection ::
  "'c pond_channel \<Rightarrow> string \<Rightarrow> 'c RawSocketChannel \<Rightarrow> bool" where
  "start_response_and_wait_surfaces_typed_rejection P uuid ch \<longleftrightarrow>
     (let options = default_response_options\<lparr>opt_generation_id := Some ''gen-rejected''\<rparr>;
          sent =
            [Received (EVENT_ERROR, object_of
               [(''message'', String ''busy''), (''code'', String ERROR_CODE_RESPONSE_ALREADY_ACTIVE),
                (''recoverable'', Bool True), (''generation_id'', String ''gen-rejected'')])]
      in case fst (start_response_and_wait P uuid (Some options) sent (test_session ch)) of
           Inl _ \<Rightarrow> False
         | Inr ack \<Rightarrow>
             \<not> accepted ack \<and> ack_generation_id ack = ''gen-rejected'' \<and>
             error_code ack = Some ERROR_CODE_RESPONSE_ALREADY_ACTIVE \<and>
             error_message ack = Some ''busy'' \<and> recoverable ack)"

definition start_response_and_wait_times_out_without_ack ::
  "'c pond_channel \<Rightarrow> string \<Rightarrow> 'c RawSocketChannel \<Rightarrow> bool" where
  "start_response_and_wait_times_out_without_ack P uuid ch \<longleftrightarrow>
     (case fst (start_response_and_wait P uuid None [] (test_session ch)) of
        Inl (Timeout _) \<Rightarrow> True
      | _ \<Rightarrow> False)"

lemma wait_open:
  "closed_error P (sess_channel self) = None \<Longrightarrow>
   fst (start_response_and_wait P uuid options rs self) = ack_loop (started_generation uuid options self) rs"
  by (simp add: start_response_and_wait_def start_payload_eq send_control_open split_def Let_def)

lemma acknowledged_start_tests:
  assumes "closed_error P ch = None"
  shows "start_response_and_wait_resolves_on_matching_created P uuid ch"
    "start_response_and_wait_surfaces_typed_rejection P uuid ch"
    "start_response_and_wait_times_out_without_ack P uuid ch"
  using assms
  by (simp_all add: start_response_and_wait_resolves_on_matching_created_def
      start_response_and_wait_surfaces_typed_rejection_def start_response_and_wait_times_out_without_ack_def
      wait_open started_generation_def payload_defs response_output_def recoverable_flag_def
      typed_defs event_names Let_def)

section \<open>A lagged broadcast\<close>

text \<open>
  The test's runtime has one thread and sending does not wait, so all 2101 messages are sent before
  the listener's task is polled. Reading the handler's queue until the last timestamp shows up is
  that timestamp being among the values the handler was called with after \<open>k\<close> polls.
\<close>

definition lagged_timestamps :: "nat list" where
  "lagged_timestamps = [0..<2100] @ [9999]"

definition timestamp_message :: "nat \<Rightarrow> string \<times> EventData" where
  "timestamp_message index = (EVENT_SPEECH_STARTED, object_of [(''timestamp_ms'', num index)])"

definition handler_survives_a_lagged_broadcast :: "recv_lib \<Rightarrow> nat \<Rightarrow> 'c RawSocketChannel \<Rightarrow> bool" where
  "handler_survives_a_lagged_broadcast B k ch \<longleftrightarrow>
     (let sent = listen_run B (map (\<lambda>i. Mirrored (case_prod ChannelMessage (timestamp_message i))) lagged_timestamps)
            (listen_start ch);
          polled = listen_run B (replicate k Poll) sent
      in List.member
           (map started_timestamp_ms (on_speech_started (test_session ch) (lis_got polled))) (Some (F64 9999)))"

lemma mirrored_run:
  "listen_run B (map (\<lambda>i. Mirrored (case_prod ChannelMessage (f i))) is) s =
     s\<lparr>lis_channel := (lis_channel s)\<lparr>message_tx := message_tx (lis_channel s) @ map f is\<rparr>\<rparr>"
  by (induction "is" arbitrary: s) (simp_all split: prod.split)

lemma lagged_broadcast_test:
  assumes "documented_recv B"
  shows "\<exists>k \<le> 2101. handler_survives_a_lagged_broadcast B k ch"
proof -
  let ?sent = "listen_run B (map (\<lambda>i. Mirrored (case_prod ChannelMessage (timestamp_message i))) lagged_timestamps)
    (listen_start ch)"
  have inv: "listen_inv (raw_subscribe_messages ch) ?sent" by (rule listen_run_inv [OF assms listen_start_inv])
  have eq: "published ?sent = message_tx ch @ map timestamp_message lagged_timestamps"
      "lis_next ?sent = length (message_tx ch)"
    by (simp_all add: mirrored_run listen_start_def raw_subscribe_messages_def)
  have len: "length lagged_timestamps = 2101" by (simp add: lagged_timestamps_def)
  obtain k where k: "k \<le> length (published ?sent) - lis_next ?sent"
    and up: "caught_up ?sent (listen_run B (replicate k Poll) ?sent)"
    using listen_catches_up [OF assms inv] by blast
  let ?got = "lis_got (listen_run B (replicate k Poll) ?sent)"
  let ?from = "max (lis_next ?sent) (length (published ?sent) - MESSAGE_CAPACITY)"
  have "last (drop ?from (published ?sent)) \<in> set (drop ?from (published ?sent))"
    by (rule last_in_set) (simp add: eq len MESSAGE_CAPACITY_def)
  moreover have "last (drop ?from (published ?sent)) = timestamp_message 9999"
    by (simp add: eq len MESSAGE_CAPACITY_def last_drop) (simp add: lagged_timestamps_def)
  ultimately have "timestamp_message 9999 \<in> set (seen_messages ?got)"
    using up by (auto simp: caught_up_def Let_def)
  then have "started_timestamp_ms (speech_started_event sid cn (snd (timestamp_message 9999))) \<in>
      set (map started_timestamp_ms (on_speech_started (test_session ch) ?got))"
    if "sid = sess_id (test_session ch)" "cn = sess_channel_name (test_session ch)" for sid cn
    using that by (force simp: on_speech_started_def on_typed_def on_loop_seen timestamp_message_def)
  then have "handler_survives_a_lagged_broadcast B k ch"
    by (simp add: handler_survives_a_lagged_broadcast_def speech_started_event_def timestamp_message_def
        optional_number_def object_of_def Let_def)
  with k show ?thesis by (auto simp: eq len)
qed

end
