(* ===== verification/Vox_Lifecycle.thy ===== *)
theory Vox_Lifecycle
  imports Vox_Gateway
begin

text \<open>
  The gateway as a whole, \<open>src/rust/rtcserver/src/gateway.rs\<close>: its construction, the route it
  serves, and the interleaving of its connections with \<open>close\<close>. Where \<open>Vox_Gateway\<close> follows one
  connection through \<open>serve\<close>, this theory keeps of each connection only where it is in
  \<open>upgrade\<close> and \<open>serve\<close>, and follows all of them together with the callers of \<open>close\<close>, one
  atomic operation at a time: the flag \<open>shutting_down\<close>, the counter \<open>active\<close> with its guard, the
  watch \<open>shutdown\<close> and the notification \<open>drained\<close>.

  The watch and the notification are of another crate. \<open>watch_send\<close> gives the value a watch
  holds after \<open>Sender::send\<close> with the given number of receivers, and \<open>wake\<close> whether a
  registered \<open>Notified\<close> future is complete after \<open>notify_waiters\<close>; what is documented of them
  is the predicate \<open>documented_sync\<close>.
\<close>

section \<open>Construction\<close>

record ('k, 'h, 'hd, 'c) GatewayState =
  gs_client :: "('k, 'h) VoxRtcServerClient"
  gs_options :: "('hd, 'c) GatewayOptions"
  gs_shutting_down :: bool
  gs_shutdown :: "string option"
  gs_active :: nat

definition gateway_with_client ::
  "('hd, 'c) GatewayOptions \<Rightarrow> ('k, 'h) VoxRtcServerClient \<Rightarrow> ('k, 'h, 'hd, 'c) GatewayState" where
  "gateway_with_client options cl =
     \<lparr>gs_client = cl, gs_options = options, gs_shutting_down = False, gs_shutdown = None, gs_active = 0\<rparr>"

definition gateway_new ::
  "('k, 'c) pond_client \<Rightarrow> 'h http_client \<Rightarrow> string option \<Rightarrow> ('hd, 'c) GatewayOptions
     \<Rightarrow> ('k, 'h, 'hd, 'c) GatewayState Result" where
  "gateway_new K H env options =
     (let client_options = (client_options_new (vox_http_base options))\<lparr>co_api_key := go_api_key options\<rparr>
      in case with_options K H env client_options of
           Inl e \<Rightarrow> Err e
         | Inr cl \<Rightarrow> Ok (gateway_with_client options cl))"

definition route :: "('k, 'h, 'hd, 'c) GatewayState \<Rightarrow> string" where
  "route g = normalize_path (go_path (gs_options g))"

section \<open>Connections and closers\<close>

text \<open>
  Where a request is: refused by \<open>upgrade\<close>, accepted and not yet in \<open>serve\<close>, counted and
  creating its session, on the way out without a session, subscribed to the watch and about to
  look at it, in its setup or its loop, on the way out, gone.
\<close>

datatype conn_pc = Refused | Accepted | Creating | Failing | Subscribed | Looping | Ending | Ended

text \<open>
  Where a caller of \<open>close\<close> is: before the swap, before the send, at the head of its loop, with
  its \<open>Notified\<close> future registered (and complete or not), waiting for it, about to disconnect the
  client, back from \<open>close\<close>.
\<close>

datatype closer_pc =
    Close_called string
  | Close_sending string
  | Close_looping
  | Close_enabled bool
  | Close_waiting bool
  | Close_disconnecting
  | Close_done

record sync_lib =
  watch_send :: "nat \<Rightarrow> string option \<Rightarrow> string option \<Rightarrow> string option"
  wake :: "bool \<Rightarrow> bool"

record gateway_life =
  shutting_down :: bool
  shutdown :: "string option"
  active_count :: nat
  conns :: "conn_pc list"
  closers :: "closer_pc list"

definition life_new :: gateway_life where
  "life_new = \<lparr>shutting_down = False, shutdown = None, active_count = 0, conns = [], closers = []\<rparr>"

text \<open>Connections the counter counts, and those that hold a receiver of the watch.\<close>

definition counted :: "conn_pc \<Rightarrow> bool" where
  "counted p \<longleftrightarrow> p \<in> {Creating, Failing, Subscribed, Looping, Ending}"

definition listening :: "conn_pc \<Rightarrow> bool" where
  "listening p \<longleftrightarrow> p \<in> {Subscribed, Looping, Ending}"

definition receivers :: "gateway_life \<Rightarrow> nat" where
  "receivers s = length (filter listening (conns s))"

definition move_conn :: "nat \<Rightarrow> conn_pc \<Rightarrow> gateway_life \<Rightarrow> gateway_life" where
  "move_conn i p s = s\<lparr>conns := (conns s)[i := p]\<rparr>"

definition move_closer :: "nat \<Rightarrow> closer_pc \<Rightarrow> gateway_life \<Rightarrow> gateway_life" where
  "move_closer j p s = s\<lparr>closers := (closers s)[j := p]\<rparr>"

definition conn_at :: "gateway_life \<Rightarrow> nat \<Rightarrow> conn_pc \<Rightarrow> bool" where
  "conn_at s i p \<longleftrightarrow> i < length (conns s) \<and> conns s ! i = p"

text \<open>\<open>notify_waiters\<close>\<close>

fun wake_closer :: "sync_lib \<Rightarrow> closer_pc \<Rightarrow> closer_pc" where
  "wake_closer L (Close_enabled f) = Close_enabled (wake L f)"
| "wake_closer L (Close_waiting f) = Close_waiting (wake L f)"
| "wake_closer L p = p"

text \<open>\<open>impl Drop for ActiveGuard\<close>\<close>

definition guard_drop :: "sync_lib \<Rightarrow> gateway_life \<Rightarrow> gateway_life" where
  "guard_drop L s =
     (let s' = s\<lparr>active_count := active_count s - 1\<rparr>
      in if active_count s = 1 then s'\<lparr>closers := map (wake_closer L) (closers s')\<rparr> else s')"

text \<open>
  The answer of \<open>upgrade\<close>: a status with a text, or \<open>on_upgrade\<close>, after which the framework runs
  \<open>serve\<close> on the accepted socket.
\<close>

datatype Response = Status_text nat string | On_upgrade

definition SERVICE_UNAVAILABLE :: nat where
  "SERVICE_UNAVAILABLE = 503"

definition upgrade :: "gateway_life \<Rightarrow> Response" where
  "upgrade s =
     (if shutting_down s then Status_text SERVICE_UNAVAILABLE ''RTC gateway is shutting down''
      else On_upgrade)"

fun answered :: "Response \<Rightarrow> conn_pc" where
  "answered (Status_text code body) = Refused"
| "answered On_upgrade = Accepted"

text \<open>One operation of the caller \<open>j\<close> of \<open>close\<close>.\<close>

fun close_step :: "sync_lib \<Rightarrow> nat \<Rightarrow> closer_pc \<Rightarrow> gateway_life \<Rightarrow> gateway_life option" where
  "close_step L j (Close_called r) s =
     Some (if shutting_down s then move_closer j Close_looping s
           else move_closer j (Close_sending r) (s\<lparr>shutting_down := True\<rparr>))"
| "close_step L j (Close_sending r) s =
     Some (move_closer j Close_looping (s\<lparr>shutdown := watch_send L (receivers s) (shutdown s) (Some r)\<rparr>))"
| "close_step L j Close_looping s = Some (move_closer j (Close_enabled False) s)"
| "close_step L j (Close_enabled f) s =
     Some (move_closer j (if active_count s = 0 then Close_disconnecting else Close_waiting f) s)"
| "close_step L j (Close_waiting f) s = (if f then Some (move_closer j Close_looping s) else None)"
| "close_step L j Close_disconnecting s = Some (move_closer j Close_done s)"
| "close_step L j Close_done s = None"

datatype life_event =
    Request
  | Serve nat
  | Session_result nat bool
  | Borrow nat
  | Shutdown_seen nat
  | Loop_left nat
  | Guard_dropped nat
  | Close_call string
  | Closer_step nat

text \<open>\<open>None\<close>: the event cannot happen in this state.\<close>

fun life_next :: "sync_lib \<Rightarrow> gateway_life \<Rightarrow> life_event \<Rightarrow> gateway_life option" where
  "life_next L s Request = Some (s\<lparr>conns := conns s @ [answered (upgrade s)]\<rparr>)"
| "life_next L s (Serve i) =
     (if conn_at s i Accepted then Some (move_conn i Creating (s\<lparr>active_count := active_count s + 1\<rparr>)) else None)"
| "life_next L s (Session_result i ok) =
     (if conn_at s i Creating then Some (move_conn i (if ok then Subscribed else Failing) s) else None)"
| "life_next L s (Borrow i) =
     (if conn_at s i Subscribed then Some (move_conn i (if shutdown s = None then Looping else Ending) s) else None)"
| "life_next L s (Shutdown_seen i) =
     (if conn_at s i Looping \<and> shutdown s \<noteq> None then Some (move_conn i Ending s) else None)"
| "life_next L s (Loop_left i) = (if conn_at s i Looping then Some (move_conn i Ending s) else None)"
| "life_next L s (Guard_dropped i) =
     (if conn_at s i Failing \<or> conn_at s i Ending then Some (guard_drop L (move_conn i Ended s)) else None)"
| "life_next L s (Close_call r) = Some (s\<lparr>closers := closers s @ [Close_called r]\<rparr>)"
| "life_next L s (Closer_step j) =
     (if j < length (closers s) then close_step L j (closers s ! j) s else None)"

inductive life_reach :: "sync_lib \<Rightarrow> gateway_life \<Rightarrow> bool" for L where
  life_start: "life_reach L life_new"
| life_step: "life_reach L s \<Longrightarrow> life_next L s e = Some s' \<Longrightarrow> life_reach L s'"

text \<open>The states a state leads to.\<close>

inductive life_leads :: "sync_lib \<Rightarrow> gateway_life \<Rightarrow> gateway_life \<Rightarrow> bool" for L where
  leads_refl: "life_leads L s s"
| leads_step: "life_leads L s s' \<Longrightarrow> life_next L s' e = Some s'' \<Longrightarrow> life_leads L s s''"

fun life_run :: "sync_lib \<Rightarrow> life_event list \<Rightarrow> gateway_life \<Rightarrow> gateway_life option" where
  "life_run L [] s = Some s"
| "life_run L (e # es) s = Option.bind (life_next L s e) (life_run L es)"

text \<open>
  What tokio documents: \<open>Sender::send\<close> stores the value exactly when there is a receiver, and
  \<open>notify_waiters\<close> completes every enabled future.
\<close>

definition documented_sync :: "sync_lib \<Rightarrow> bool" where
  "documented_sync L \<longleftrightarrow>
     (\<forall>old new. watch_send L 0 old new = old) \<and>
     (\<forall>n old new. watch_send L (Suc n) old new = new) \<and>
     (\<forall>f. wake L f)"

section \<open>Invariant\<close>

fun unwoken :: "closer_pc \<Rightarrow> bool" where
  "unwoken (Close_waiting f) = (\<not> f)"
| "unwoken _ = False"

text \<open>
  The counter is the number of counted connections, no caller of \<open>close\<close> waits for a
  notification that has already been given, and only a shutdown sets the watch.
\<close>

definition life_inv :: "gateway_life \<Rightarrow> bool" where
  "life_inv s \<longleftrightarrow>
     active_count s = length (filter counted (conns s)) \<and>
     (\<forall>p \<in> set (closers s). unwoken p \<longrightarrow> 0 < active_count s) \<and>
     (shutdown s \<noteq> None \<longrightarrow> shutting_down s) \<and>
     (\<forall>p \<in> set (closers s). (\<exists>r. p = Close_called r) \<or> shutting_down s)"

lemma filter_update_count:
  "i < length xs \<Longrightarrow>
   length (filter P (xs[i := y])) + (if P (xs ! i) then 1 else 0) = length (filter P xs) + (if P y then 1 else 0)"
proof (induction xs arbitrary: i)
  case (Cons x xs)
  then show ?case by (cases i) auto
qed simp

lemma moved_count:
  assumes "conn_at s i p"
  shows "length (filter counted ((conns s)[i := q])) + (if counted p then 1 else 0) =
    length (filter counted (conns s)) + (if counted q then 1 else 0)"
  using assms filter_update_count [of i "conns s" counted q] by (auto simp: conn_at_def)

lemma life_new_inv: "life_inv life_new"
  by (simp add: life_inv_def life_new_def)

lemma move_conn_inv:
  assumes "life_inv s" and "conn_at s i p" and "counted p = counted q"
  shows "life_inv (move_conn i q s)"
  using assms moved_count [OF assms(2), of q] by (auto simp: life_inv_def move_conn_def split: if_splits)

lemma serve_inv:
  assumes "life_inv s" and "conn_at s i Accepted"
  shows "life_inv (move_conn i Creating (s\<lparr>active_count := active_count s + 1\<rparr>))"
  using assms moved_count [OF assms(2), of Creating]
  by (auto simp: life_inv_def move_conn_def counted_def)

lemma unwoken_wake: "\<forall>f. wake L f \<Longrightarrow> \<not> unwoken (wake_closer L p)"
  by (cases p) auto

lemma wake_closer_called: "wake_closer L p = Close_called r \<longleftrightarrow> p = Close_called r"
  by (cases p) auto

lemma guard_drop_inv:
  assumes "documented_sync L" and inv: "life_inv s" and at: "conn_at s i p" and "counted p"
  shows "life_inv (guard_drop L (move_conn i Ended s))"
proof -
  have n: "length (filter counted ((conns s)[i := Ended])) + 1 = active_count s"
    using moved_count [OF at, of Ended] assms(4) inv by (simp add: life_inv_def counted_def)
  show ?thesis
  proof (cases "active_count s = 1")
    case True
    have "\<not> unwoken (wake_closer L q)" for q
      using assms(1) unwoken_wake by (simp add: documented_sync_def)
    with True n inv show ?thesis
      by (auto simp: life_inv_def guard_drop_def move_conn_def wake_closer_called Let_def)
  next
    case False
    with n inv show ?thesis
      by (auto simp: life_inv_def guard_drop_def move_conn_def Let_def)
  qed
qed

lemma move_closer_inv:
  assumes "life_inv s" and "j < length (closers s)"
    and "unwoken p \<longrightarrow> 0 < active_count s" and "(\<exists>r. p = Close_called r) \<or> shutting_down s"
  shows "life_inv (move_closer j p s)"
  using assms by (auto simp: life_inv_def move_closer_def dest!: set_update_subset_insert [THEN subsetD])

lemma close_step_inv:
  assumes "documented_sync L" and inv: "life_inv s" and j: "j < length (closers s)"
    and step: "close_step L j (closers s ! j) s = Some s'"
  shows "life_inv s'"
proof -
  have down: "(\<exists>r. closers s ! j = Close_called r) \<or> shutting_down s"
    using inv j by (auto simp: life_inv_def)
  show ?thesis
  proof (cases "closers s ! j")
    case (Close_called r)
    have "life_inv (s\<lparr>shutting_down := True\<rparr>)" using inv by (auto simp: life_inv_def)
    then show ?thesis
      using step Close_called move_closer_inv [OF inv j, of Close_looping]
        move_closer_inv [of "s\<lparr>shutting_down := True\<rparr>" j "Close_sending r"] j
      by (auto split: if_splits)
  next
    case (Close_sending r)
    with inv down have "life_inv (s\<lparr>shutdown := v\<rparr>)" for v by (auto simp: life_inv_def)
    then show ?thesis
      using step Close_sending down move_closer_inv [of "s\<lparr>shutdown := v\<rparr>" j Close_looping for v] j by auto
  next
    case (Close_enabled f)
    with down inv j step show ?thesis by (auto intro!: move_closer_inv split: if_splits)
  qed (use down step j inv in \<open>auto intro!: move_closer_inv split: if_splits\<close>)
qed

lemma life_next_inv:
  assumes L: "documented_sync L" and inv: "life_inv s" and step: "life_next L s e = Some s'"
  shows "life_inv s'"
proof (cases e)
  case Request
  with inv step show ?thesis by (auto simp: life_inv_def upgrade_def counted_def)
next
  case (Serve i)
  with inv step serve_inv show ?thesis by (auto split: if_splits)
next
  case (Session_result i ok)
  with inv step show ?thesis
    by (auto split: if_splits intro: move_conn_inv simp: counted_def)
next
  case (Borrow i)
  with inv step show ?thesis
    by (auto split: if_splits intro: move_conn_inv simp: counted_def)
next
  case (Shutdown_seen i)
  with inv step show ?thesis
    by (auto split: if_splits intro: move_conn_inv simp: counted_def)
next
  case (Loop_left i)
  with inv step show ?thesis
    by (auto split: if_splits intro: move_conn_inv simp: counted_def)
next
  case (Guard_dropped i)
  with step have "conn_at s i Failing \<or> conn_at s i Ending" and "s' = guard_drop L (move_conn i Ended s)"
    by (auto split: if_splits)
  then show ?thesis using guard_drop_inv [OF L inv] by (auto simp: counted_def)
next
  case (Close_call r)
  with inv step show ?thesis by (auto simp: life_inv_def)
next
  case (Closer_step j)
  with step close_step_inv [OF L inv] show ?thesis by (auto split: if_splits)
qed

lemma reach_life_inv: "life_reach L s \<Longrightarrow> documented_sync L \<Longrightarrow> life_inv s"
  by (induction rule: life_reach.induct) (auto intro: life_new_inv life_next_inv)

subsection \<open>The one sender\<close>

fun is_sending :: "closer_pc \<Rightarrow> bool" where
  "is_sending (Close_sending _) = True"
| "is_sending _ = False"

definition senders :: "closer_pc list \<Rightarrow> nat" where
  "senders ps = length (filter is_sending ps)"

lemma is_sending_wake [simp]: "is_sending (wake_closer L p) = is_sending p"
  by (cases p) auto

lemma senders_simps [simp]:
  "senders [] = 0" "senders (ps @ [Close_called r]) = senders ps"
  "senders (map (wake_closer L) ps) = senders ps"
  by (simp_all add: senders_def comp_def)

lemma senders_pos: "j < length ps \<Longrightarrow> is_sending (ps ! j) \<Longrightarrow> 0 < senders ps"
  by (auto simp: senders_def filter_empty_conv)

lemma senders_update:
  assumes "j < length ps"
  shows "senders (ps[j := q]) =
    (if is_sending (ps ! j) then senders ps - 1 else senders ps) + (if is_sending q then 1 else 0)"
  using filter_update_count [OF assms, of is_sending q] senders_pos [OF assms]
  by (auto simp: senders_def split: if_splits)

text \<open>
  Only the caller that set \<open>shutting_down\<close> sends on the watch: before the flag there is no
  sender, afterwards at most one, and while it has not sent the watch is empty.
\<close>

definition sender_inv :: "gateway_life \<Rightarrow> bool" where
  "sender_inv s \<longleftrightarrow>
     senders (closers s) \<le> (if shutting_down s then 1 else 0) \<and>
     (0 < senders (closers s) \<or> \<not> shutting_down s \<longrightarrow> shutdown s = None)"

lemma guard_drop_fields [simp]:
  "shutting_down (guard_drop L s) = shutting_down s"
  "shutdown (guard_drop L s) = shutdown s"
  "conns (guard_drop L s) = conns s"
  "length (closers (guard_drop L s)) = length (closers s)"
  "senders (closers (guard_drop L s)) = senders (closers s)"
  by (simp_all add: guard_drop_def Let_def)

lemma move_fields [simp]:
  "shutting_down (move_conn i p s) = shutting_down s" "shutdown (move_conn i p s) = shutdown s"
  "closers (move_conn i p s) = closers s" "conns (move_conn i p s) = (conns s)[i := p]"
  "shutting_down (move_closer j q s) = shutting_down s" "shutdown (move_closer j q s) = shutdown s"
  "conns (move_closer j q s) = conns s" "active_count (move_closer j q s) = active_count s"
  "closers (move_closer j q s) = (closers s)[j := q]"
  by (simp_all add: move_conn_def move_closer_def)

lemma close_step_sender:
  assumes "sender_inv s" and j: "j < length (closers s)"
    and step: "close_step L j (closers s ! j) s = Some s'"
  shows "sender_inv s'"
  using assms(1) step senders_pos [OF j]
  by (cases "closers s ! j") (auto simp: sender_inv_def senders_update [OF j] split: if_splits)

lemma life_next_sender:
  assumes "sender_inv s" and "life_next L s e = Some s'"
  shows "sender_inv s'"
proof (cases e)
  case (Closer_step j)
  with assms close_step_sender show ?thesis by (auto split: if_splits)
qed (use assms in \<open>auto simp: sender_inv_def split: if_splits\<close>)

lemma reach_sender_inv: "life_reach L s \<Longrightarrow> sender_inv s"
proof (induction rule: life_reach.induct)
  case life_start
  then show ?case by (simp add: sender_inv_def life_new_def)
next
  case (life_step s e s')
  then show ?case by (blast intro: life_next_sender)
qed

text \<open>Once the one sender is through, the watch does not change any more.\<close>

definition watch_settled :: "string option \<Rightarrow> gateway_life \<Rightarrow> bool" where
  "watch_settled v s \<longleftrightarrow> shutting_down s \<and> senders (closers s) = 0 \<and> shutdown s = v"

lemma watch_settled_next:
  assumes "watch_settled v s" and "life_next L s e = Some s'"
  shows "watch_settled v s'"
proof (cases e)
  case (Closer_step j)
  with assms have j: "j < length (closers s)" and st: "close_step L j (closers s ! j) s = Some s'"
    by (auto split: if_splits)
  have no: "\<not> is_sending (closers s ! j)"
    using assms(1) senders_pos [OF j] by (auto simp: watch_settled_def)
  show ?thesis
    using assms(1) st no
    by (cases "closers s ! j") (auto simp: watch_settled_def senders_update [OF j] split: if_splits)
qed (use assms in \<open>auto simp: watch_settled_def split: if_splits\<close>)

lemma watch_settled_leads: "life_leads L s s' \<Longrightarrow> watch_settled v s \<Longrightarrow> watch_settled v s'"
  by (induction rule: life_leads.induct) (auto intro: watch_settled_next)

lemma sent_settles:
  assumes "life_reach L s" and j: "j < length (closers s)" and at: "closers s ! j = Close_sending r"
    and "life_next L s (Closer_step j) = Some s'"
  shows "watch_settled (watch_send L (receivers s) None (Some r)) s'"
proof -
  have "0 < senders (closers s)" using senders_pos [OF j] at by simp
  with reach_sender_inv [OF assms(1)] have "senders (closers s) = 1" "shutting_down s" "shutdown s = None"
    by (auto simp: sender_inv_def split: if_splits)
  with assms show ?thesis
    by (auto simp: watch_settled_def senders_update [OF j])
qed

subsection \<open>Refused requests\<close>

text \<open>During a shutdown a new request is refused, and a refused request stays refused.\<close>

definition refused_from :: "nat \<Rightarrow> gateway_life \<Rightarrow> bool" where
  "refused_from n s \<longleftrightarrow> shutting_down s \<and> n \<le> length (conns s) \<and>
     (\<forall>i. n \<le> i \<and> i < length (conns s) \<longrightarrow> conns s ! i = Refused)"

lemma move_conn_refused:
  assumes "refused_from n s" and "conn_at s i p" and "p \<noteq> Refused"
  shows "refused_from n (move_conn i q s)"
  using assms by (auto simp: refused_from_def conn_at_def nth_list_update)

lemma refused_from_active [simp]: "refused_from n (s\<lparr>active_count := k\<rparr>) = refused_from n s"
  by (simp add: refused_from_def)

lemma refused_from_guard [simp]: "refused_from n (guard_drop L s) = refused_from n s"
  by (simp add: refused_from_def)

lemma conn_at_active [simp]: "conn_at (s\<lparr>active_count := k\<rparr>) i p = conn_at s i p"
  by (simp add: conn_at_def)

lemma close_step_conns:
  "close_step L j p s = Some s' \<Longrightarrow> conns s' = conns s \<and> (shutting_down s \<longrightarrow> shutting_down s')"
  by (cases p) (auto split: if_splits)

lemma refused_from_next:
  assumes "refused_from n s" and "life_next L s e = Some s'"
  shows "refused_from n s'"
proof (cases e)
  case Request
  with assms show ?thesis by (auto simp: refused_from_def upgrade_def nth_append)
next
  case (Closer_step j)
  with assms have "close_step L j (closers s ! j) s = Some s'" by (auto split: if_splits)
  from close_step_conns [OF this] assms(1) show ?thesis by (auto simp: refused_from_def)
next
  case (Close_call r)
  with assms show ?thesis by (auto simp: refused_from_def)
qed (use assms in \<open>auto split: if_splits intro!: move_conn_refused\<close>)

lemma refused_from_leads: "life_leads L s s' \<Longrightarrow> refused_from n s \<Longrightarrow> refused_from n s'"
  by (induction rule: life_leads.induct) (auto intro: refused_from_next)

lemma run_reach: "life_reach L s \<Longrightarrow> life_run L es s = Some s' \<Longrightarrow> life_reach L s'"
  by (induction es arbitrary: s) (auto simp: bind_eq_Some_conv intro: life_step)

lemma run_leads: "life_leads L s s1 \<Longrightarrow> life_run L es s1 = Some s' \<Longrightarrow> life_leads L s s'"
  by (induction es arbitrary: s1) (auto simp: bind_eq_Some_conv intro: leads_step)

section \<open>Properties\<close>

text \<open>
  C21. The counter of active connections is exact: at every moment it is the number of connections
  between the start of \<open>serve\<close> and the drop of their guard, so a guard that is dropped never
  takes it below zero.
\<close>

theorem active_count_exact:
  assumes "documented_sync L" and "life_reach L s"
  shows "active_count s = length (filter counted (conns s)) \<and>
    (life_next L s (Guard_dropped i) \<noteq> None \<longrightarrow> 0 < active_count s)"
proof -
  have n: "active_count s = length (filter counted (conns s))"
    using reach_life_inv [OF assms(2,1)] by (simp add: life_inv_def)
  have "0 < active_count s" if "conn_at s i p" "counted p" for p
    using that unfolding n by (auto simp: conn_at_def filter_empty_conv)
  with n show ?thesis by (auto simp: counted_def split: if_splits)
qed

text \<open>
  C4. No wake-up is lost: when no connection is active, every caller of \<open>close\<close> returns by its own
  steps, at most five of them, whatever it was doing, also when the last connection went while
  the caller was between its check and its wait.
\<close>

theorem close_returns_when_drained:
  assumes "documented_sync L" and "life_reach L s" and "active_count s = 0" and "j < length (closers s)"
  shows "\<exists>n s'. n \<le> 5 \<and> life_run L (replicate n (Closer_step j)) s = Some s' \<and> closers s' ! j = Close_done"
proof -
  have "\<not> unwoken (closers s ! j)"
    using reach_life_inv [OF assms(2,1)] assms(3) nth_mem [OF assms(4)] by (simp add: life_inv_def)
  then have awake: "closers s ! j \<noteq> Close_waiting False" by auto
  show ?thesis
  proof (cases "closers s ! j")
    case (Close_called r)
    show ?thesis
    proof (cases "shutting_down s")
      case True
      with Close_called assms(3,4) show ?thesis by (intro exI [of _ 4]) (simp add: eval_nat_numeral)
    next
      case False
      with Close_called assms(3,4) show ?thesis
        by (intro exI [of _ 5]) (simp add: eval_nat_numeral)
    qed
  next
    case (Close_sending r)
    with assms(3,4) show ?thesis by (intro exI [of _ 4]) (simp add: eval_nat_numeral)
  next
    case Close_looping
    with assms(3,4) show ?thesis by (intro exI [of _ 3]) (simp add: eval_nat_numeral)
  next
    case (Close_enabled f)
    with assms(3,4) show ?thesis by (intro exI [of _ 2]) (simp add: eval_nat_numeral)
  next
    case (Close_waiting f)
    with awake assms(3,4) show ?thesis by (intro exI [of _ 4]) (simp add: eval_nat_numeral)
  next
    case Close_disconnecting
    with assms(3,4) show ?thesis by (intro exI [of _ 1]) simp
  next
    case Close_done
    then show ?thesis by (intro exI [of _ 0]) simp
  qed
qed

text \<open>
  C27. During a shutdown nothing new is let in: from the moment the flag is set, every later request
  is refused, for good, with the status 503 and the text of the gateway.
\<close>

theorem no_upgrade_during_shutdown:
  assumes "shutting_down s" and "life_leads L s s'" and "length (conns s) \<le> i" and "i < length (conns s')"
  shows "conns s' ! i = Refused \<and> upgrade s' = Status_text 503 ''RTC gateway is shutting down''"
proof -
  have "refused_from (length (conns s)) s" using assms(1) by (auto simp: refused_from_def)
  from refused_from_leads [OF assms(2) this] assms(3,4) show ?thesis
    by (simp add: refused_from_def upgrade_def SERVICE_UNAVAILABLE_def)
qed

text \<open>
  C28. A shutdown that finds at least one subscribed connection reaches every connection: the reason
  stays in the watch for ever, a connection in its loop can always leave because of it, and one
  that subscribes later finds it at once.
\<close>

theorem shutdown_reaches_connections:
  assumes "documented_sync L" and "life_reach L s" and "j < length (closers s)"
    and "closers s ! j = Close_sending r" and "0 < receivers s"
    and "life_next L s (Closer_step j) = Some s1" and "life_leads L s1 s2"
  shows "shutdown s2 = Some r \<and>
    (conn_at s2 i Looping \<longrightarrow> life_next L s2 (Shutdown_seen i) = Some (move_conn i Ending s2)) \<and>
    (conn_at s2 i Subscribed \<longrightarrow> life_next L s2 (Borrow i) = Some (move_conn i Ending s2))"
proof -
  have "watch_send L (receivers s) None (Some r) = Some r"
    using assms(1,5) by (cases "receivers s") (auto simp: documented_sync_def)
  with watch_settled_leads [OF assms(7) sent_settles [OF assms(2-4,6)]] have "shutdown s2 = Some r"
    by (simp add: watch_settled_def)
  then show ?thesis by simp
qed

text \<open>
  C29. A shutdown that finds no subscribed connection is lost: the reason is never stored, so a
  connection that was still creating its session then runs on, and no connection ever leaves
  because of the shutdown.
\<close>

theorem shutdown_lost_without_receiver:
  assumes "documented_sync L" and "life_reach L s" and "j < length (closers s)"
    and "closers s ! j = Close_sending r" and "receivers s = 0"
    and "life_next L s (Closer_step j) = Some s1" and "life_leads L s1 s2"
  shows "shutdown s2 = None \<and> life_next L s2 (Shutdown_seen i) = None \<and>
    (conn_at s2 i Subscribed \<longrightarrow> life_next L s2 (Borrow i) = Some (move_conn i Looping s2))"
proof -
  have "watch_send L (receivers s) None (Some r) = None"
    using assms(1,5) by (auto simp: documented_sync_def)
  with watch_settled_leads [OF assms(7) sent_settles [OF assms(2-4,6)]] have "shutdown s2 = None"
    by (simp add: watch_settled_def)
  then show ?thesis by simp
qed

text \<open>
  C30. The check of the flag and the registration of a connection are two steps, and \<open>close\<close> fits
  between them: a gateway can have returned from \<open>close\<close> while a connection it accepted before
  is starting its session.
\<close>

theorem close_misses_accepted:
  "\<exists>s. life_reach L s \<and> closers s = [Close_done] \<and> conns s = [Creating] \<and> active_count s = 1"
proof -
  have "\<exists>s. life_run L ([Request, Close_call r] @ replicate 5 (Closer_step 0) @ [Serve 0]) life_new = Some s \<and>
      closers s = [Close_done] \<and> conns s = [Creating] \<and> active_count s = 1" for r
    by (simp add: life_new_def upgrade_def eval_nat_numeral conn_at_def move_closer_def move_conn_def)
  with run_reach [OF life_start] show ?thesis by meson
qed

text \<open>
  A new gateway works with the given base and key, under the environment's rules for the key,
  serves one route made from the given path, and starts open and idle.
\<close>

theorem gateway_new_config:
  assumes "gateway_new K H env options = Ok g"
  shows "api_key (gs_client g) = resolve_api_key (go_api_key options) env \<and>
    http_base (gs_client g) = normalize_base (vox_http_base options) \<and>
    socket_base (gs_client g) = default_socket_base (vox_http_base options) \<and>
    route g = normalize_path (go_path options) \<and>
    \<not> gs_shutting_down g \<and> gs_shutdown g = None \<and> gs_active g = 0"
  using assms by (auto simp: gateway_new_def gateway_with_client_def route_def with_options_def
      client_options_new_def default_socket_base_def normalize_base_def Let_def split: sum.splits)

section \<open>Witnesses\<close>

definition plain_sync :: sync_lib where
  "plain_sync = \<lparr>watch_send = (\<lambda>n old new. if n = 0 then old else new), wake = (\<lambda>_. True)\<rparr>"

lemma plain_sync_documented: "documented_sync plain_sync"
  by (simp add: documented_sync_def plain_sync_def)

text \<open>One connection creating its session, or one in its loop, and a caller of \<open>close\<close> about to send.\<close>

definition life_creating :: gateway_life where
  "life_creating = \<lparr>shutting_down = True, shutdown = None, active_count = 1, conns = [Creating],
     closers = [Close_sending ''stop'']\<rparr>"

definition life_looping :: gateway_life where
  "life_looping = \<lparr>shutting_down = True, shutdown = None, active_count = 1, conns = [Looping],
     closers = [Close_sending ''stop'']\<rparr>"

definition life_drained :: gateway_life where
  "life_drained = \<lparr>shutting_down = True, shutdown = Some ''stop'', active_count = 0, conns = [Ended],
     closers = [Close_waiting True]\<rparr>"

lemmas life_eval = life_new_def upgrade_def conn_at_def move_closer_def move_conn_def receivers_def listening_def
  plain_sync_def guard_drop_def

lemma life_creating_reach: "life_reach plain_sync life_creating"
proof (rule run_reach [OF life_start])
  show "life_run plain_sync [Request, Serve 0, Close_call ''stop'', Closer_step 0] life_new = Some life_creating"
    by (simp add: life_eval life_creating_def)
qed

lemma life_looping_reach: "life_reach plain_sync life_looping"
proof (rule run_reach [OF life_start])
  show "life_run plain_sync [Request, Serve 0, Session_result 0 True, Borrow 0, Close_call ''stop'', Closer_step 0]
      life_new = Some life_looping"
    by (simp add: life_eval life_looping_def)
qed

lemma life_drained_reach: "life_reach plain_sync life_drained"
proof (rule run_reach [OF life_looping_reach])
  show "life_run plain_sync [Closer_step 0, Closer_step 0, Closer_step 0, Shutdown_seen 0, Guard_dropped 0]
      life_looping = Some life_drained"
    by (simp add: life_eval life_looping_def life_drained_def Let_def)
qed

lemma active_count_exact_witness: "active_count life_looping = 1"
  using active_count_exact [OF plain_sync_documented life_looping_reach]
  by (simp add: life_looping_def counted_def)

lemma close_returns_when_drained_witness:
  "\<exists>n s'. n \<le> 5 \<and> life_run plain_sync (replicate n (Closer_step 0)) life_drained = Some s' \<and> closers s' ! 0 = Close_done"
  using close_returns_when_drained [OF plain_sync_documented life_drained_reach, of 0]
  by (simp add: life_drained_def)

definition life_refused :: gateway_life where
  "life_refused = life_creating\<lparr>conns := [Creating, Refused]\<rparr>"

lemma no_upgrade_during_shutdown_witness:
  "conns life_refused ! 1 = Refused \<and> upgrade life_refused = Status_text 503 ''RTC gateway is shutting down''"
proof (rule no_upgrade_during_shutdown [of life_creating plain_sync])
  have "life_next plain_sync life_creating Request = Some life_refused"
    by (simp add: life_refused_def life_creating_def upgrade_def)
  then show "life_leads plain_sync life_creating life_refused"
    by (rule leads_step [OF leads_refl])
qed (simp_all add: life_refused_def life_creating_def)

lemma shutdown_reaches_connections_witness:
  "\<exists>s1. life_next plain_sync life_looping (Closer_step 0) = Some s1 \<and> shutdown s1 = Some ''stop''"
proof -
  obtain s1 where s1: "life_next plain_sync life_looping (Closer_step 0) = Some s1"
    by (auto simp: life_looping_def)
  have "shutdown s1 = Some ''stop''"
    using shutdown_reaches_connections [OF plain_sync_documented life_looping_reach _ _ _ s1 leads_refl, of "''stop''"]
    by (simp add: life_looping_def receivers_def listening_def)
  with s1 show ?thesis by blast
qed

lemma shutdown_lost_without_receiver_witness:
  "\<exists>s1. life_next plain_sync life_creating (Closer_step 0) = Some s1 \<and> shutdown s1 = None"
proof -
  obtain s1 where s1: "life_next plain_sync life_creating (Closer_step 0) = Some s1"
    by (auto simp: life_creating_def)
  have "shutdown s1 = None"
    using shutdown_lost_without_receiver [OF plain_sync_documented life_creating_reach _ _ _ s1 leads_refl, of "''stop''"]
    by (simp add: life_creating_def receivers_def listening_def)
  with s1 show ?thesis by blast
qed

lemma gateway_new_config_witness:
  "\<exists>g :: (_, _, unit, _) GatewayState.
     gateway_new online_client (fixed_http 200 []) None (gateway_options_new ''https://vox/'') = Ok g \<and>
     api_key (gs_client g) = None \<and> http_base (gs_client g) = ''https://vox''"
proof -
  have "\<exists>g :: (_, _, unit, _) GatewayState.
      gateway_new online_client (fixed_http 200 []) None (gateway_options_new ''https://vox/'') = Ok g"
    by (simp add: gateway_new_def with_options_def raw_client_new_def online_client_def fixed_http_def
        client_options_new_def Let_def)
  then obtain g :: "(_, _, unit, _) GatewayState" where
    g: "gateway_new online_client (fixed_http 200 []) None (gateway_options_new ''https://vox/'') = Ok g" by blast
  from gateway_new_config [OF g] g show ?thesis
    by (auto simp: gateway_options_new_def resolve_api_key_def normalize_base_def trim_end_matches_def)
qed

end
