(* ===== verification/Vox_Crate_Tests.thy ===== *)
theory Vox_Crate_Tests
  imports Vox_Session_Tests Vox_Lifecycle
begin

text \<open>
  The unit tests of the other modules on the model: those of \<open>socket.rs\<close>, \<open>client.rs\<close> and
  \<open>gateway.rs\<close> (\<open>src/rust/rtcserver/src/\<close>), each a predicate under the test's name, with
  the lemma that the model passes it. What the tests rely on outside the crate is the predicate
  \<open>documented_test_env\<close>.
\<close>

section \<open>The socket's tests\<close>

definition distinguishes_not_connected_from_channel_closed :: bool where
  "distinguishes_not_connected_from_channel_closed \<longleftrightarrow>
     from_client_error ClientNotConnected = NotConnected \<and>
     from_client_error ClientChannelClosed = ChannelClosed"

definition reconnect_delay_doubles_then_caps :: bool where
  "reconnect_delay_doubles_then_caps \<longleftrightarrow>
     (let max_delay = from_secs 5
      in next_reconnect_delay (from_millis 200) max_delay = from_millis 400 \<and>
         next_reconnect_delay (from_secs 4) max_delay = from_secs 5 \<and>
         next_reconnect_delay max_delay max_delay = max_delay)"

text \<open>The two accessors the tests have on the supervisor.\<close>

definition supervisor_present :: "'k RawSocketClient \<Rightarrow> bool" where
  "supervisor_present s = (case supervisor s of Some _ \<Rightarrow> True | None \<Rightarrow> False)"

definition supervisor_finished :: "'k RawSocketClient \<Rightarrow> bool" where
  "supervisor_finished s = unwrap_or True (map_option (is_finished s) (supervisor s))"

text \<open>
  The start of three tests: a new client, marked active, with its supervisor ensured. An
  assertion after the wait for the end of the supervisor holds at the first look.
\<close>

definition started_client :: "('k, 'c) pond_client \<Rightarrow> 'k RawSocketClient Result" where
  "started_client K =
     map_sum id (\<lambda>s. ensure_supervisor (s\<lparr>active := True\<rparr>))
       (raw_client_new K ''ws://localhost/socket'' fmempty (from_millis 50) (from_secs 1))"

definition expect_ok :: "('a \<Rightarrow> bool) \<Rightarrow> ('a, 'e) result \<Rightarrow> bool" where
  "expect_ok p r = (case r of Inl _ \<Rightarrow> False | Inr x \<Rightarrow> p x)"

definition reconnect_supervisor_terminates_after_disconnect :: "('k, 'c) pond_client \<Rightarrow> bool" where
  "reconnect_supervisor_terminates_after_disconnect K \<longleftrightarrow>
     expect_ok (\<lambda>s. \<not> supervisor_finished s \<and> supervisor_finished (raw_disconnect K s)) (started_client K)"

definition ensure_supervisor_respawns_after_disconnect_reconnect :: "('k, 'c) pond_client \<Rightarrow> bool" where
  "ensure_supervisor_respawns_after_disconnect_reconnect K \<longleftrightarrow>
     expect_ok (\<lambda>s. let s1 = raw_disconnect K s; s2 = ensure_supervisor (s1\<lparr>active := True\<rparr>)
         in \<not> supervisor_finished s \<and> supervisor_finished s1 \<and> \<not> supervisor_finished s2)
       (started_client K)"

definition disconnect_clears_supervisor_slot_then_connect_respawns :: "('k, 'c) pond_client \<Rightarrow> bool" where
  "disconnect_clears_supervisor_slot_then_connect_respawns K \<longleftrightarrow>
     expect_ok (\<lambda>s. let s1 = raw_disconnect K s; s2 = ensure_supervisor (s1\<lparr>active := True\<rparr>)
         in supervisor_present s \<and> \<not> supervisor_present s1 \<and>
            supervisor_present s2 \<and> \<not> supervisor_finished s2)
       (started_client K)"

definition send_message_errors_when_channel_closed :: "'c pond_channel \<Rightarrow> 'c RawSocketChannel \<Rightarrow> bool" where
  "send_message_errors_when_channel_closed P ch \<longleftrightarrow>
     (let (left, ch1) = raw_leave P ch
      in left = Ok () \<and> fst (raw_send_message P ''response.start'' fmempty ch1) = Err ChannelClosed)"

definition join_and_leave_error_when_channel_closed :: "'c pond_channel \<Rightarrow> 'c RawSocketChannel \<Rightarrow> bool" where
  "join_and_leave_error_when_channel_closed P ch \<longleftrightarrow>
     (let (left, ch1) = raw_leave P ch; (joined, ch2) = raw_join P ch1
      in left = Ok () \<and> joined = Err ChannelClosed \<and> fst (raw_leave P ch2) = Err ChannelClosed)"

section \<open>The client's tests\<close>

definition defaults_socket_base_from_http_base ::
  "('k, 'c) pond_client \<Rightarrow> 'h http_client \<Rightarrow> string option \<Rightarrow> bool" where
  "defaults_socket_base_from_http_base K H env \<longleftrightarrow>
     expect_ok (\<lambda>cl. http_base cl = ''https://vox.example.com'' \<and>
         socket_base cl = ''https://vox.example.com/v1/socket'')
       (client_new K H env ''https://vox.example.com/'')"

definition new_returns_error_on_bad_url_instead_of_panicking ::
  "('k, 'c) pond_client \<Rightarrow> 'h http_client \<Rightarrow> string option \<Rightarrow> bool" where
  "new_returns_error_on_bad_url_instead_of_panicking K H env \<longleftrightarrow>
     (case client_new K H env ''not a url'' of Inl (InvalidUrl _) \<Rightarrow> True | _ \<Rightarrow> False)"

definition forwards_connection_and_reconnect_timeouts ::
  "('k, 'c) pond_client \<Rightarrow> 'h http_client \<Rightarrow> string option \<Rightarrow> bool" where
  "forwards_connection_and_reconnect_timeouts K H env \<longleftrightarrow>
     expect_ok (\<lambda>cl. connection_timeout cl = from_secs 3)
       (with_options K H env ((client_options_new ''https://vox.example.com'')
          \<lparr>co_connection_timeout := from_secs 3, co_max_reconnect_delay := from_secs 45\<rparr>))"

definition session_options_override_the_client_join_timeout ::
  "('k, 'c) pond_client \<Rightarrow> 'h http_client \<Rightarrow> string option \<Rightarrow> bool" where
  "session_options_override_the_client_join_timeout K H env \<longleftrightarrow>
     expect_ok (\<lambda>cl. resolve_join_timeout cl \<lparr>so_join_timeout = Some (from_secs 2)\<rparr> = from_secs 2 \<and>
         resolve_join_timeout cl \<lparr>so_join_timeout = None\<rparr> = from_secs 12)
       (with_options K H env ((client_options_new ''https://vox.example.com'')\<lparr>co_join_timeout := from_secs 12\<rparr>))"

definition injects_api_key_into_socket_params :: bool where
  "injects_api_key_into_socket_params \<longleftrightarrow>
     Option.bind (get (socket_params_with_api_key fmempty (Some ''secret'')) ''api_key'') as_str = Some ''secret''"

definition omits_api_key_from_socket_params_when_absent :: bool where
  "omits_api_key_from_socket_params_when_absent \<longleftrightarrow>
     get (socket_params_with_api_key fmempty None) ''api_key'' = None"

section \<open>The gateway's tests\<close>

definition offer_text :: string where
  "offer_text = ''{\"id\":\"offer-1\",\"type\":\"rtc.offer\",\"data\":{\"offer\":{\"type\":\"offer\",\"sdp\":\"sdp\"},\"generation\":1}}''"

definition candidate_text :: string where
  "candidate_text = ''{\"id\":\"candidate-1\",\"type\":\"rtc.ice_candidate\",\"data\":{\"candidate\":null,\"generation\":2}}''"

definition parses_generated_offer_and_candidate_generations_verbatim ::
  "(string \<Rightarrow> (Value, string) result) \<Rightarrow> bool" where
  "parses_generated_offer_and_candidate_generations_verbatim from_str \<longleftrightarrow>
     expect_ok (\<lambda>m. generation (cm_data m) ''rtc.offer'' False = Ok (Some 1)) (parse_message from_str offer_text) \<and>
     expect_ok (\<lambda>m. generation (cm_data m) ''rtc.ice_candidate'' True = Ok (Some 2) \<and>
         candidate (get (cm_data m) ''candidate'') = Ok None)
       (parse_message from_str candidate_text)"

definition generated_negotiation_requires_candidate_generation :: bool where
  "generated_negotiation_requires_candidate_generation \<longleftrightarrow>
     (case generation (object_of [(''candidate'', Null)]) ''rtc.ice_candidate'' True of
        Inr _ \<Rightarrow> False
      | Inl e \<Rightarrow> ce_typed e \<and>
          ce_message e = ''rtc.ice_candidate requires generation for a generated RTC negotiation'')"

definition rejects_malformed_generation_but_preserves_legacy_mode :: bool where
  "rejects_malformed_generation_but_preserves_legacy_mode \<longleftrightarrow>
     generation fmempty ''rtc.offer'' False = Ok None \<and>
     list_all (\<lambda>v. case generation (object_of [(''generation'', v)]) ''rtc.offer'' False of
         Inr _ \<Rightarrow> False
       | Inl e \<Rightarrow> ce_typed e \<and> sublist ''positive safe integer'' (ce_message e))
       [num 0, double (3 / 2), String ''2'', num 9007199254740992]"

definition validates_offer_and_candidate_shape :: bool where
  "validates_offer_and_candidate_shape \<longleftrightarrow>
     offer (Some (json [(''type'', String ''offer''), (''sdp'', String ''abc'')])) =
       Ok (json [(''type'', String ''offer''), (''sdp'', String ''abc'')]) \<and>
     is_err (offer (Some (json [(''type'', String ''answer''), (''sdp'', String ''abc'')]))) \<and>
     is_err (candidate (Some (json [(''candidate'', num 3)]))) \<and>
     (case candidate (Some (json
         [(''candidate'', String ''candidate:one''), (''sdpMid'', String ''audio''),
          (''sdpMLineIndex'', num 0)])) of
        Inr (Some v) \<Rightarrow> Option.bind (as_object v) (\<lambda>m. get m ''sdpMLineIndex'') = Some (num 0)
      | _ \<Rightarrow> False)"

text \<open>
  The counter is set to 1 by hand and a task calls \<open>close\<close>: it gets \<open>n\<close> operations far before
  the guard is dropped, and \<open>m\<close> more afterwards.
\<close>

definition shutdown_waiter_cannot_miss_the_final_active_session :: "sync_lib \<Rightarrow> nat \<Rightarrow> nat \<Rightarrow> bool" where
  "shutdown_waiter_cannot_miss_the_final_active_session L n m \<longleftrightarrow>
     (case life_run L (Close_call ''test_shutdown'' # replicate n (Closer_step 0)) (life_new\<lparr>active_count := 1\<rparr>) of
        None \<Rightarrow> False
      | Some s \<Rightarrow>
          (case life_run L (replicate m (Closer_step 0)) (guard_drop L s) of
             None \<Rightarrow> False
           | Some s' \<Rightarrow> closers s' ! 0 = Close_done))"

section \<open>What the tests rely on\<close>

text \<open>
  A new channel of the PondSocket client is idle and leaving closes it; the client accepts the
  two web addresses of the tests and rejects the other one; an HTTP client can be built. The JSON
  library reads the texts of the tests as what they say.
\<close>

definition documented_test_env ::
  "('k, 'c) pond_client \<Rightarrow> 'c pond_channel \<Rightarrow> 'h http_client \<Rightarrow> bool" where
  "documented_test_env K P H \<longleftrightarrow>
     (\<forall>k name ps. pond_state P (fst (pond_create_channel K name ps k)) = PondIdle) \<and>
     (\<forall>c. pond_state P (pond_leave P c) = PondClosed) \<and>
     (\<forall>u \<in> {''ws://localhost/socket'', ''https://vox.example.com/v1/socket''}. \<forall>ps d.
        \<exists>k. pond_with_options K u ps d = Ok k) \<and>
     (\<forall>ps d. \<exists>e. pond_with_options K ''not a url/v1/socket'' ps d = Err (ClientUrl e)) \<and>
     (\<forall>d. \<exists>h. http_build H d = Ok h)"

definition documented_json ::
  "(string \<Rightarrow> (Value, string) result) \<Rightarrow> (Value \<Rightarrow> string) \<Rightarrow> (Value \<Rightarrow> SpeechContext option) \<Rightarrow> bool" where
  "documented_json from_str to_string from_value \<longleftrightarrow>
     from_str offer_text = Ok (json
       [(''id'', String ''offer-1''), (''type'', String ''rtc.offer''),
        (''data'', json
          [(''offer'', json [(''type'', String ''offer''), (''sdp'', String ''sdp'')]), (''generation'', num 1)])]) \<and>
     from_str candidate_text = Ok (json
       [(''id'', String ''candidate-1''), (''type'', String ''rtc.ice_candidate''),
        (''data'', json [(''candidate'', Null), (''generation'', num 2)])]) \<and>
     to_string (json [(''channel'', String ''/rtc/abc'')]) = ''{\"channel\":\"/rtc/abc\"}'' \<and>
     from_value speech_context_v2 = Some speech_context_v2_read \<and>
     from_value malformed_context = Some malformed_context_read"

section \<open>The tests pass\<close>

lemma expect_ok_simps [simp]: "expect_ok p (Inl e) = False" "expect_ok p (Inr x) = p x"
  by (simp_all add: expect_ok_def)

lemma test_channel_open: "documented_test_env K P H \<Longrightarrow> closed_error P (test_channel K P k) = None"
  by (simp add: documented_test_env_def test_channel_def raw_channel_new_def closed_error_eq)

lemma closed_channel_tests:
  assumes "documented_test_env K P H"
  shows "send_message_errors_when_channel_closed P (test_channel K P k)"
    "join_and_leave_error_when_channel_closed P (test_channel K P k)"
  using assms test_channel_open [OF assms, of k]
  by (simp_all add: send_message_errors_when_channel_closed_def join_and_leave_error_when_channel_closed_def
      documented_test_env_def raw_leave_def raw_join_def raw_send_message_def closed_error_eq)

lemma delay_tests: "distinguishes_not_connected_from_channel_closed" "reconnect_delay_doubles_then_caps"
  by (simp_all add: distinguishes_not_connected_from_channel_closed_def reconnect_delay_doubles_then_caps_def
      next_reconnect_delay_def saturating_mul_def duration_max_def from_secs_def from_millis_def)

lemma started_client_Ok:
  assumes "documented_test_env K P H"
  shows "\<exists>k c d. started_client K = Ok \<lparr>client = k, conn_tx = c, active = True, supervisor = Some 0,
    tasks = [\<lparr>pc = Sup_watching, aborted = False\<rparr>], max_reconnect_delay = d\<rparr>"
proof -
  from assms obtain k where "pond_with_options K ''ws://localhost/socket'' (Some fmempty) (from_millis 50) = Ok k"
    unfolding documented_test_env_def by blast
  then show ?thesis
    by (simp add: started_client_def raw_client_new_def ensure_supervisor_def spawn_reconnect_supervisor_def Let_def)
qed

lemmas supervisor_defs =
  supervisor_present_def supervisor_finished_def raw_disconnect_def supervisor_abort_def
  publish_state_def ensure_supervisor_def spawn_reconnect_supervisor_def is_finished_def

lemma supervisor_tests:
  assumes "documented_test_env K P H"
  shows "reconnect_supervisor_terminates_after_disconnect K"
    "ensure_supervisor_respawns_after_disconnect_reconnect K"
    "disconnect_clears_supervisor_slot_then_connect_respawns K"
  using started_client_Ok [OF assms]
  by (auto simp: reconnect_supervisor_terminates_after_disconnect_def
      ensure_supervisor_respawns_after_disconnect_reconnect_def
      disconnect_clears_supervisor_slot_then_connect_respawns_def supervisor_defs Let_def)

lemma vox_client_Ok:
  assumes "documented_test_env K P H" and "co_socket_base options = None"
    and "normalize_base (co_http_base options) = ''https://vox.example.com''"
  shows "\<exists>cl. with_options K H env options = Ok cl \<and> http_base cl = ''https://vox.example.com'' \<and>
    socket_base cl = ''https://vox.example.com/v1/socket'' \<and>
    connection_timeout cl = co_connection_timeout options \<and> join_timeout cl = co_join_timeout options"
proof -
  have base: "default_socket_base ''https://vox.example.com'' = ''https://vox.example.com/v1/socket''"
    by (simp add: default_socket_base_def normalize_base_def trim_end_matches_def)
  from assms(1) obtain h where "http_build H (co_request_timeout options) = Ok h"
    unfolding documented_test_env_def by blast
  moreover from assms(1) obtain k where "pond_with_options K ''https://vox.example.com/v1/socket''
      (Some (socket_params_with_api_key (co_socket_params options) (resolve_api_key (co_api_key options) env)))
      (co_connection_timeout options) = Ok k"
    unfolding documented_test_env_def by blast
  ultimately show ?thesis using assms(2,3) base by (simp add: with_options_def raw_client_new_def Let_def)
qed

lemma normalized_vox_base:
  "normalize_base ''https://vox.example.com'' = ''https://vox.example.com''"
  "normalize_base ''https://vox.example.com/'' = ''https://vox.example.com''"
  "normalize_base ''not a url'' = ''not a url''"
  by (simp_all add: normalize_base_def trim_end_matches_def)

lemma client_tests:
  assumes env: "documented_test_env K P H"
  shows "defaults_socket_base_from_http_base K H env"
    "forwards_connection_and_reconnect_timeouts K H env"
    "session_options_override_the_client_join_timeout K H env"
  using vox_client_Ok [OF env, of "client_options_new ''https://vox.example.com/''" env]
    vox_client_Ok [OF env, of "(client_options_new ''https://vox.example.com'')
      \<lparr>co_connection_timeout := from_secs 3, co_max_reconnect_delay := from_secs 45\<rparr>" env]
    vox_client_Ok [OF env, of "(client_options_new ''https://vox.example.com'')\<lparr>co_join_timeout := from_secs 12\<rparr>" env]
  by (auto simp: defaults_socket_base_from_http_base_def forwards_connection_and_reconnect_timeouts_def
      session_options_override_the_client_join_timeout_def client_new_def client_options_new_def
      normalized_vox_base resolve_join_timeout_def)

lemma bad_url_test:
  assumes "documented_test_env K P H"
  shows "new_returns_error_on_bad_url_instead_of_panicking K H env"
proof -
  let ?o = "client_options_new ''not a url''"
  have base: "default_socket_base ''not a url'' = ''not a url/v1/socket''"
    by (simp add: default_socket_base_def normalized_vox_base)
  from assms obtain h where "http_build H (co_request_timeout ?o) = Ok h"
    unfolding documented_test_env_def by blast
  moreover from assms obtain e where "pond_with_options K ''not a url/v1/socket''
      (Some (socket_params_with_api_key (co_socket_params ?o) (resolve_api_key (co_api_key ?o) env)))
      (co_connection_timeout ?o) = Err (ClientUrl e)"
    unfolding documented_test_env_def by blast
  ultimately show ?thesis
    by (simp add: new_returns_error_on_bad_url_instead_of_panicking_def client_new_def with_options_def
        raw_client_new_def client_options_new_def normalized_vox_base base Let_def)
qed

lemma api_key_tests: "injects_api_key_into_socket_params" "omits_api_key_from_socket_params_when_absent"
  by (simp_all add: injects_api_key_into_socket_params_def omits_api_key_from_socket_params_when_absent_def
      socket_params_with_api_key_def)

lemma trimmed_texts:
  "trim ''offer-1'' = ''offer-1''" "trim ''rtc.offer'' = ''rtc.offer''" "trim ''candidate-1'' = ''candidate-1''"
  "trim ''rtc.ice_candidate'' = ''rtc.ice_candidate''" "trim ''abc'' = ''abc''"
  by (rule trim_fix; simp add: utf8_white_space_def)+

lemma parsing_test:
  assumes "documented_json from_str to_string from_value"
  shows "parses_generated_offer_and_candidate_generations_verbatim from_str"
  using assms
  by (simp add: documented_json_def parses_generated_offer_and_candidate_generations_verbatim_def parse_message_def
      object_of_def trimmed_texts generation_def candidate_def MAX_SAFE_INTEGER_def)

lemma validation_tests:
  "generated_negotiation_requires_candidate_generation"
  "rejects_malformed_generation_but_preserves_legacy_mode"
  "validates_offer_and_candidate_shape"
  by (simp_all add: generated_negotiation_requires_candidate_generation_def
      rejects_malformed_generation_but_preserves_legacy_mode_def validates_offer_and_candidate_shape_def
      generation_def offer_def candidate_def invalid_def MAX_SAFE_INTEGER_def json_def object_of_def trimmed_texts
      double_def num_def is_err_def opt_filter_def sublist_Cons_right)

lemma shutdown_waiter_test:
  assumes L: "documented_sync L" and n: "n \<le> 4"
  shows "shutdown_waiter_cannot_miss_the_final_active_session L n (if n = 4 then 4 else 5 - n)"
proof -
  have wake: "wake L f" for f using L by (simp add: documented_sync_def)
  from n consider "n = 0" | "n = 1" | "n = 2" | "n = 3" | "n = 4" by linarith
  then show ?thesis
    by cases (simp_all add: shutdown_waiter_cannot_miss_the_final_active_session_def life_new_def guard_drop_def
        move_closer_def wake eval_nat_numeral)
qed

text \<open>
  The last test of \<open>socket.rs\<close> is about tokio's broadcast alone: a receiver of a channel that retains
  two messages reads until nothing is left, here for at most \<open>k\<close> receipts.
\<close>

fun drain :: "'m receiver \<Rightarrow> nat \<Rightarrow> nat \<Rightarrow> nat \<Rightarrow> 'm list \<Rightarrow> bool \<times> 'm list \<Rightarrow> (bool \<times> 'm list) option" where
  "drain B cap 0 n ms seen = None"
| "drain B cap (Suc k) n ms (lagged, delivered) =
     (case B cap n ms of
        None \<Rightarrow> Some (lagged, delivered)
      | Some (Received m, n') \<Rightarrow> drain B cap k n' ms (lagged, delivered @ [m])
      | Some (Lagged _, n') \<Rightarrow> drain B cap k n' ms (True, delivered)
      | Some (Recv_closed, n') \<Rightarrow> Some (lagged, delivered))"

definition lagged_broadcast_does_not_stop_consumption :: "recv_lib \<Rightarrow> nat \<Rightarrow> bool" where
  "lagged_broadcast_does_not_stop_consumption B k \<longleftrightarrow>
     (case drain B 2 k 0 (map (\<lambda>i. (''event-'' @ show_nat i, fmempty)) [0..<5]) (False, []) of
        Some (lagged, delivered) \<Rightarrow> lagged \<and> List.member (map fst delivered) ''event-4''
      | None \<Rightarrow> False)"

lemma five_messages_drain:
  fixes ms :: "'m list"
  assumes B: "documented_recv B" "lags_beyond B" and ms: "length ms = 5"
  shows "drain B 2 6 0 ms (False, []) = Some (True, [ms ! 3, ms ! 4]) "
proof -
  have lags: "\<exists>k r. B 2 n ms = Some (Lagged k, r) \<and> n < r \<and> r \<le> 3" if "n < 3" for n
  proof -
    have "n + 2 < length ms" using that ms by simp
    with B(2) obtain k r where "B 2 n ms = Some (Lagged k, r)" unfolding lags_beyond_def by blast
    with documented_recv_cases [OF B(1), of n ms 2] that ms show ?thesis by fastforce
  qed
  have last: "B 2 3 ms = Some (Received (ms ! 3), 4)" "B 2 4 ms = Some (Received (ms ! 4), 5)" "B 2 5 ms = None"
    using documented_recv_within [OF B(1), of _ ms 2] ms by simp_all
  have late: "drain B 2 (Suc (Suc (Suc k))) 3 ms (True, []) = Some (True, [ms ! 3, ms ! 4])" for k
    by (simp add: last)
  obtain a r where two: "B 2 2 ms = Some (Lagged a, r)" "2 < r" "r \<le> 3" using lags [of 2] by auto
  then have "r = 3" by simp
  with two late have two: "drain B 2 (Suc (Suc (Suc (Suc k)))) 2 ms (True, []) = Some (True, [ms ! 3, ms ! 4])" for k
    by simp
  obtain b q where one: "B 2 1 ms = Some (Lagged b, q)" "1 < q" "q \<le> 3" using lags [of 1] by auto
  then have "q = 2 \<or> q = 3" by arith
  then have one: "drain B 2 5 1 ms (True, []) = Some (True, [ms ! 3, ms ! 4])"
    using one late [of 1] two [of 0] by (auto simp: eval_nat_numeral)
  obtain c p where zero: "B 2 0 ms = Some (Lagged c, p)" "0 < p" "p \<le> 3" using lags [of 0] by auto
  then have "p = 1 \<or> p = 2 \<or> p = 3" by arith
  then show ?thesis
    using zero one late [of 2] two [of 1] by (auto simp: eval_nat_numeral)
qed

lemma lagged_consumption_test:
  assumes "documented_recv B" and "lags_beyond B"
  shows "lagged_broadcast_does_not_stop_consumption B 6"
proof -
  have "show_nat 4 = ''4''" by code_simp
  with five_messages_drain [OF assms, of "map (\<lambda>i. (''event-'' @ show_nat i, fmempty)) [0..<5]"]
  show ?thesis by (simp add: lagged_broadcast_does_not_stop_consumption_def)
qed

section \<open>Instances of what the tests rely on\<close>

text \<open>A client that checks its address, channels whose value is their state, and a JSON library on four texts.\<close>

definition url_client :: "(PondConnectionState, PondChannelState) pond_client" where
  "url_client =
     \<lparr>pond_with_options = (\<lambda>u _ _. if u = ''not a url/v1/socket'' then Err (ClientUrl ''relative URL without a base'')
        else Ok PondDisconnected),
      pond_connection_state = (\<lambda>k. k), pond_connect = (\<lambda>_. (Ok (), PondConnected)),
      pond_disconnect = (\<lambda>_. PondDisconnected), pond_create_channel = (\<lambda>_ _ k. (PondIdle, k))\<rparr>"

lemma url_client_documented: "documented_test_env url_client state_channel (fixed_http 200 [])"
  by (simp add: documented_test_env_def url_client_def state_channel_def fixed_http_def)

definition test_from_str :: "string \<Rightarrow> (Value, string) result" where
  "test_from_str txt =
     (if txt = offer_text then Ok (json
        [(''id'', String ''offer-1''), (''type'', String ''rtc.offer''),
         (''data'', json
           [(''offer'', json [(''type'', String ''offer''), (''sdp'', String ''sdp'')]), (''generation'', num 1)])])
      else if txt = candidate_text then Ok (json
        [(''id'', String ''candidate-1''), (''type'', String ''rtc.ice_candidate''),
         (''data'', json [(''candidate'', Null), (''generation'', num 2)])])
      else Err ''unexpected text'')"

definition test_from_value :: "Value \<Rightarrow> SpeechContext option" where
  "test_from_value v =
     (if v = speech_context_v2 then Some speech_context_v2_read
      else if v = malformed_context then Some malformed_context_read else None)"

lemma contexts_differ: "malformed_context \<noteq> speech_context_v2"
proof
  assume "malformed_context = speech_context_v2"
  then have "Option.bind (as_object malformed_context) (\<lambda>m. get m ''emotions'') =
      Option.bind (as_object speech_context_v2) (\<lambda>m. get m ''emotions'')" by simp
  then show False by (simp add: malformed_context_def speech_context_v2_def object_of_def)
qed

lemma test_json_documented:
  "documented_json test_from_str (\<lambda>_. ''{\"channel\":\"/rtc/abc\"}'') test_from_value"
proof -
  have "candidate_text \<noteq> offer_text" by (simp add: candidate_text_def offer_text_def)
  with contexts_differ show ?thesis
    by (simp add: documented_json_def test_from_str_def test_from_value_def)
qed

end
