(* ===== verification/Spec2Isabelle.thy ===== *)
theory Spec2Isabelle
  imports Vox_Shared Vox_Crate_Tests
begin

text \<open>
  A verification library for the Rust crate \<open>vox-rtc-server\<close> (\<open>src/rust/rtcserver/src\<close>): the SDK
  a voice application uses to create Vox RTC sessions, to control them over a PondSocket channel,
  and to give browsers a WebSocket gateway for their WebRTC signalling.

  \<^bold>\<open>Parts and theories\<close>

  \<^item> \<open>Vox_Prelude\<close>: Rust types and library functions the crate uses (words, \<open>Result\<close>, \<open>Duration\<close>,
    trimming, decimal formatting), what an await delivers, and the locale \<open>step_invariant\<close>.
  \<^item> \<open>Vox_Json\<close>: \<open>serde_json\<close> values and accessors; locale \<open>keyed_store\<close>, interpreted by the
    objects (\<open>event_map\<close>).
  \<^item> \<open>Vox_Error\<close> (\<open>error.rs\<close>): the error type, its text and the conversions into it.
  \<^item> \<open>Vox_Types\<close> (\<open>types.rs\<close>): event names, records of the wire format, field readers, and
    \<open>SpeechContext::is_valid\<close> against a declarative specification.
  \<^item> \<open>Vox_Socket\<close> (\<open>socket.rs\<close>): the channel adapter with its mirror tasks, and the client with its
    reconnect supervisor as a transition system: \<open>raw_client_reach\<close> has the operations of its methods in
    any order, interleaved with turns of any supervisor task; \<open>calls_reach\<close> has the calls of \<open>connect\<close>
    and \<open>disconnect\<close> on clones, one operation on the shared state at a time (\<open>client_op\<close>). Locale
    \<open>control_channel\<close> (a closed channel refuses, an open one accepts), interpreted as \<open>raw_channel\<close>;
    locale \<open>backoff\<close>, interpreted as \<open>reconnect\<close>.
  \<^item> \<open>Vox_Session\<close> (\<open>session.rs\<close>): joining, the commands with their payloads, response generations,
    the acknowledged start, the receive loops and the handle that ends them.
  \<^item> \<open>Vox_Commands\<close> (\<open>session.rs\<close>, the methods that send): the commands as a datatype, sequences of
    them on one session, and the abstract specification they refine: a \<open>plan\<close> of messages and of
    generations for each command. Sequences interpret \<open>step_invariant\<close> (\<open>command_run\<close>).
  \<^item> \<open>Vox_Tasks\<close> (\<open>session.rs\<close>, the clones of a session): calls of the methods one shared operation at
    a time, in any interleaving with each other, with the message mirror and with changes of the
    channel (\<open>call_step\<close>, \<open>clones_step\<close>, \<open>clones_run\<close>). Runs interpret \<open>step_invariant\<close> twice
    (\<open>isolation\<close>, \<open>numbering\<close>).
  \<^item> \<open>Vox_Events\<close> (\<open>session.rs\<close>, the \<open>on_\<dots>\<close> methods): the typed listeners; locale
    \<open>typed_event\<close>, interpreted for each of the decoders.
  \<^item> \<open>Vox_Listen\<close> (\<open>session.rs\<close>, \<open>on_event\<close>): a listener from its subscription on, interleaved with the
    message mirror (\<open>listen_step\<close>, \<open>listen_run\<close>), and the relay from the events of the PondSocket
    channel through the mirror to the listener (\<open>relay_step\<close>, \<open>relay_run\<close>); runs interpret
    \<open>step_invariant\<close> (\<open>listening\<close>, \<open>relay\<close>).
  \<^item> \<open>Vox_Client\<close> (\<open>client.rs\<close>): options, \<open>connect\<close>, \<open>create_session\<close>, \<open>attach_session\<close>.
  \<^item> \<open>Vox_Gateway\<close> (\<open>gateway.rs\<close>): validation of browser messages, \<open>handle_message\<close>, frames,
    \<open>cleanup\<close>, and \<open>serve\<close> for one connection. Its loop is \<open>serve_step\<close> folded over the inputs
    that \<open>select!\<close> picks, and interprets \<open>step_invariant\<close> (\<open>conn\<close>). What a round puts out, commands
    on the control channel and frames on the web socket, is \<open>step_output\<close>; \<open>do_output\<close> is its effect.
  \<^item> \<open>Vox_Shared\<close>: the gateway's loop and the application's calls on one session, interleaved.
  \<^item> \<open>Vox_Lifecycle\<close> (\<open>gateway.rs\<close>): construction, the answer of \<open>upgrade\<close>, and all connections of a
    gateway interleaved with the callers of \<open>close\<close> (\<open>life_next\<close>, \<open>life_reach\<close>).
  \<^item> \<open>Vox_Session_Tests\<close>, \<open>Vox_Crate_Tests\<close> (the modules \<open>tests\<close> of \<open>session.rs\<close>, and of \<open>socket.rs\<close>,
    \<open>client.rs\<close> and \<open>gateway.rs\<close>): the unit tests as predicates on the model, under their names,
    each with the lemma that the model passes it.
  \<^item> This theory: the properties that span components, from the PondSocket channel to the browser
    and back, and from the shutdown to the end of a connection.

  The gateway creates a session with the client for each browser, forwards the session's events to
  the browser (\<open>on_event\<close>, then the loop) and the browser's signalling to the session
  (\<open>handle_message\<close>, then \<open>send_control\<close>, then the adapter's \<open>send_message\<close>).

  \<^bold>\<open>State and effects\<close>

  A struct is a record and a method takes and returns it. \<open>Result\<close> is a sum. What the crate does
  not contain is a parameter: the PondSocket client and channel (\<open>pond_client\<close>, \<open>pond_channel\<close>),
  the HTTP client, JSON text, the WebSocket sink, the hooks, the random part of a generation
  identifier, tokio's watch and notification (\<open>sync_lib\<close>, with \<open>documented_sync\<close> as the
  documented behaviour) and tokio's broadcast receiver (\<open>recv_lib\<close>, with \<open>documented_recv\<close>: the
  next message, or a lag onto a message that has at least as many newer ones as the capacity; with
  \<open>lags_beyond\<close>, a lag whenever more than that are newer). A loop
  around an await is a function of the list of what the awaits deliver; the end of the list is the
  expiry of the surrounding timeout, or, for a loop without timeout, a wait that is still going on.
  Every definition is total and none of the crate's code takes fuel.

  \<^bold>\<open>What is shown\<close>

  \<^item> Gateway: offers and answers are correlated in what is sent (C1, C2), the generation gate of a
    negotiation (C3),
    a run does to its session only what sending clean commands does (C5), the handler refines a
    pure translation of messages (C16), generations are accepted exactly when well formed (C33),
    refusals are answered (C34), server events reach the browser in order from the PondSocket
    channel on (C15), a connection is served until its first exit (C17) and cleaned up exactly
    once (C10); the route (C39).
  \<^item> Shutdown: the counter is exact (C21), \<open>close\<close> returns once drained (C4), nothing is let in
    afterwards (C27), a stored reason reaches every connection (C28) and ends it with that reason
    (C23); a reason sent without a receiver is lost (C29) and an accepted connection can be missed (C30).
  \<^item> Session: every sending method refines its plan (C6), identifiers are threaded through any
    sequence of commands (C18), the session keeps its shape (C19), the acknowledgement of a start
    (C13), cancellation (C37), the wire round trip of the output selection (C38),
    typed events (C35), the delivery of a listener that may lag (C25), the validity of a speech context (C22).
  \<^item> Concurrency: the gateway and the application do not disturb each other (C7), calls that name
    their generation do not disturb each other (C8), a call that is not interrupted does what is
    planned for its command (C9), concurrent starts get different identifiers (C11), no acknowledgement
    is missed (C14); two schedules in which unnamed generations go wrong (C31, C32).
  \<^item> Socket and client: one live supervisor (C12), which retries until it is connected (C20) with
    bounded delays (C26) and is lost when a connect slips into a disconnect (C36); the message mirror and what ends it (C40); attachment (C24).

  \<^bold>\<open>Bounds and abstractions\<close>

  The generation counter is a 64-bit word that wraps; C11 holds for up to \<open>2 ^ 64\<close> calls. The
  counter of active connections is a natural number, at most the number of connections. Doubles
  are rationals with infinities and not-a-number, integers become doubles by rounding to 53
  bits. The order of keys in a JSON object is not kept. The broadcast capacity, 1024, bounds C14 and
  C25; C40 takes the capacity of the PondSocket channel as it is. Between the check of a channel's state and the
  send in \<open>send_message\<close> nothing else is interleaved, nor is anything within a turn of a supervisor
  between two of its awaits, or between the two operations of the drop of an \<open>ActiveGuard\<close>. The
  timeout of an acknowledged start may expire although the acknowledgement is there already, which
  tokio allows only when the task's budget is used up. In the lifecycle, \<open>Looping\<close> is a connection
  from its look at the shutdown watch to the end of its loop, with the created hook and the first
  frame. C20 follows attempts that fail while the connection stays as it is: the PondSocket client
  stays disconnected until the attempt that succeeds.

  \<^bold>\<open>Not modelled\<close>

  The axum router around the route, the derived decoding of \<open>SessionBootstrap\<close> and
  \<open>SpeechContext\<close> (parameters). In the sequential theories the broadcasts a receiver gets are the
  list it is given; \<open>Vox_Tasks\<close> and \<open>Vox_Listen\<close> follow the position of the receiver. The lines of the
  crate no definition translates are imports, attributes, one-line accessors and re-exports
  (\<open>lib.rs\<close>). The SDKs in other languages are not covered.
\<close>

section \<open>Definitions of the end-to-end properties\<close>

text \<open>
  Everything the PondSocket channel has broadcast has come through: the mirror runs, it and the
  listener have received all there is, and the listener has never lagged.
\<close>

definition came_through :: "'c relay \<Rightarrow> bool" where
  "came_through s \<longleftrightarrow> mirror_running s \<and> mirror_next s = length (pond_events s) \<and>
     lis_next (relay_listening s) = length (published (relay_listening s)) \<and>
     list_all (\<lambda>r. \<not> lag r) (lis_got (relay_listening s))"

section \<open>Lemmas\<close>

lemma relay_handled:
  assumes "relay_inv ch s"
  shows "subseq (handled self (relay_listening s)) (List.map_filter map_channel_event (pond_events s))"
    and "came_through s \<Longrightarrow> handled self (relay_listening s) = List.map_filter map_channel_event (pond_events s)"
proof -
  let ?f = "List.map_filter map_channel_event"
  from assms obtain n where n: "n \<le> length (pond_events s)" "mirror_running s \<longrightarrow> mirror_next s = n"
    and pub: "published (relay_listening s) = message_tx ch @ ?f (take n (pond_events s))"
    and lis: "listen_inv (length (message_tx ch)) (relay_listening s)"
    by (auto simp: relay_inv_def)
  have "?f (pond_events s) = ?f (take n (pond_events s)) @ ?f (drop n (pond_events s))"
    by (metis append_take_drop_id map_filter_append)
  then have "subseq (?f (take n (pond_events s))) (?f (pond_events s))" by (simp add: prefix_imp_subseq)
  with handled_published [OF assms, of self] pub
  show "subseq (handled self (relay_listening s)) (?f (pond_events s))"
    using subseq_order.trans by simp
  assume "came_through s"
  with n pub lis show "handled self (relay_listening s) = ?f (pond_events s)"
    by (simp add: came_through_def listen_inv_def handled_seen Let_def)
qed

text \<open>A connection that is being served has not changed hands.\<close>

lemma serve_ready_Serving:
  assumes "serve_ready E opts is controlled c = Serving c'"
  shows "conn_headers c' = conn_headers c \<and> sess_id (conn_session c') = sess_id (conn_session c) \<and>
    sess_channel_name (conn_session c') = sess_channel_name (conn_session c) \<and>
    response_generation (conn_session c') = response_generation (conn_session c)"
proof -
  obtain w where "serve_loop E is (c\<lparr>sender := w\<rparr>) = Continue c'"
    using assms by (auto simp: serve_ready_def Let_def split: prod.splits if_splits ControlFlow.splits)
  with serve_loop_frame [of "c\<lparr>sender := w\<rparr>" E "is"] show ?thesis by (simp add: loop_inv_def Let_def)
qed

text \<open>An offer in good form passes the gateway.\<close>

lemma offer_passes:
  assumes parsed: "env_from_str E t = Ok (Object obj)"
    and "get obj ''id'' = Some (String i)" "trim i \<noteq> []"
    and "get obj ''type'' = Some (String k)" "trim k = ''rtc.offer''"
    and "get obj ''data'' = Some (Object d)"
    and "get d ''generation'' = Some (Number (PosInt g))" "0 < unat g" "unat g < 2 ^ 53"
    and "get d ''offer'' = Some (Object off)" "get off ''type'' = Some (String ''offer'')"
    and "get off ''sdp'' = Some (String sdp)" "trim sdp \<noteq> []"
    and free: "pending_offer_id c = None"
    and opened: "closed_error (env_channel E) (sess_channel (conn_session c)) = None"
  shows "\<exists>p. serve_step E c (Browser_message (Text t)) =
      Continue (c\<lparr>conn_session := snd (send_control (env_channel E) ''rtc.offer'' p (conn_session c)),
                  pending_offer_id := Some (trim i), generated_offer := True\<rparr>) \<and>
    get p ''offer'' = Some (json [(''type'', String ''offer''), (''sdp'', String sdp)]) \<and>
    get p ''generation'' = Some (Number (PosInt g))"
proof -
  let ?m = "\<lparr>cm_id = trim i, cm_kind = ''rtc.offer'', cm_data = d\<rparr>"
  let ?off = "json [(''type'', String ''offer''), (''sdp'', String sdp)]"
  let ?p = "generation_payload (Some g) (put ''restart'' (Bool (get d ''restart'' = Some (Bool True)))
      (put ''offer'' ?off fmempty))"
  have m: "parse_message (env_from_str E) t = Ok ?m"
    using assms by (simp add: parse_message_def)
  have "generation d ''rtc.offer'' False = Ok (Some g)" and "offer (get d ''offer'') = Ok ?off"
    using assms by (simp_all add: generation_Ok_Some offer_Ok)
  then have tr: "translate (pending_offer_id c \<noteq> None) (generated_offer c) ?m = Ok (''rtc.offer'', ?p)"
    using free by (simp add: translate_def)
  have "handle_message E ?m c = (Ok (), remember True (trim i) (''rtc.offer'', ?p)
      (c\<lparr>conn_session := snd (send_control (env_channel E) ''rtc.offer'' ?p (conn_session c))\<rparr>))"
    unfolding handle_message_translate tr using opened by (simp add: send_control_open)
  then show ?thesis
    by (intro exI [of _ ?p]) (simp add: browser_text_def m remember_def get_generation_payload)
qed

text \<open>A connection that is being served goes on with what comes next.\<close>

definition served_by ::
  "('k, 'c, 'h, 'w) gateway_env \<Rightarrow> ('hd, 'c) GatewayOptions \<Rightarrow> ('hd, 'c, 'w) flow \<Rightarrow> ('hd, 'c, 'w) Connection serving" where
  "served_by E opts f =
     (case f of
        Continue c \<Rightarrow> Serving c
      | Break c \<Rightarrow> Served (cleanup E opts (rtc_close_requested c) (close_reason c) c))"

lemma serve_ready_continues:
  assumes "serve_ready E opts is controlled c0 = Serving c"
  shows "serve_ready E opts (is @ js) controlled c0 = served_by E opts (serve_loop E js c)"
  using assms
  by (auto simp: serve_ready_def served_by_def serve_loop_append Let_def
      split: prod.splits if_splits ControlFlow.splits)

text \<open>What the session and the connection look like when the loop starts.\<close>

lemma serve_session_Serving:
  assumes "serve_session E opts hdrs w sv is controlled = Serving c"
  obtains c0 where "sv = None" and "conn_headers c0 = hdrs"
    and "\<And>js. serve_session E opts hdrs w sv js controlled = serve_ready E opts js controlled c0"
proof -
  have sv: "sv = None" using assms by (auto simp: serve_session_def Let_def split: option.splits)
  let ?c0 = "\<lparr>conn_headers = hdrs, conn_session = controlled_session controlled, sender = w, calls = [],
       pending_offer_id = None, generated_offer = False, rtc_close_requested = False,
       close_reason = ''browser_disconnected''\<rparr>"
  let ?ctx = "\<lparr>created_headers = hdrs, created_session = controlled_session controlled\<rparr>"
  show thesis
  proof (cases "go_on_session_created opts")
    case None
    then show thesis using that [OF sv, of ?c0] by (simp add: serve_session_def sv)
  next
    case (Some hook)
    obtain r s where rs: "hook ?ctx = (r, s)"
      by fastforce
    with assms Some sv obtain u where "r = Ok u"
      by (cases r) (simp_all add: serve_session_def Let_def)
    with rs Some show thesis
      using that [OF sv, of "?c0\<lparr>conn_session := s, calls := [Created_hook ?ctx]\<rparr>"]
      by (simp add: serve_session_def sv Let_def)
  qed
qed

section \<open>Properties across components\<close>

text \<open>
  C1. An offer and its answer, end to end: a browser's offer with a generation is sent on the control
  channel with its SDP and its generation unchanged and nothing is sent back yet; the answer that
  comes next is forwarded under the offer's own identifier, and the connection is then free for
  another offer and in a generated negotiation.
\<close>

theorem offer_answer_roundtrip:
  assumes "env_from_str E t = Ok (Object obj)"
    and "get obj ''id'' = Some (String i)" "trim i \<noteq> []"
    and "get obj ''type'' = Some (String k)" "trim k = ''rtc.offer''"
    and "get obj ''data'' = Some (Object d)"
    and "get d ''generation'' = Some (Number (PosInt g))" "0 < unat g" "unat g < 2 ^ 53"
    and "get d ''offer'' = Some (Object off)" "get off ''type'' = Some (String ''offer'')"
    and "get off ''sdp'' = Some (String sdp)" "trim sdp \<noteq> []"
    and "pending_offer_id c = None"
    and "closed_error (env_channel E) (sess_channel (conn_session c)) = None"
    and "\<And>m w. fst (env_send E m w) = Ok ()" and "wire_type e = ''rtc.answer''"
  shows "\<exists>p c'. serve_loop E [Browser_message (Text t), Session_event e] c = Continue c' \<and>
    channel (sess_channel (conn_session c')) =
      pond_send_message (env_channel E) ''rtc.offer'' (Some p) (channel (sess_channel (conn_session c))) \<and>
    get p ''offer'' = Some (json [(''type'', String ''offer''), (''sdp'', String sdp)]) \<and>
    get p ''generation'' = Some (Number (PosInt g)) \<and>
    sender c' = send_frames E [frame_json (Some (trim i)) ''rtc.answer'' (Object (data e))] (sender c) \<and>
    pending_offer_id c' = None \<and> generated_offer c'"
proof -
  obtain p where step: "serve_step E c (Browser_message (Text t)) =
      Continue (c\<lparr>conn_session := snd (send_control (env_channel E) ''rtc.offer'' p (conn_session c)),
                  pending_offer_id := Some (trim i), generated_offer := True\<rparr>)"
    and p: "get p ''offer'' = Some (json [(''type'', String ''offer''), (''sdp'', String sdp)])"
      "get p ''generation'' = Some (Number (PosInt g))"
    using offer_passes [OF assms(1-15)] by blast
  have "wire_type e \<noteq> ''rtc.session.closed''" and "correlates e"
    using assms(17) by (simp_all add: correlates_def)
  with p show ?thesis
    by (intro exI [of _ p]) (simp add: step session_event_ok [OF assms(16)] send_control_open [OF assms(15)]
        assms(17) del: serve_step.simps(4))
qed

text \<open>
  A connection that is being served belongs to the session the server created for it: without a
  created hook, its session has the identifier and the channel of the bootstrap, no generation
  has been started in it, and it was not served during a shutdown.
\<close>

theorem served_session_identity:
  assumes "serve E opts aw hdrs w sv is cl = (Ok (Serving c), cl')" and "go_on_session_created opts = None"
  shows "\<exists>b. create_session (env_http E) (env_bootstrap_from_str E) cl = Ok b \<and>
    sess_id (conn_session c) = boot_session_id b \<and>
    sess_channel_name (conn_session c) = ''/rtc/'' @ boot_session_id b \<and>
    response_generation (conn_session c) = \<lparr>counter = 0, current_id = None\<rparr> \<and>
    conn_headers c = hdrs \<and> sv = None"
proof -
  obtain cs where cs: "create_controlled_session (env_client E) (env_channel E) (env_http E) (env_to_string E)
      (env_bootstrap_from_str E) aw cl = (Ok cs, cl')"
    and run: "serve_session E opts hdrs w sv is cs = Serving c"
    using assms(1) by (auto simp: serve_def split: prod.splits sum.splits)
  have sv: "sv = None" using run by (auto simp: serve_session_def Let_def split: option.splits)
  with run assms(2) have "serve_ready E opts is cs
      \<lparr>conn_headers = hdrs, conn_session = controlled_session cs, sender = w, calls = [],
       pending_offer_id = None, generated_offer = False, rtc_close_requested = False,
       close_reason = ''browser_disconnected''\<rparr> = Serving c"
    by (simp add: serve_session_def Let_def)
  from serve_ready_Serving [OF this] controlled_identity [OF cs [unfolded create_controlled_session_def]] sv
  show ?thesis by auto
qed


text \<open>
  C23. A shutdown ends a connection with its reason: whatever the connection did before, the reason of
  the gateway's \<open>close\<close> ends its loop at once, the session is released with that reason, which
  includes an \<open>rtc.close\<close> unless one was requested before, and the closed hook gets that session
  and reason with the headers of the connection.
\<close>

theorem shutdown_ends_connection:
  assumes "serve_session E opts hdrs w sv is controlled = Serving c" and "go_on_session_closed opts = Some hook"
  shows "\<exists>c'. serve_session E opts hdrs w sv (is @ Shutdown_changed (Some r) # js) controlled = Served c' \<and>
    Closed_hook \<lparr>closed_headers = hdrs,
      closed_session = released (env_channel E) (rtc_close_requested c) r (conn_session c), closed_reason = r\<rparr>
      \<in> set (calls c')"
proof -
  obtain c0 where c0: "conn_headers c0 = hdrs"
    and run: "\<And>js. serve_session E opts hdrs w sv js controlled = serve_ready E opts js controlled c0"
    using serve_session_Serving [OF assms(1)] by metis
  have ready: "serve_ready E opts is controlled c0 = Serving c" using assms(1) by (simp add: run)
  have "conn_headers c = hdrs" using serve_ready_Serving [OF ready] c0 by simp
  then show ?thesis
    using cleanup_hook [OF assms(2), of "c\<lparr>close_reason := r\<rparr>" E "rtc_close_requested c" r]
    by (simp add: run serve_ready_continues [OF ready] served_by_def)
qed

section \<open>Witnesses\<close>

text \<open>A parser that knows one message, an offer with generation 7.\<close>

definition sample_off :: EventData where
  "sample_off = object_of [(''type'', String ''offer''), (''sdp'', String ''v=0'')]"

definition sample_data :: EventData where
  "sample_data = object_of [(''offer'', Object sample_off), (''generation'', Number (PosInt 7))]"

definition sample_message :: EventData where
  "sample_message = object_of [(''id'', String ''o1''), (''type'', String ''rtc.offer''), (''data'', Object sample_data)]"

definition offer_env ::
  "(PondConnectionState, PondChannelState \<times> (string \<times> EventData option) list, unit, Message list) gateway_env" where
  "offer_env = log_env\<lparr>env_from_str := (\<lambda>_. Ok (Object sample_message))\<rparr>"

lemma sample_trims: "trim ''o1'' = ''o1''" "trim ''rtc.offer'' = ''rtc.offer''" "trim ''v=0'' = ''v=0''"
  by (rule trim_fix; simp add: utf8_white_space_def)+

lemma offer_answer_roundtrip_witness:
  "\<exists>c'. serve_loop offer_env [Browser_message (Text ''offer''), Session_event (wire ''rtc.answer'')]
      (log_connection\<lparr>pending_offer_id := None\<rparr>) = Continue c' \<and> generated_offer c' \<and>
    sender c' = send_frames offer_env [frame_json (Some ''o1'') ''rtc.answer'' (Object fmempty)] []"
proof -
  have opened: "closed_error (env_channel offer_env)
      (sess_channel (conn_session (log_connection\<lparr>pending_offer_id := None\<rparr>))) = None"
    using log_session_open by (simp add: offer_env_def log_env_def log_connection_def)
  have sends: "fst (env_send offer_env m w) = Ok ()" for m w by (simp add: offer_env_def log_env_def)
  have "env_from_str offer_env ''offer'' = Ok (Object sample_message)" by (simp add: offer_env_def)
  from offer_answer_roundtrip [OF this, where i = "''o1''" and k = "''rtc.offer''" and d = sample_data
      and g = 7 and off = sample_off and sdp = "''v=0''" and e = "wire ''rtc.answer''", OF _ _ _ _ _ _ _ _ _ _ _ _ _ opened sends]
  show ?thesis
    by (auto simp: sample_message_def sample_data_def sample_off_def get_object_of sample_trims wire_def
        log_connection_def simp del: serve_loop_simps)
qed

lemma served_session_identity_witness:
  "\<exists>c cl'. serve log_env log_options sample_waits () [] None [] sample_client = (Ok (Serving c), cl') \<and>
     sess_id (conn_session c) = ''s1''"
proof -
  have "\<exists>c cl'. serve log_env log_options sample_waits () [] None [] sample_client = (Ok (Serving c), cl')"
    by (simp add: vox_defs serve_def log_env_def fixed_http_def online_client_def sample_client_def log_channel_def
        sample_waits_def serve_session_def log_options_def gateway_options_new_def serve_ready_def send_json_def)
  then obtain c cl' where c: "serve log_env log_options sample_waits () [] None [] sample_client = (Ok (Serving c), cl')"
    by blast
  have created: "create_session (env_http log_env) (env_bootstrap_from_str log_env) sample_client = Ok sample_bootstrap"
    by (simp add: log_env_def create_session_def fixed_http_def is_success_def)
  have "go_on_session_created log_options = None" by (simp add: log_options_def gateway_options_new_def)
  from served_session_identity [OF c this] created have "sess_id (conn_session c) = boot_session_id sample_bootstrap"
    by auto
  then have "sess_id (conn_session c) = ''s1''" by (simp add: sample_bootstrap_def)
  with c show ?thesis by blast
qed

text \<open>
  A run of the relay and of the loop: an answer and a presence event, received by the mirror and the
  listener, between a lost shutdown watch and a binary message.
\<close>

definition relayed :: "(PondChannelState \<times> (string \<times> EventData option) list) relay" where
  "relayed = relay_run plain_recv 8 plain_recv
     [Pond_event (ChannelMessage ''rtc.answer'' fmempty), Mirror_poll, Pond_event Presence, Listener_poll, Mirror_poll]
     (relay_start (raw_channel_new log_channel (PondJoined, [])))"

lemma relayed_eval:
  "pond_events relayed = [ChannelMessage ''rtc.answer'' fmempty, Presence]" "came_through relayed"
  "lis_got (relay_listening relayed) = [Received (''rtc.answer'', fmempty)]"
  by (simp_all add: relayed_def relay_start_def listen_start_def raw_channel_new_def raw_subscribe_messages_def
      plain_recv_def on_relay_channel_def came_through_def MESSAGE_CAPACITY_def)

definition relayed_inputs :: "gateway_input list" where
  "relayed_inputs = [Shutdown_error] @
     map Session_event (on_event (conn_session log_connection) (lis_got (relay_listening relayed))) @
     [Browser_message (Binary [])]"

lemma relayed_inputs_eval:
  "session_events relayed_inputs = on_event (conn_session log_connection) (lis_got (relay_listening relayed))"
  "list_all (\<lambda>i. exit_reason i = None) relayed_inputs"
  "handled (conn_session log_connection) (relay_listening relayed) = [(''rtc.answer'', fmempty)]"
  by (simp_all add: relayed_inputs_def session_events_def exit_reason_def handled_seen relayed_eval on_event_def)


lemma serving_start:
  "\<exists>c. serve_session log_env log_options () [] None [] \<lparr>bootstrap = sample_bootstrap,
     controlled_session = log_session PondJoined\<rparr> = Serving c"
  by (simp add: serve_session_def log_options_def gateway_options_new_def serve_ready_def send_json_def log_env_def Let_def)

lemma shutdown_ends_connection_witness:
  "\<exists>c' s. serve_session log_env log_options () [] None [Shutdown_changed (Some ''stop'')]
      \<lparr>bootstrap = sample_bootstrap, controlled_session = log_session PondJoined\<rparr> = Served c' \<and>
    Closed_hook \<lparr>closed_headers = (), closed_session = s, closed_reason = ''stop''\<rparr> \<in> set (calls c')"
proof -
  obtain c where c: "serve_session log_env log_options () [] None [] \<lparr>bootstrap = sample_bootstrap,
      controlled_session = log_session PondJoined\<rparr> = Serving c" using serving_start by blast
  have "go_on_session_closed log_options = Some (\<lambda>ctx. (Ok (), closed_session ctx))"
    by (simp add: log_options_def)
  from shutdown_ends_connection [OF c this, of "''stop''" "[]"] show ?thesis by auto
qed

end
